(* ===== verification/Prelude.thy ===== *)
theory Prelude
  imports Main "HOL-Library.Word"
begin

text \<open>
  Shared vocabulary of the development: Rust's machine integers as words, fallible
  results as sums, the composition of fallible effectful calls (the \<open>?\<close> operator), the
  checked and saturating operations of the standard library, and the generic lemmas
  that the component theories use.  Nothing in this theory is specific to one component.
\<close>

named_theorems io_simps \<open>unfolding of the effectful composition\<close>
named_theorems io_cases \<open>case analysis of the effectful composition\<close>
named_theorems metric_simps \<open>how the operations move the metric counters\<close>

subsection \<open>Machine integers\<close>

type_synonym u8 = "8 word"
type_synonym u32 = "32 word"
type_synonym u64 = "64 word"
type_synonym i32 = "32 word"
type_synonym i64 = "64 word"
type_synonym i128 = "128 word"
type_synonym bytes = "8 word list"

text \<open>\<open>uN::saturating_mul\<close> and \<open>uN::saturating_add\<close>: the result is clamped at the maximum.\<close>

definition saturating_mul :: "'a::len word \<Rightarrow> 'a word \<Rightarrow> 'a word" where
  "saturating_mul a b = (if unat a * unat b < 2 ^ LENGTH('a) then a * b else - 1)"

definition saturating_add :: "'a::len word \<Rightarrow> 'a word \<Rightarrow> 'a word" where
  "saturating_add a b = (if unat a + unat b < 2 ^ LENGTH('a) then a + b else - 1)"

text \<open>\<open>iN::checked_mul\<close> on signed words: \<open>None\<close> when the exact product does not fit.\<close>

definition checked_smul :: "'a::len word \<Rightarrow> 'a word \<Rightarrow> 'a word option" where
  "checked_smul a b =
     (if - (2 ^ (LENGTH('a) - 1)) \<le> sint a * sint b \<and> sint a * sint b < 2 ^ (LENGTH('a) - 1)
      then Some (a * b) else None)"

lemma unat_max_word: "unat (- 1 :: 'a::len word) = 2 ^ LENGTH('a) - 1"
  by transfer (simp add: take_bit_minus_one_eq_mask mask_eq_exp_minus_1 nat_diff_distrib nat_power_eq)

lemma unat_saturating_mul:
  "unat (saturating_mul a (b :: 'a::len word)) = min (unat a * unat b) (2 ^ LENGTH('a) - 1)"
  by (auto simp: saturating_mul_def unat_max_word unat_word_ariths)

lemma unat_saturating_add:
  "unat (saturating_add a (b :: 'a::len word)) = min (unat a + unat b) (2 ^ LENGTH('a) - 1)"
  by (auto simp: saturating_add_def unat_max_word unat_word_ariths)

lemma sint_in_range:
  "- (2 ^ (LENGTH('a) - 1)) \<le> sint (w :: 'a::len word) \<and> sint w < 2 ^ (LENGTH('a) - 1)"
  using sint_greater_eq [of w] sint_lt [of w] by simp

lemma word_of_int_sint_exact:
  "- (2 ^ (LENGTH('a) - 1)) \<le> i \<Longrightarrow> i < 2 ^ (LENGTH('a) - 1) \<Longrightarrow>
     sint (word_of_int i :: 'a::len word) = i"
  by transfer (simp add: signed_take_bit_int_eq_self_iff)

lemma checked_smul_Some:
  assumes "checked_smul a b = Some (c :: 'a::len word)"
  shows "sint c = sint a * sint b"
proof -
  have range: "- (2 ^ (LENGTH('a) - 1)) \<le> sint a * sint b" "sint a * sint b < 2 ^ (LENGTH('a) - 1)"
    and c: "c = a * b"
    using assms by (auto simp: checked_smul_def split: if_splits)
  have "c = word_of_int (sint a * sint b)"
    using c by simp
  then show ?thesis
    using word_of_int_sint_exact [OF range] by simp
qed

subsection \<open>Results and effectful calls\<close>

text \<open>
  A fallible computation of the source is a sum: \<open>Inl e\<close> for \<open>Err(e)\<close>, \<open>Inr a\<close> for
  \<open>Ok(a)\<close>.  A call that also acts on the world (metrics, connections, the services
  behind them) is a function from a world to a result and the next world.
\<close>

type_synonym ('w, 'e, 'a) io = "'w \<Rightarrow> ('e + 'a) \<times> 'w"

definition map_err :: "('e \<Rightarrow> 'f) \<Rightarrow> 'e + 'a \<Rightarrow> 'f + 'a" where
  "map_err f r = (case r of Inl e \<Rightarrow> Inl (f e) | Inr a \<Rightarrow> Inr a)"

definition res_bind :: "'e + 'a \<Rightarrow> ('a \<Rightarrow> 'e + 'b) \<Rightarrow> 'e + 'b" where
  "res_bind r k = (case r of Inl e \<Rightarrow> Inl e | Inr a \<Rightarrow> k a)"

definition ok_or :: "'e \<Rightarrow> 'a option \<Rightarrow> 'e + 'a" where
  "ok_or e v = (case v of None \<Rightarrow> Inl e | Some a \<Rightarrow> Inr a)"

text \<open>\<open>collect\<close> of an iterator of results: the first error, or all values in order.\<close>

fun collect_res :: "('e + 'a) list \<Rightarrow> 'e + 'a list" where
  "collect_res [] = Inr []"
| "collect_res (Inl e # rs) = Inl e"
| "collect_res (Inr a # rs) = res_bind (collect_res rs) (\<lambda>as. Inr (a # as))"

definition io_ok :: "'a \<Rightarrow> ('w, 'e, 'a) io" where
  "io_ok a w = (Inr a, w)"

definition io_err :: "'e \<Rightarrow> ('w, 'e, 'a) io" where
  "io_err e w = (Inl e, w)"

definition io_lift :: "'e + 'a \<Rightarrow> ('w, 'e, 'a) io" where
  "io_lift r w = (r, w)"

definition io_do :: "('w \<Rightarrow> 'w) \<Rightarrow> ('w, 'e, unit) io" where
  "io_do f w = (Inr (), f w)"

text \<open>\<open>io_bind m k\<close> is \<open>let a = m?; k(a)\<close>: an error of \<open>m\<close> leaves the function at once.\<close>

definition io_bind :: "('w, 'e, 'a) io \<Rightarrow> ('a \<Rightarrow> ('w, 'e, 'b) io) \<Rightarrow> ('w, 'e, 'b) io" where
  "io_bind m k w = (case m w of (Inl e, w') \<Rightarrow> (Inl e, w') | (Inr a, w') \<Rightarrow> k a w')"

definition io_map_err :: "('e \<Rightarrow> 'f) \<Rightarrow> ('w, 'e, 'a) io \<Rightarrow> ('w, 'f, 'a) io" where
  "io_map_err f m w = (case m w of (r, w') \<Rightarrow> (map_err f r, w'))"

text \<open>\<open>io_inspect_err f m\<close> is \<open>m.inspect_err(f)\<close>: \<open>f\<close> acts on the world only when \<open>m\<close> failed.\<close>

definition io_inspect_err :: "('w \<Rightarrow> 'w) \<Rightarrow> ('w, 'e, 'a) io \<Rightarrow> ('w, 'e, 'a) io" where
  "io_inspect_err f m w =
     (case m w of (Inl e, w') \<Rightarrow> (Inl e, f w') | (Inr a, w') \<Rightarrow> (Inr a, w'))"

lemmas io_defs = io_ok_def io_err_def io_lift_def io_do_def

lemma map_err_simps [simp]:
  "map_err f (Inl e) = Inl (f e)" "map_err f (Inr a) = Inr a"
  by (simp_all add: map_err_def)

lemma res_bind_simps [simp]:
  "res_bind (Inl e) k = Inl e" "res_bind (Inr a) k = k a"
  by (simp_all add: res_bind_def)

lemma ok_or_simps [simp]: "ok_or e None = Inl e" "ok_or e (Some a) = Inr a"
  by (simp_all add: ok_or_def)

lemma map_err_eq_iff [simp]:
  "map_err f r = Inr a \<longleftrightarrow> r = Inr a"
  "Inr a = map_err f r \<longleftrightarrow> r = Inr a"
  "map_err f r = Inl e \<longleftrightarrow> (\<exists>e'. r = Inl e' \<and> e = f e')"
  by (cases r; auto)+

lemma isl_map_err [simp]: "isl (map_err f r) = isl r"
  by (cases r) auto

lemma res_bind_eq_Inr: "res_bind r k = Inr b \<longleftrightarrow> (\<exists>a. r = Inr a \<and> k a = Inr b)"
  by (cases r) auto

lemma res_bind_eq_Inl:
  "res_bind r k = Inl e \<longleftrightarrow> r = Inl e \<or> (\<exists>a. r = Inr a \<and> k a = Inl e)"
  by (cases r) auto

lemma ok_or_eq_Inr [simp]: "ok_or e v = Inr a \<longleftrightarrow> v = Some a"
  by (cases v) auto

lemma collect_res_eq_Inr: "collect_res rs = Inr as \<longleftrightarrow> rs = map Inr as"
proof (induction rs arbitrary: "as")
  case Nil
  then show ?case by auto
next
  case (Cons r rs)
  show ?case
  proof (cases r)
    case (Inr a)
    then show ?thesis
      using Cons.IH by (cases "as") (auto simp: res_bind_eq_Inr)
  qed auto
qed

lemma io_bind_simps [io_simps]:
  "io_bind (io_ok a) k w = k a w"
  "io_bind (io_err e) k w = (Inl e, w)"
  "io_bind (io_lift (Inl e)) k w = (Inl e, w)"
  "io_bind (io_lift (Inr a)) k w = k a w"
  "io_bind (io_do f) k w = k () (f w)"
  "m w = (Inl e, w') \<Longrightarrow> io_bind m k w = (Inl e, w')"
  "m w = (Inr a, w') \<Longrightarrow> io_bind m k w = k a w'"
  by (simp_all add: io_bind_def io_defs)

lemma io_map_err_simps [io_simps]:
  "m w = (r, w') \<Longrightarrow> io_map_err f m w = (map_err f r, w')"
  by (simp add: io_map_err_def)

lemma io_inspect_err_simps [io_simps]:
  "m w = (Inl e, w') \<Longrightarrow> io_inspect_err f m w = (Inl e, f w')"
  "m w = (Inr a, w') \<Longrightarrow> io_inspect_err f m w = (Inr a, w')"
  by (simp_all add: io_inspect_err_def)

text \<open>Inversion: how a composed call can have returned.\<close>

lemma io_bind_eq_Inr [io_cases]:
  "io_bind m k w = (Inr b, w'') \<longleftrightarrow> (\<exists>a w'. m w = (Inr a, w') \<and> k a w' = (Inr b, w''))"
  by (auto simp: io_bind_def split: prod.splits sum.splits)

lemma io_bind_eq_Inl [io_cases]:
  "io_bind m k w = (Inl e, w'') \<longleftrightarrow>
     m w = (Inl e, w'') \<or> (\<exists>a w'. m w = (Inr a, w') \<and> k a w' = (Inl e, w''))"
  by (auto simp: io_bind_def split: prod.splits sum.splits)

lemma io_map_err_eq_Inr [io_cases]:
  "io_map_err f m w = (Inr a, w') \<longleftrightarrow> m w = (Inr a, w')"
  by (auto simp: io_map_err_def split: prod.splits)

lemma io_map_err_eq_Inl [io_cases]:
  "io_map_err f m w = (Inl e, w') \<longleftrightarrow> (\<exists>e'. m w = (Inl e', w') \<and> e = f e')"
  by (auto simp: io_map_err_def split: prod.splits)

lemma io_inspect_err_eq_Inr [io_cases]:
  "io_inspect_err f m w = (Inr a, w') \<longleftrightarrow> m w = (Inr a, w')"
  by (auto simp: io_inspect_err_def split: prod.splits sum.splits)

lemma io_lift_eq [io_cases]: "io_lift r w = (r', w') \<longleftrightarrow> r' = r \<and> w' = w"
  by (auto simp: io_lift_def)

lemma io_ok_eq [io_cases]: "io_ok a w = (r, w') \<longleftrightarrow> r = Inr a \<and> w' = w"
  by (auto simp: io_ok_def)

lemma io_err_eq [io_cases]: "io_err e w = (r, w') \<longleftrightarrow> r = Inl e \<and> w' = w"
  by (auto simp: io_err_def)

lemma io_do_eq [io_cases]: "io_do f w = (r, w') \<longleftrightarrow> r = Inr () \<and> w' = f w"
  by (auto simp: io_do_def)

subsection \<open>Durations\<close>

text \<open>
  \<open>core::time::Duration\<close>: whole seconds and nanoseconds below one second.
  \<open>as_millis\<close> has type \<open>u128\<close>, which the exact value never leaves, so it is a natural number.
\<close>

record duration =
  dur_secs :: u64
  dur_nanos :: u32

definition from_millis :: "u64 \<Rightarrow> duration" where
  "from_millis ms = \<lparr>dur_secs = ms div 1000, dur_nanos = ucast (ms mod 1000) * 1000000\<rparr>"

definition from_secs :: "u64 \<Rightarrow> duration" where
  "from_secs s = \<lparr>dur_secs = s, dur_nanos = 0\<rparr>"

definition as_millis :: "duration \<Rightarrow> nat" where
  "as_millis d = unat (dur_secs d) * 1000 + unat (dur_nanos d) div 1000000"

lemma as_millis_from_millis [simp]: "as_millis (from_millis ms) = unat ms"
proof -
  let ?m = "unat ms mod 1000"
  have small: "?m < 2 ^ 32" "?m * 1000000 < 2 ^ 32"
    using mod_less_divisor [of 1000 "unat ms"] by simp_all
  have "unat (ucast (ms mod 1000) :: u32) = ?m"
    using small by (simp add: unsigned_ucast_eq unat_mod_distrib take_bit_nat_eq_self)
  then have "unat (ucast (ms mod 1000) * 1000000 :: u32) = ?m * 1000000"
    using small by (simp add: unat_word_ariths)
  then show ?thesis
    by (simp add: as_millis_def from_millis_def unat_div_distrib)
qed

lemma as_millis_from_secs [simp]: "as_millis (from_secs s) = unat s * 1000"
  by (simp add: as_millis_def from_secs_def)

subsection \<open>Lists updated at a position\<close>

lemma length_filter_update:
  "i < length xs \<Longrightarrow>
     length (filter P (xs[i := x])) + (if P (xs ! i) then 1 else 0) =
     length (filter P xs) + (if P x then 1 else 0)"
proof (induction xs arbitrary: i)
  case (Cons y ys)
  then show ?case
    using Cons.IH [of "i - 1"] by (cases i) auto
qed simp

lemma sum_list_update:
  fixes f :: "'a \<Rightarrow> nat"
  shows "i < length xs \<Longrightarrow>
     sum_list (map f (xs[i := x])) + f (xs ! i) = sum_list (map f xs) + f x"
proof (induction xs arbitrary: i)
  case (Cons y ys)
  then show ?case
    using Cons.IH [of "i - 1"] by (cases i) auto
qed simp

end
