(* ===== verification/Backoff.thy ===== *)
theory Backoff
  imports Prelude Complex_Main
begin

text \<open>
  The delays of the crate \<open>retry\<close>: \<open>BackoffPairIterator\<close> of
  \<open>backoff_pair_iterator.rs\<close>, which alternates between two paths of execution and gives
  each attempt a delay, and the parameters the \<open>Builder\<close> holds.

  \<open>jitter\<close> multiplies by a random floating-point factor.  The random generator and the
  rounding of the product are outside the repository: \<open>mul\<close> maps the duration to the
  product \<open>duration_ms as f64 * jitter_factor\<close> of one call, as a floating-point value.
\<close>

datatype f64 = Finite (f64_negative: bool) (f64_magnitude: rat) | Infinite bool | NaN bool

definition f64_max :: rat where
  "f64_max = (2 - 1 / 2 ^ 52) * 2 ^ 1023"

fun f64_is_finite :: "f64 \<Rightarrow> bool" where
  "f64_is_finite (Finite _ _) = True"
| "f64_is_finite _ = False"

fun f64_is_sign_positive :: "f64 \<Rightarrow> bool" where
  "f64_is_sign_positive (Finite neg _) = (\<not> neg)"
| "f64_is_sign_positive (Infinite neg) = (\<not> neg)"
| "f64_is_sign_positive (NaN neg) = (\<not> neg)"

text \<open>\<open>x < bound\<close> for a positive bound, and the cast \<open>x as u64\<close>, which saturates.\<close>

fun f64_less_rat :: "f64 \<Rightarrow> rat \<Rightarrow> bool" where
  "f64_less_rat (Finite neg m) b = ((if neg then - m else m) < b)"
| "f64_less_rat (Infinite neg) b = neg"
| "f64_less_rat (NaN _) b = False"

fun f64_as_u64 :: "f64 \<Rightarrow> u64" where
  "f64_as_u64 (Finite neg m) = (if neg then 0 else of_nat (min (nat \<lfloor>m\<rfloor>) (2 ^ 64 - 1)))"
| "f64_as_u64 (Infinite neg) = (if neg then 0 else - 1)"
| "f64_as_u64 (NaN _) = 0"

definition jitter :: "(u64 \<Rightarrow> f64) \<Rightarrow> u64 \<Rightarrow> u64" where
  "jitter mul duration_ms =
     (let jittered = mul duration_ms
      in if f64_is_finite jittered \<and> f64_is_sign_positive jittered \<and> f64_less_rat jittered (f64_max / 2)
         then f64_as_u64 jittered else duration_ms)"

definition u128_to_u64_saturating :: "nat \<Rightarrow> u64" where
  "u128_to_u64_saturating v = (if v > 2 ^ 64 - 1 then - 1 else of_nat v)"

datatype alternation_step = First | Second

record backoff_pair_iterator =
  current_first_path_delay_ms :: u64
  current_second_path_delay_ms :: u64
  bp_factor :: u64
  max_delay_ms :: u64
  backoff_path :: alternation_step

record iteration =
  it_duration :: duration
  alteration_step :: alternation_step

definition backoff_pair_new :: "duration \<Rightarrow> u64 \<Rightarrow> duration \<Rightarrow> backoff_pair_iterator" where
  "backoff_pair_new initial_delay factor max_delay =
     \<lparr>current_first_path_delay_ms = u128_to_u64_saturating (as_millis initial_delay),
      current_second_path_delay_ms = 0,
      bp_factor = factor,
      max_delay_ms = u128_to_u64_saturating (as_millis max_delay),
      backoff_path = First\<rparr>"

definition backoff_pair_next ::
  "(u64 \<Rightarrow> f64) \<Rightarrow> backoff_pair_iterator \<Rightarrow> iteration \<times> backoff_pair_iterator" where
  "backoff_pair_next mul b =
     (let current_path = backoff_path b;
          (duration_ms, b') =
            (case backoff_path b of
               First \<Rightarrow>
                 (current_first_path_delay_ms b,
                  b\<lparr>backoff_path := Second,
                    current_first_path_delay_ms :=
                      jitter mul (saturating_mul (current_first_path_delay_ms b) (bp_factor b))\<rparr>)
             | Second \<Rightarrow>
                 (current_second_path_delay_ms b,
                  b\<lparr>backoff_path := First,
                    current_second_path_delay_ms :=
                      jitter mul (saturating_mul (current_first_path_delay_ms b) (bp_factor b))\<rparr>));
          duration_ms' = (if duration_ms > max_delay_ms b then max_delay_ms b else duration_ms)
      in (\<lparr>it_duration = from_millis duration_ms', alteration_step = current_path\<rparr>, b'))"

text \<open>The first \<open>n\<close> items of the iterator; the \<open>k\<close>-th call draws the \<open>k\<close>-th product.\<close>

fun backoff_pair_take ::
  "(nat \<Rightarrow> u64 \<Rightarrow> f64) \<Rightarrow> nat \<Rightarrow> backoff_pair_iterator \<Rightarrow> iteration list" where
  "backoff_pair_take muls 0 b = []"
| "backoff_pair_take muls (Suc n) b =
     (let (it, b') = backoff_pair_next (muls 0) b
      in it # backoff_pair_take (\<lambda>k. muls (Suc k)) n b')"

text \<open>The parameters of the \<open>Builder\<close> and of \<open>tokio_retry\<close>'s \<open>ExponentialBackoff\<close>.\<close>

record backoff_params =
  bf_initial_delay :: duration
  bf_backoff_factor :: u64
  bf_max_delay :: duration

record exponential_backoff =
  eb_base_millis :: u64
  eb_factor :: u64
  eb_max_delay :: duration

definition exponential_of :: "backoff_params \<Rightarrow> exponential_backoff" where
  "exponential_of p =
     \<lparr>eb_base_millis = (if as_millis (bf_initial_delay p) < 2 ^ 64
                         then of_nat (as_millis (bf_initial_delay p)) else - 1),
      eb_factor = bf_backoff_factor p,
      eb_max_delay = bf_max_delay p\<rparr>"

definition backoff_pair_of :: "backoff_params \<Rightarrow> backoff_pair_iterator" where
  "backoff_pair_of p =
     backoff_pair_new (bf_initial_delay p) (bf_backoff_factor p) (bf_max_delay p)"

subsection \<open>One step of the iterator\<close>

lemma u128_to_u64_saturating_unat:
  "unat (u128_to_u64_saturating v) = min v (2 ^ 64 - 1)"
proof (cases "v > 2 ^ 64 - 1")
  case True
  then show ?thesis
    using unat_max_word [where 'a = 64] by (simp add: u128_to_u64_saturating_def)
next
  case False
  then show ?thesis
    by (simp add: u128_to_u64_saturating_def unat_of_nat)
qed

lemma next_step [simp]:
  "alteration_step (fst (backoff_pair_next mul b)) = backoff_path b"
  by (simp add: backoff_pair_next_def Let_def split: alternation_step.split)

lemma next_path [simp]:
  "backoff_path (snd (backoff_pair_next mul b)) = (case backoff_path b of First \<Rightarrow> Second | Second \<Rightarrow> First)"
  by (simp add: backoff_pair_next_def Let_def split: alternation_step.split)

lemma next_params [simp]:
  "max_delay_ms (snd (backoff_pair_next mul b)) = max_delay_ms b"
  "bp_factor (snd (backoff_pair_next mul b)) = bp_factor b"
  by (simp_all add: backoff_pair_next_def Let_def split: alternation_step.split)

lemma next_duration:
  "as_millis (it_duration (fst (backoff_pair_next mul b))) =
     min (unat (case backoff_path b of First \<Rightarrow> current_first_path_delay_ms b
                 | Second \<Rightarrow> current_second_path_delay_ms b))
       (unat (max_delay_ms b))"
  by (auto simp: backoff_pair_next_def Let_def word_less_nat_alt split: alternation_step.split)

lemma take_Suc:
  "backoff_pair_take muls (Suc n) b =
     fst (backoff_pair_next (muls 0) b) #
     backoff_pair_take (\<lambda>k. muls (Suc k)) n (snd (backoff_pair_next (muls 0) b))"
  by (simp add: case_prod_beta)

declare backoff_pair_take.simps(2) [simp del]

lemma length_backoff_pair_take [simp]: "length (backoff_pair_take muls n b) = n"
  by (induction n arbitrary: muls b) (auto simp: take_Suc)

lemma take_durations_bounded:
  "list_all (\<lambda>it. as_millis (it_duration it) \<le> unat (max_delay_ms b)) (backoff_pair_take muls n b)"
proof (induction n arbitrary: muls b)
  case (Suc n)
  show ?case
    using Suc.IH [of "snd (backoff_pair_next (muls 0) b)" "\<lambda>k. muls (Suc k)"]
    by (simp add: take_Suc next_duration)
qed simp

definition alternating :: "alternation_step \<Rightarrow> nat \<Rightarrow> alternation_step" where
  "alternating start k = (if even k then start else (case start of First \<Rightarrow> Second | Second \<Rightarrow> First))"

lemma alternating_0 [simp]: "alternating start 0 = start"
  by (simp add: alternating_def)

lemma alternating_Suc:
  "alternating start (Suc k) = alternating (case start of First \<Rightarrow> Second | Second \<Rightarrow> First) k"
  by (auto simp: alternating_def split: alternation_step.split)

lemma take_steps:
  "map alteration_step (backoff_pair_take muls n b) = map (alternating (backoff_path b)) [0..<n]"
proof (induction n arbitrary: muls b)
  case (Suc n)
  then show ?case
    by (simp add: take_Suc map_upt_Suc alternating_Suc del: upt_Suc)
qed simp

lemma count_first_alternating:
  "length (filter (\<lambda>k. alternating First k = First) [0..<n]) = (n + 1) div 2"
  by (induction n) (auto simp: alternating_def)

subsection \<open>Properties\<close>

text \<open>C29: whatever the random factors are, no delay the pair iterator hands out exceeds the
  configured maximal delay (saturated to 64 bits).\<close>

theorem backoff_pair_delay_bounded:
  "list_all (\<lambda>it. as_millis (it_duration it) \<le> min (as_millis max_delay) (2 ^ 64 - 1))
     (backoff_pair_take muls n (backoff_pair_new initial_delay factor max_delay))"
  using take_durations_bounded [of "backoff_pair_new initial_delay factor max_delay" muls n]
  by (simp add: backoff_pair_new_def u128_to_u64_saturating_unat)

text \<open>A new pair iterator alternates strictly between the two paths, starting with the
  first, and never ends.\<close>

theorem backoff_pair_alternates:
  "map alteration_step (backoff_pair_take muls n (backoff_pair_new initial_delay factor max_delay)) =
     map (\<lambda>k. if even k then First else Second) [0..<n]"
  by (simp add: take_steps backoff_pair_new_def alternating_def)

text \<open>The two paths do not back off independently, as the iterator's comment says: the
  second path's next delay is computed from the first path's current delay, whatever the
  second path's own delay was, and its first delay is zero.\<close>

theorem backoff_pair_second_from_first:
  "current_second_path_delay_ms (snd (backoff_pair_next mul
       (b\<lparr>backoff_path := Second, current_second_path_delay_ms := d\<rparr>))) =
     jitter mul (saturating_mul (current_first_path_delay_ms b) (bp_factor b)) \<and>
   as_millis (it_duration (fst (backoff_pair_next mul' (snd (backoff_pair_next mul
       (backoff_pair_new initial_delay factor max_delay)))))) = 0"
  by (simp add: backoff_pair_next_def backoff_pair_new_def Let_def as_millis_from_millis)

end
