(* ===== verification/Retry.thy ===== *)
theory Retry
  imports Backoff
begin

text \<open>
  The retry loops of the crate \<open>retry\<close>: \<open>RetryFn::retry\<close> (\<open>retry_fn.rs\<close>),
  \<open>RetryPairFn::retry\<close> (\<open>retry_pair_fn.rs\<close>) and the \<open>Builder\<close> (\<open>builder.rs\<close>).

  The retried functions are arbitrary effectful functions on a state \<open>'s\<close>.  A run returns,
  beside its result and the final state, the trace of what it did: the sleeps, and the
  calls with their results.  \<open>expect\<close> on an option that is \<open>None\<close> would panic; the model of the
  pair loop has that outcome, and it is proved unreachable.
\<close>

text \<open>The trait \<open>Abortable\<close> as a dictionary; both methods default to \<open>false\<close>.\<close>

record 'e abortable_dict =
  abortable :: "'e \<Rightarrow> bool"
  rate_limit :: "'e \<Rightarrow> bool"

definition abortable_default :: "'e abortable_dict" where
  "abortable_default = \<lparr>abortable = (\<lambda>_. False), rate_limit = (\<lambda>_. False)\<rparr>"

datatype 'e retry_error = Aborted 'e | MaxAttempts

definition max_attempts_default :: nat where
  "max_attempts_default = 20"

definition rate_limit_wait_default :: duration where
  "rate_limit_wait_default = from_secs 10"

datatype ('e, 't) retry_event =
    Slept duration
  | CalledFirst "'e + 't"
  | CalledSecond "'e + 't"

subsection \<open>One function: RetryFn\<close>

text \<open>\<open>rf_backoff\<close> is the infinite iterator of \<open>tokio_retry\<close>, by position.\<close>

record ('s, 'e, 't) retry_fn =
  rf_backoff :: "nat \<Rightarrow> duration"
  rf_function :: "'s \<Rightarrow> ('e + 't) \<times> 's"
  rf_max_attempts :: nat
  rf_rate_limit_wait :: duration

definition retry_fn_new ::
  "(nat \<Rightarrow> duration) \<Rightarrow> ('s \<Rightarrow> ('e + 't) \<times> 's) \<Rightarrow> ('s, 'e, 't) retry_fn" where
  "retry_fn_new backoff function =
     \<lparr>rf_backoff = backoff, rf_function = function, rf_max_attempts = max_attempts_default,
      rf_rate_limit_wait = rate_limit_wait_default\<rparr>"

fun retry_loop ::
  "'e abortable_dict \<Rightarrow> duration \<Rightarrow> ('s \<Rightarrow> ('e + 't) \<times> 's) \<Rightarrow> duration list \<Rightarrow> 's \<Rightarrow>
     ('e retry_error + 't) \<times> 's \<times> ('e, 't) retry_event list" where
  "retry_loop A wait f [] s = (Inl MaxAttempts, s, [])"
| "retry_loop A wait f (duration # durations) s =
     (let (r, s') = f s; this = [Slept duration, CalledFirst r]
      in case r of
           Inr res \<Rightarrow> (Inr res, s', this)
         | Inl err \<Rightarrow>
             if abortable A err then (Inl (Aborted err), s', this)
             else
               let this' = (if rate_limit A err then this @ [Slept wait] else this);
                   (result, s'', trace) = retry_loop A wait f durations s'
               in (result, s'', this' @ trace))"

definition retry_fn_retry ::
  "'e abortable_dict \<Rightarrow> ('s, 'e, 't) retry_fn \<Rightarrow> 's \<Rightarrow>
     ('e retry_error + 't) \<times> 's \<times> ('e, 't) retry_event list" where
  "retry_fn_retry A R s =
     retry_loop A (rf_rate_limit_wait R) (rf_function R)
       (map (rf_backoff R) [0..<rf_max_attempts R]) s"

subsection \<open>Two alternating functions: RetryPairFn\<close>

record 'e pair_flags =
  primary_fn_aborted :: bool
  primary_fn_rate_limitted :: bool
  secondary_fn_aborted :: bool
  secondary_fn_rate_limitted :: bool
  last_abort_err :: "'e option"

definition pair_flags_init :: "'e pair_flags" where
  "pair_flags_init =
     \<lparr>primary_fn_aborted = False, primary_fn_rate_limitted = False, secondary_fn_aborted = False,
      secondary_fn_rate_limitted = False, last_abort_err = None\<rparr>"

datatype ('e, 't) pair_outcome = Returned "'e retry_error + 't" | Panicked

datatype ('e, 't) pair_control = Return "('e, 't) pair_outcome" | Continue "'e pair_flags"

text \<open>\<open>Err(RetryError::Aborted(last_abort_err.expect("abort error")))\<close>.\<close>

definition return_aborted :: "'e pair_flags \<Rightarrow> ('e, 't) pair_control" where
  "return_aborted fl =
     (case last_abort_err fl of
        Some err \<Rightarrow> Return (Returned (Inl (Aborted err)))
      | None \<Rightarrow> Return Panicked)"

definition first_step ::
  "'e abortable_dict \<Rightarrow> duration \<Rightarrow> ('s \<Rightarrow> ('e + 't) \<times> 's) \<Rightarrow> duration \<Rightarrow> 'e pair_flags \<Rightarrow> 's \<Rightarrow>
     ('e, 't) pair_control \<times> 's \<times> ('e, 't) retry_event list" where
  "first_step A wait f duration fl s =
     (if primary_fn_aborted fl
      then ((if secondary_fn_aborted fl then return_aborted fl else Continue fl), s, [])
      else
        let (slept, fl) =
              (if primary_fn_rate_limitted fl then (wait, fl\<lparr>primary_fn_rate_limitted := False\<rparr>)
               else (duration, fl));
            (r, s') = f s;
            control =
              (case r of
                 Inr res \<Rightarrow> Return (Returned (Inr res))
               | Inl err \<Rightarrow>
                   if abortable A err
                   then let fl = fl\<lparr>primary_fn_aborted := True, last_abort_err := Some err\<rparr>
                        in if secondary_fn_aborted fl then return_aborted fl else Continue fl
                   else if rate_limit A err
                   then Continue (fl\<lparr>primary_fn_rate_limitted := True\<rparr>)
                   else Continue fl)
        in (control, s', [Slept slept, CalledFirst r]))"

definition second_step ::
  "'e abortable_dict \<Rightarrow> duration \<Rightarrow> ('s \<Rightarrow> ('e + 't) \<times> 's) \<Rightarrow> duration \<Rightarrow> 'e pair_flags \<Rightarrow> 's \<Rightarrow>
     ('e, 't) pair_control \<times> 's \<times> ('e, 't) retry_event list" where
  "second_step A wait f duration fl s =
     (if secondary_fn_aborted fl
      then ((if primary_fn_aborted fl then return_aborted fl else Continue fl), s, [])
      else
        let (slept, fl) =
              (if secondary_fn_rate_limitted fl then (wait, fl\<lparr>secondary_fn_rate_limitted := False\<rparr>)
               else (duration, fl));
            (r, s') = f s;
            control =
              (case r of
                 Inr res \<Rightarrow> Return (Returned (Inr res))
               | Inl err \<Rightarrow>
                   if abortable A err
                   then let fl = fl\<lparr>secondary_fn_aborted := True, last_abort_err := Some err\<rparr>
                        in if primary_fn_aborted fl then return_aborted fl else Continue fl
                   else if rate_limit A err
                   then Continue (fl\<lparr>secondary_fn_rate_limitted := True\<rparr>)
                   else Continue fl)
        in (control, s', [Slept slept, CalledSecond r]))"

definition pair_step ::
  "'e abortable_dict \<Rightarrow> duration \<Rightarrow> ('s \<Rightarrow> ('e + 't) \<times> 's) \<Rightarrow> ('s \<Rightarrow> ('e + 't) \<times> 's) \<Rightarrow>
     iteration \<Rightarrow> 'e pair_flags \<Rightarrow> 's \<Rightarrow>
     ('e, 't) pair_control \<times> 's \<times> ('e, 't) retry_event list" where
  "pair_step A wait f1 f2 it fl s =
     (case alteration_step it of
        First \<Rightarrow> first_step A wait f1 (it_duration it) fl s
      | Second \<Rightarrow> second_step A wait f2 (it_duration it) fl s)"

fun retry_pair_loop ::
  "'e abortable_dict \<Rightarrow> duration \<Rightarrow> ('s \<Rightarrow> ('e + 't) \<times> 's) \<Rightarrow> ('s \<Rightarrow> ('e + 't) \<times> 's) \<Rightarrow>
     iteration list \<Rightarrow> 'e pair_flags \<Rightarrow> 's \<Rightarrow>
     ('e, 't) pair_outcome \<times> 's \<times> ('e, 't) retry_event list" where
  "retry_pair_loop A wait f1 f2 [] fl s = (Returned (Inl MaxAttempts), s, [])"
| "retry_pair_loop A wait f1 f2 (it # its) fl s =
     (case pair_step A wait f1 f2 it fl s of
        (Return out, s', this) \<Rightarrow> (out, s', this)
      | (Continue fl', s', this) \<Rightarrow>
          let (out, s'', trace) = retry_pair_loop A wait f1 f2 its fl' s'
          in (out, s'', this @ trace))"

record ('s, 'e, 't) retry_pair_fn =
  rp_backoff :: backoff_pair_iterator
  rp_first_function :: "'s \<Rightarrow> ('e + 't) \<times> 's"
  rp_second_function :: "'s \<Rightarrow> ('e + 't) \<times> 's"
  rp_max_attempts :: nat
  rp_rate_limit_wait :: duration

definition retry_pair_fn_new ::
  "backoff_pair_iterator \<Rightarrow> ('s \<Rightarrow> ('e + 't) \<times> 's) \<Rightarrow> ('s \<Rightarrow> ('e + 't) \<times> 's) \<Rightarrow>
     ('s, 'e, 't) retry_pair_fn" where
  "retry_pair_fn_new backoff f1 f2 =
     \<lparr>rp_backoff = backoff, rp_first_function = f1, rp_second_function = f2,
      rp_max_attempts = max_attempts_default, rp_rate_limit_wait = rate_limit_wait_default\<rparr>"

definition retry_pair_fn_retry ::
  "'e abortable_dict \<Rightarrow> (nat \<Rightarrow> u64 \<Rightarrow> f64) \<Rightarrow> ('s, 'e, 't) retry_pair_fn \<Rightarrow> 's \<Rightarrow>
     ('e, 't) pair_outcome \<times> 's \<times> ('e, 't) retry_event list" where
  "retry_pair_fn_retry A muls R s =
     retry_pair_loop A (rp_rate_limit_wait R) (rp_first_function R) (rp_second_function R)
       (backoff_pair_take muls (rp_max_attempts R) (rp_backoff R)) pair_flags_init s"

text \<open>The \<open>Builder\<close>; \<open>expo\<close> is the iterator \<open>tokio_retry\<close> makes of its parameters.\<close>

definition builder_new :: "duration \<Rightarrow> u64 \<Rightarrow> duration \<Rightarrow> backoff_params" where
  "builder_new initial_delay backoff_factor max_delay =
     \<lparr>bf_initial_delay = initial_delay, bf_backoff_factor = backoff_factor, bf_max_delay = max_delay\<rparr>"

definition with_retry ::
  "(exponential_backoff \<Rightarrow> nat \<Rightarrow> duration) \<Rightarrow> backoff_params \<Rightarrow> ('s \<Rightarrow> ('e + 't) \<times> 's) \<Rightarrow>
     ('s, 'e, 't) retry_fn" where
  "with_retry expo p function = retry_fn_new (expo (exponential_of p)) function"

definition with_retry_pair ::
  "backoff_params \<Rightarrow> ('s \<Rightarrow> ('e + 't) \<times> 's) \<Rightarrow> ('s \<Rightarrow> ('e + 't) \<times> 's) \<Rightarrow>
     ('s, 'e, 't) retry_pair_fn" where
  "with_retry_pair p f1 f2 = retry_pair_fn_new (backoff_pair_of p) f1 f2"

subsection \<open>The specification of a single-function run\<close>

text \<open>
  The results of calling a function again and again; the first one that is a success or an
  abortable error decides.
\<close>

fun outcomes :: "('s \<Rightarrow> ('e + 't) \<times> 's) \<Rightarrow> nat \<Rightarrow> 's \<Rightarrow> ('e + 't) list" where
  "outcomes f 0 s = []"
| "outcomes f (Suc n) s = fst (f s) # outcomes f n (snd (f s))"

fun decisive :: "'e abortable_dict \<Rightarrow> 'e + 't \<Rightarrow> bool" where
  "decisive A (Inr _) = True"
| "decisive A (Inl err) = abortable A err"

fun verdict :: "'e abortable_dict \<Rightarrow> ('e + 't) list \<Rightarrow> 'e retry_error + 't" where
  "verdict A [] = Inl MaxAttempts"
| "verdict A (Inr res # rs) = Inr res"
| "verdict A (Inl err # rs) = (if abortable A err then Inl (Aborted err) else verdict A rs)"

text \<open>The outcomes up to and including the deciding one.\<close>

fun attempted :: "'e abortable_dict \<Rightarrow> ('e + 't) list \<Rightarrow> ('e + 't) list" where
  "attempted A [] = []"
| "attempted A (r # rs) = (if decisive A r then [r] else r # attempted A rs)"

fun attempt_events :: "'e abortable_dict \<Rightarrow> duration \<Rightarrow> duration \<times> ('e + 't) \<Rightarrow> ('e, 't) retry_event list" where
  "attempt_events A wait (d, r) =
     [Slept d, CalledFirst r] @
     (case r of Inr _ \<Rightarrow> [] | Inl err \<Rightarrow>
        if \<not> abortable A err \<and> rate_limit A err then [Slept wait] else [])"

lemma retry_loop_verdict:
  "fst (retry_loop A wait f ds s) = verdict A (outcomes f (length ds) s)"
proof (induction ds arbitrary: s)
  case (Cons d ds)
  obtain r s' where f: "f s = (r, s')" by force
  with Cons.IH [of s'] show ?case
    by (cases r) (auto simp: Let_def split: prod.splits)
qed simp

lemma retry_loop_trace:
  "snd (snd (retry_loop A wait f ds s)) =
     concat (map (attempt_events A wait) (zip ds (attempted A (outcomes f (length ds) s))))"
proof (induction ds arbitrary: s)
  case (Cons d ds)
  obtain r s' where f: "f s = (r, s')" by force
  with Cons.IH [of s'] show ?case
    by (cases r) (auto simp: Let_def split: prod.splits)
qed simp

lemma length_outcomes [simp]: "length (outcomes f n s) = n"
  by (induction n arbitrary: s) auto

lemma length_attempted_le: "length (attempted A rs) \<le> length rs"
  by (induction A rs rule: attempted.induct) auto

definition is_call :: "('e, 't) retry_event \<Rightarrow> bool" where
  "is_call e = (case e of Slept _ \<Rightarrow> False | _ \<Rightarrow> True)"

lemma calls_of_attempts:
  "length (filter is_call (concat (map (attempt_events A wait) ps))) = length ps"
proof (induction ps)
  case (Cons p ps)
  then show ?case
    by (cases p; cases "snd p") (auto simp: is_call_def)
qed simp

subsection \<open>Invariants of the pair loop\<close>

definition flags_ok :: "'e pair_flags \<Rightarrow> bool" where
  "flags_ok fl \<longleftrightarrow>
     \<not> (primary_fn_aborted fl \<and> secondary_fn_aborted fl) \<and>
     ((primary_fn_aborted fl \<or> secondary_fn_aborted fl) \<longrightarrow> last_abort_err fl \<noteq> None)"

lemma flags_ok_init [simp]: "flags_ok pair_flags_init"
  by (simp add: flags_ok_def pair_flags_init_def)

text \<open>Everything one step can do, from flags that are in order.\<close>

lemma first_step_cases:
  assumes "flags_ok fl" "first_step A wait f d fl s = (control, s', tr)"
  shows "(primary_fn_aborted fl \<and> control = Continue fl \<and> tr = []) \<or>
    (\<not> primary_fn_aborted fl \<and> (\<exists>t w. control = Return (Returned (Inr t)) \<and> tr = [Slept w, CalledFirst (Inr t)])) \<or>
    (\<not> primary_fn_aborted fl \<and> secondary_fn_aborted fl \<and> (\<exists>e w. abortable A e \<and>
       control = Return (Returned (Inl (Aborted e))) \<and> tr = [Slept w, CalledFirst (Inl e)])) \<or>
    (\<not> primary_fn_aborted fl \<and> \<not> secondary_fn_aborted fl \<and> (\<exists>e w fl'. abortable A e \<and> control = Continue fl' \<and>
       primary_fn_aborted fl' \<and> \<not> secondary_fn_aborted fl' \<and> last_abort_err fl' = Some e \<and> tr = [Slept w, CalledFirst (Inl e)])) \<or>
    (\<not> primary_fn_aborted fl \<and> (\<exists>e w fl'. \<not> abortable A e \<and> control = Continue fl' \<and> \<not> primary_fn_aborted fl' \<and>
       secondary_fn_aborted fl' = secondary_fn_aborted fl \<and> last_abort_err fl' = last_abort_err fl \<and>
       tr = [Slept w, CalledFirst (Inl e)]))"
  using assms
  by (cases "f s"; cases "fst (f s)")
    (auto simp: first_step_def Let_def return_aborted_def flags_ok_def split: if_splits)

lemma second_step_cases:
  assumes "flags_ok fl" "second_step A wait f d fl s = (control, s', tr)"
  shows "(secondary_fn_aborted fl \<and> control = Continue fl \<and> tr = []) \<or>
    (\<not> secondary_fn_aborted fl \<and> (\<exists>t w. control = Return (Returned (Inr t)) \<and> tr = [Slept w, CalledSecond (Inr t)])) \<or>
    (\<not> secondary_fn_aborted fl \<and> primary_fn_aborted fl \<and> (\<exists>e w. abortable A e \<and>
       control = Return (Returned (Inl (Aborted e))) \<and> tr = [Slept w, CalledSecond (Inl e)])) \<or>
    (\<not> secondary_fn_aborted fl \<and> \<not> primary_fn_aborted fl \<and> (\<exists>e w fl'. abortable A e \<and> control = Continue fl' \<and>
       secondary_fn_aborted fl' \<and> \<not> primary_fn_aborted fl' \<and> last_abort_err fl' = Some e \<and> tr = [Slept w, CalledSecond (Inl e)])) \<or>
    (\<not> secondary_fn_aborted fl \<and> (\<exists>e w fl'. \<not> abortable A e \<and> control = Continue fl' \<and> \<not> secondary_fn_aborted fl' \<and>
       primary_fn_aborted fl' = primary_fn_aborted fl \<and> last_abort_err fl' = last_abort_err fl \<and>
       tr = [Slept w, CalledSecond (Inl e)]))"
  using assms
  by (cases "f s"; cases "fst (f s)")
    (auto simp: second_step_def Let_def return_aborted_def flags_ok_def split: if_splits)

text \<open>The two paths are symmetric: one statement for both, by the path taken.\<close>

fun other_path :: "alternation_step \<Rightarrow> alternation_step" where
  "other_path First = Second"
| "other_path Second = First"

fun path_aborted :: "alternation_step \<Rightarrow> 'e pair_flags \<Rightarrow> bool" where
  "path_aborted First fl = primary_fn_aborted fl"
| "path_aborted Second fl = secondary_fn_aborted fl"

fun called :: "alternation_step \<Rightarrow> 'e + 't \<Rightarrow> ('e, 't) retry_event" where
  "called First r = CalledFirst r"
| "called Second r = CalledSecond r"

fun call_of :: "('e, 't) retry_event \<Rightarrow> (alternation_step \<times> ('e + 't)) option" where
  "call_of (Slept d) = None"
| "call_of (CalledFirst r) = Some (First, r)"
| "call_of (CalledSecond r) = Some (Second, r)"

lemma other_path_simps [simp]: "other_path (other_path p) = p" "other_path p \<noteq> p" "p \<noteq> other_path p"
  by (cases p; simp)+

lemma path_cases: "q = p \<or> q = other_path p"
  by (cases p; cases q; simp)

lemma called_simps [simp]:
  "called p r = called q r' \<longleftrightarrow> p = q \<and> r = r'" "called p r \<noteq> Slept d" "Slept d \<noteq> called p r"
  "call_of (called p r) = Some (p, r)"
  by (cases p; cases q; simp)+

lemma pair_step_cases:
  assumes "flags_ok fl" "pair_step A wait f1 f2 it fl s = (control, s', tr)"
  defines "p \<equiv> alteration_step it"
  obtains (skip) "path_aborted p fl" "control = Continue fl" "tr = []"
  | (ok) t w where "\<not> path_aborted p fl" "control = Return (Returned (Inr t))"
      "tr = [Slept w, called p (Inr t)]"
  | (both) e w where "\<not> path_aborted p fl" "path_aborted (other_path p) fl" "abortable A e"
      "control = Return (Returned (Inl (Aborted e)))" "tr = [Slept w, called p (Inl e)]"
  | (abort) e w fl' where "\<not> path_aborted p fl" "abortable A e" "control = Continue fl'"
      "flags_ok fl'" "path_aborted p fl'" "tr = [Slept w, called p (Inl e)]"
      "path_aborted (other_path p) fl' = path_aborted (other_path p) fl"
  | (retry) e w fl' where "\<not> path_aborted p fl" "\<not> abortable A e" "control = Continue fl'"
      "flags_ok fl'" "\<not> path_aborted p fl'" "tr = [Slept w, called p (Inl e)]"
      "path_aborted (other_path p) fl' = path_aborted (other_path p) fl"
proof (cases "alteration_step it")
  case First
  with assms(2) have "first_step A wait f1 (it_duration it) fl s = (control, s', tr)"
    by (simp add: pair_step_def)
  from first_step_cases [OF assms(1) this] show ?thesis
    using First assms(1) that unfolding p_def flags_ok_def by (elim disjE exE conjE) simp_all
next
  case Second
  with assms(2) have "second_step A wait f2 (it_duration it) fl s = (control, s', tr)"
    by (simp add: pair_step_def)
  from second_step_cases [OF assms(1) this] show ?thesis
    using Second assms(1) that unfolding p_def flags_ok_def by (elim disjE exE conjE) simp_all
qed

text \<open>What a whole run establishes, as one induction over the iterations.\<close>

definition calls_on :: "alternation_step \<Rightarrow> ('e, 't) retry_event list \<Rightarrow> ('e + 't) list" where
  "calls_on p tr = [r. Some (q, r) \<leftarrow> map call_of tr, q = p]"

lemma calls_on_simps [simp]:
  "calls_on p [] = []"
  "calls_on p (Slept d # tr) = calls_on p tr"
  "calls_on p (called q r # tr) = (if q = p then r # calls_on p tr else calls_on p tr)"
  "calls_on p (xs @ ys) = calls_on p xs @ calls_on p ys"
  by (auto simp: calls_on_def)

text \<open>
  What one path has been through, from flags \<open>fl\<close>: it is still open (no call of it was a
  success or abortable), closed (its last call was abortable, or it was aborted before and was
  not called again), or it won (its last call was the success).
\<close>

datatype 't path_status = Open | Closed | Won 't

definition undecided :: "'e abortable_dict \<Rightarrow> ('e + 't) list \<Rightarrow> bool" where
  "undecided A rs \<longleftrightarrow> list_all (\<lambda>r. \<not> decisive A r) rs"

definition gave_up :: "'e abortable_dict \<Rightarrow> ('e + 't) list \<Rightarrow> bool" where
  "gave_up A rs \<longleftrightarrow> rs \<noteq> [] \<and> undecided A (butlast rs) \<and>
     (case last rs of Inl e \<Rightarrow> abortable A e | Inr _ \<Rightarrow> False)"

fun has_status ::
  "'e abortable_dict \<Rightarrow> bool \<Rightarrow> ('e + 't) list \<Rightarrow> 't path_status \<Rightarrow> bool" where
  "has_status A aborted rs Open = (\<not> aborted \<and> undecided A rs)"
| "has_status A aborted rs Closed = (if aborted then rs = [] else gave_up A rs)"
| "has_status A aborted rs (Won t) =
     (\<not> aborted \<and> rs \<noteq> [] \<and> undecided A (butlast rs) \<and> last rs = Inr t)"

fun pair_result_ok ::
  "'e abortable_dict \<Rightarrow> 'e pair_flags \<Rightarrow> ('e, 't) pair_outcome \<Rightarrow> ('e, 't) retry_event list \<Rightarrow> bool" where
  "pair_result_ok A fl Panicked tr = False"
| "pair_result_ok A fl (Returned (Inr t)) tr =
     (\<exists>p. has_status A (path_aborted p fl) (calls_on p tr) (Won t) \<and>
        tr \<noteq> [] \<and> last tr = called p (Inr t) \<and>
        (\<exists>st \<in> {Open, Closed}. has_status A (path_aborted (other_path p) fl) (calls_on (other_path p) tr) st))"
| "pair_result_ok A fl (Returned (Inl (Aborted e))) tr =
     (\<exists>p. has_status A (path_aborted p fl) (calls_on p tr) Closed \<and>
        tr \<noteq> [] \<and> last tr = called p (Inl e) \<and>
        has_status A (path_aborted (other_path p) fl) (calls_on (other_path p) tr) Closed)"
| "pair_result_ok A fl (Returned (Inl MaxAttempts)) tr =
     (\<exists>p. has_status A (path_aborted p fl) (calls_on p tr) Open \<and>
        (\<exists>st \<in> {Open, Closed}. has_status A (path_aborted (other_path p) fl) (calls_on (other_path p) tr) st))"

lemma undecided_simps [simp]:
  "undecided A []" "undecided A (r # rs) \<longleftrightarrow> \<not> decisive A r \<and> undecided A rs"
  by (auto simp: undecided_def)

lemma gave_up_Cons [simp]:
  "gave_up A (Inl e # rs) \<longleftrightarrow> abortable A e \<and> rs = [] \<or> \<not> abortable A e \<and> gave_up A rs"
  by (auto simp: gave_up_def)

lemma gave_up_Nil [simp]: "\<not> gave_up A []"
  by (simp add: gave_up_def)

lemma has_status_retried:
  "\<not> abortable A e \<Longrightarrow> has_status A False rs st \<Longrightarrow> has_status A False (Inl e # rs) st"
  by (cases st) auto

lemma has_status_aborts:
  "abortable A e \<Longrightarrow> has_status A True rs st \<Longrightarrow> has_status A False (Inl e # rs) st"
  by (cases st) auto

text \<open>A step that continues carries every status of the rest of the run to the whole run.\<close>

lemma pair_step_continue:
  assumes "flags_ok fl" "pair_step A wait f1 f2 it fl s = (Continue fl', s', tr)"
  shows "flags_ok fl' \<and>
    (has_status A (path_aborted q fl') rs st \<longrightarrow>
       has_status A (path_aborted q fl) (calls_on q tr @ rs) st)"
  using assms
proof (cases rule: pair_step_cases)
  case (abort e w fl2)
  have "q = alteration_step it \<or> q = other_path (alteration_step it)" by (rule path_cases)
  then show ?thesis
  proof
    assume "q = alteration_step it"
    with abort show ?thesis using has_status_aborts [of A e rs st] by (simp del: has_status.simps)
  next
    assume "q = other_path (alteration_step it)"
    with abort show ?thesis by (simp del: has_status.simps)
  qed
next
  case (retry e w fl2)
  have "q = alteration_step it \<or> q = other_path (alteration_step it)" by (rule path_cases)
  then show ?thesis
  proof
    assume "q = alteration_step it"
    with retry show ?thesis using has_status_retried [of A e rs st] by (simp del: has_status.simps)
  next
    assume "q = other_path (alteration_step it)"
    with retry show ?thesis by (simp del: has_status.simps)
  qed
qed (use assms in auto)

lemma pair_step_return:
  assumes "flags_ok fl" "pair_step A wait f1 f2 it fl s = (Return out, s', tr)"
  shows "pair_result_ok A fl out tr"
  using assms
proof (cases rule: pair_step_cases)
  case (ok t w)
  have "\<exists>st \<in> {Open, Closed}. has_status A (path_aborted (other_path (alteration_step it)) fl) ([] :: ('a + 'b) list) st"
    by (cases "path_aborted (other_path (alteration_step it)) fl") auto
  with ok show ?thesis
    by (auto intro!: exI [of _ "alteration_step it"])
next
  case (both e w)
  then show ?thesis
    by (auto intro!: exI [of _ "alteration_step it"])
qed auto

lemma pair_result_ok_carry:
  assumes ok: "pair_result_ok A fl' out tr'"
    and carry: "\<And>q rs st. has_status A (path_aborted q fl') rs st \<Longrightarrow>
           has_status A (path_aborted q fl) (calls_on q tr @ rs) st"
  shows "pair_result_ok A fl out (tr @ tr')"
proof -
  have carry': "has_status A (path_aborted q fl) (calls_on q (tr @ tr')) st"
    if "has_status A (path_aborted q fl') (calls_on q tr') st" for q st
    using carry [OF that] by simp
  show ?thesis
  proof (cases out)
    case (Returned r)
    show ?thesis
    proof (cases r)
      case (Inr t)
      from ok obtain p st where "has_status A (path_aborted p fl') (calls_on p tr') (Won t)"
        "tr' \<noteq> []" "last tr' = called p (Inr t)" "st \<in> {Open, Closed}"
        "has_status A (path_aborted (other_path p) fl') (calls_on (other_path p) tr') st"
        unfolding Returned Inr pair_result_ok.simps by blast
      then show ?thesis
        unfolding Returned Inr pair_result_ok.simps
        by (intro exI [of _ p] conjI bexI [of _ st] carry') simp_all
    next
      case (Inl err)
      show ?thesis
      proof (cases err)
        case (Aborted e)
        from ok obtain p where "has_status A (path_aborted p fl') (calls_on p tr') Closed"
          "tr' \<noteq> []" "last tr' = called p (Inl e)"
          "has_status A (path_aborted (other_path p) fl') (calls_on (other_path p) tr') Closed"
          unfolding Returned Inl Aborted pair_result_ok.simps by blast
        then show ?thesis
          unfolding Returned Inl Aborted pair_result_ok.simps
          by (intro exI [of _ p] conjI carry') simp_all
      next
        case MaxAttempts
        from ok obtain p st where "has_status A (path_aborted p fl') (calls_on p tr') Open"
          "st \<in> {Open, Closed}"
          "has_status A (path_aborted (other_path p) fl') (calls_on (other_path p) tr') st"
          unfolding Returned Inl MaxAttempts pair_result_ok.simps by blast
        then show ?thesis
          unfolding Returned Inl MaxAttempts pair_result_ok.simps
          by (intro exI [of _ p] conjI bexI [of _ st] carry')
      qed
    qed
  next
    case Panicked
    with ok show ?thesis by simp
  qed
qed

lemma retry_pair_loop_ok:
  "flags_ok fl \<Longrightarrow> retry_pair_loop A wait f1 f2 its fl s = (out, s', tr) \<Longrightarrow>
     pair_result_ok A fl out tr"
proof (induction its arbitrary: fl s s' tr)
  case Nil
  then have "out = Returned (Inl MaxAttempts)" "tr = []" by auto
  with Nil.prems(1) show ?case
    by (cases "primary_fn_aborted fl")
      (auto simp: flags_ok_def intro: exI [of _ First] exI [of _ Second])
next
  case (Cons it its)
  obtain control s1 tr1 where step: "pair_step A wait f1 f2 it fl s = (control, s1, tr1)"
    by (metis prod_cases3)
  show ?case
  proof (cases control)
    case (Return out1)
    with step Cons.prems pair_step_return [of fl A wait f1 f2 it s out1 s1 tr1] show ?thesis
      by simp
  next
    case (Continue fl1)
    with step have step': "pair_step A wait f1 f2 it fl s = (Continue fl1, s1, tr1)" by simp
    note carried = pair_step_continue [OF Cons.prems(1) step']
    from Cons.prems(2) step' obtain tr2 where
      rest: "retry_pair_loop A wait f1 f2 its fl1 s1 = (out, s', tr2)" "tr = tr1 @ tr2"
      by (auto simp: Let_def split: prod.splits)
    show ?thesis
      using pair_result_ok_carry [OF Cons.IH [OF _ rest(1)]] carried rest(2) by blast
  qed
qed

text \<open>A path is called at most once per iteration that is its turn.\<close>

lemma pair_step_calls:
  assumes "flags_ok fl" "pair_step A wait f1 f2 it fl s = (control, s', tr)"
  shows "length (calls_on p tr) \<le> (if alteration_step it = p then 1 else 0)"
  using assms by (cases rule: pair_step_cases) auto

lemma retry_pair_loop_calls:
  "flags_ok fl \<Longrightarrow> retry_pair_loop A wait f1 f2 its fl s = (out, s', tr) \<Longrightarrow>
     length (calls_on p tr) \<le> length (filter (\<lambda>it. alteration_step it = p) its)"
proof (induction its arbitrary: fl s s' tr)
  case (Cons it its)
  obtain control s1 tr1 where step: "pair_step A wait f1 f2 it fl s = (control, s1, tr1)"
    by (metis prod_cases3)
  note here = pair_step_calls [OF Cons.prems(1) step, of p]
  show ?case
  proof (cases control)
    case (Return out1)
    with step Cons.prems here show ?thesis by (auto split: if_splits)
  next
    case (Continue fl1)
    with step have step': "pair_step A wait f1 f2 it fl s = (Continue fl1, s1, tr1)" by simp
    from Cons.prems(2) step' obtain tr2 where
      rest: "retry_pair_loop A wait f1 f2 its fl1 s1 = (out, s', tr2)" "tr = tr1 @ tr2"
      by (auto simp: Let_def split: prod.splits)
    have "length (calls_on p tr2) \<le> length (filter (\<lambda>it. alteration_step it = p) its)"
      using Cons.IH rest(1) pair_step_continue [OF Cons.prems(1) step'] by blast
    with here rest(2) show ?thesis by (auto split: if_splits)
  qed
qed simp

lemma filter_steps:
  "length (filter (\<lambda>it. alteration_step it = p) its) =
     length (filter (\<lambda>st. st = p) (map alteration_step its))"
  by (simp add: filter_map comp_def)

lemma steps_of_pair:
  "map alteration_step (backoff_pair_take muls n (backoff_pair_of p)) = map (alternating First) [0..<n]"
  by (simp add: take_steps backoff_pair_of_def backoff_pair_new_def)

lemma count_path:
  "length (filter (\<lambda>it. alteration_step it = q) (backoff_pair_take muls n (backoff_pair_of p))) =
     (case q of First \<Rightarrow> (n + 1) div 2 | Second \<Rightarrow> n div 2)"
proof -
  have *: "length (filter (\<lambda>k. alternating First k = Second) [0..<n]) = n div 2"
    by (induction n) (auto simp: alternating_def)
  have "length (filter (\<lambda>it. alteration_step it = q) (backoff_pair_take muls n (backoff_pair_of p))) =
     length (filter (\<lambda>k. alternating First k = q) [0..<n])"
    by (simp add: filter_steps steps_of_pair filter_map comp_def)
  then show ?thesis
    using * count_first_alternating by (cases q) simp_all
qed

subsection \<open>Properties\<close>

text \<open>C25: \<open>RetryFn::retry\<close> returns what the attempts decide: the first success, or
  \<open>Aborted\<close> with the first abortable error, whichever comes first among the first
  \<open>max_attempts\<close> calls of the function, and \<open>MaxAttempts\<close> when neither occurs.\<close>

theorem retry_returns_verdict:
  "fst (retry_fn_retry A R s) = verdict A (outcomes (rf_function R) (rf_max_attempts R) s)"
  by (simp add: retry_fn_retry_def retry_loop_verdict)

text \<open>C26: the run of \<open>RetryFn::retry\<close>: before the \<open>k\<close>-th call it sleeps the \<open>k\<close>-th delay of the
  backoff, after a rate-limited (and not abortable) failure it sleeps the rate-limit wait as
  well, it makes no call after the deciding one, and never more than \<open>max_attempts\<close> calls.\<close>

theorem retry_trace:
  "snd (snd (retry_fn_retry A R s)) =
     concat (map (attempt_events A (rf_rate_limit_wait R))
       (zip (map (rf_backoff R) [0..<rf_max_attempts R])
          (attempted A (outcomes (rf_function R) (rf_max_attempts R) s)))) \<and>
   length (filter is_call (snd (snd (retry_fn_retry A R s)))) \<le> rf_max_attempts R"
  by (simp add: retry_fn_retry_def retry_loop_trace calls_of_attempts)

text \<open>C27: \<open>RetryPairFn::retry\<close> never reaches its \<open>expect("abort error")\<close> with no error
  recorded, and its result is justified by the calls made: a success is the last call made, an
  abort means that both functions failed with an abortable error and the later of the two is
  returned, exhaustion means that at least one path never did; and no function is called again
  after it succeeded or failed with an abortable error.\<close>

theorem retry_pair_result_justified:
  "case retry_pair_fn_retry A muls R s of
     (out, s', trace) \<Rightarrow> out \<noteq> Panicked \<and> pair_result_ok A pair_flags_init out trace"
proof -
  obtain out s' tr where run: "retry_pair_fn_retry A muls R s = (out, s', tr)"
    by (metis prod_cases3)
  then have "pair_result_ok A pair_flags_init out tr"
    unfolding retry_pair_fn_retry_def by (intro retry_pair_loop_ok) auto
  then show ?thesis
    using run by (auto simp del: pair_result_ok.simps(2-4))
qed

text \<open>C28: the two functions share the attempts: a run of a pair built by the \<open>Builder\<close> with
  \<open>n\<close> attempts calls the first function at most \<open>(n + 1) / 2\<close> times and the second at most
  \<open>n / 2\<close> times (so at most \<open>n\<close> calls in all), whatever the errors are.\<close>

theorem retry_pair_call_budget:
  "case retry_pair_fn_retry A muls ((with_retry_pair p f1 f2)\<lparr>rp_max_attempts := n\<rparr>) s of
     (out, s', trace) \<Rightarrow>
       length (calls_on First trace) \<le> (n + 1) div 2 \<and> length (calls_on Second trace) \<le> n div 2"
proof -
  let ?R = "(with_retry_pair p f1 f2)\<lparr>rp_max_attempts := n\<rparr>"
  obtain out s' tr where run: "retry_pair_fn_retry A muls ?R s = (out, s', tr)"
    by (metis prod_cases3)
  then have "length (calls_on q tr) \<le>
      length (filter (\<lambda>it. alteration_step it = q) (backoff_pair_take muls n (backoff_pair_of p)))" for q
    unfolding retry_pair_fn_retry_def with_retry_pair_def retry_pair_fn_new_def
    by (intro retry_pair_loop_calls) auto
  from this [of First] this [of Second] show ?thesis
    using run by (simp add: count_path)
qed

end
