(* ===== verification/Rust_Text.thy ===== *)
theory Rust_Text
  imports Prelude
begin

text \<open>
  The text operations of Rust's standard library that the source uses: printing an
  integer in decimal (\<open>to_string\<close>), parsing it back (\<open>str::parse\<close>, with
  \<open>core::num::ParseIntError\<close>'s kinds), \<open>rsplit_once\<close>, \<open>lines\<close>, \<open>join\<close> and
  \<open>writeln!\<close>.  Strings are lists of bytes.
\<close>

named_theorems text_simps \<open>evaluation of the text operations\<close>

subsection \<open>Decimal digits\<close>

definition digit_char :: "nat \<Rightarrow> char" where
  "digit_char d = char_of (48 + d)"

definition to_digit :: "char \<Rightarrow> nat option" where
  "to_digit c = (let n = of_char c :: nat in if 48 \<le> n \<and> n \<le> 57 then Some (n - 48) else None)"

lemma to_digit_digit_char [simp]: "d < 10 \<Longrightarrow> to_digit (digit_char d) = Some d"
  by (simp add: to_digit_def digit_char_def)

lemma to_digit_less: "to_digit c = Some d \<Longrightarrow> d < 10"
  by (auto simp: to_digit_def Let_def split: if_splits)

fun dec_nat :: "nat \<Rightarrow> string" where
  "dec_nat n = (if n < 10 then [digit_char n] else dec_nat (n div 10) @ [digit_char (n mod 10)])"

declare dec_nat.simps [simp del]

lemma dec_nat_small: "n < 10 \<Longrightarrow> dec_nat n = [digit_char n]"
  by (subst dec_nat.simps) simp

lemma dec_nat_big: "\<not> n < 10 \<Longrightarrow> dec_nat n = dec_nat (n div 10) @ [digit_char (n mod 10)]"
  by (subst dec_nat.simps) simp

lemma dec_nat_nonempty [simp]: "dec_nat n \<noteq> []"
  by (subst dec_nat.simps) simp

lemma dec_nat_digits: "c \<in> set (dec_nat n) \<Longrightarrow> to_digit c \<noteq> None"
proof (induction n rule: dec_nat.induct)
  case (1 n)
  then show ?case
    by (cases "n < 10") (auto simp: dec_nat_small dec_nat_big)
qed

lemma dec_nat_no_minus [simp]: "CHR ''-'' \<notin> set (dec_nat n)"
  using dec_nat_digits [of "CHR ''-''" n] by (auto simp: to_digit_def)

lemma dec_nat_no_plus [simp]: "CHR ''+'' \<notin> set (dec_nat n)"
  using dec_nat_digits [of "CHR ''+''" n] by (auto simp: to_digit_def)

definition dec_int :: "int \<Rightarrow> string" where
  "dec_int i = (if i < 0 then CHR ''-'' # dec_nat (nat (- i)) else dec_nat (nat i))"

subsection \<open>Parsing integers\<close>

datatype parse_int_error = Empty | InvalidDigit | PosOverflow | NegOverflow

text \<open>
  \<open>from_str_radix(_, 10)\<close>: an empty text is \<open>Empty\<close>, a lone sign is \<open>InvalidDigit\<close>, a
  leading \<open>+\<close> is skipped, a leading \<open>-\<close> only for signed types; then one checked
  multiplication and one checked addition (subtraction for a negative number) per
  digit, the digit being looked at before the multiplication's overflow is reported.
\<close>

fun parse_digits :: "int \<Rightarrow> int \<Rightarrow> parse_int_error \<Rightarrow> int \<Rightarrow> int \<Rightarrow> string \<Rightarrow> parse_int_error + int" where
  "parse_digits lo hi ovf sg acc [] = Inr acc"
| "parse_digits lo hi ovf sg acc (c # cs) =
     (case to_digit c of
        None \<Rightarrow> Inl InvalidDigit
      | Some d \<Rightarrow>
          if acc * 10 < lo \<or> hi < acc * 10 then Inl ovf
          else if acc * 10 + sg * int d < lo \<or> hi < acc * 10 + sg * int d then Inl ovf
          else parse_digits lo hi ovf sg (acc * 10 + sg * int d) cs)"

fun parse_int :: "bool \<Rightarrow> int \<Rightarrow> int \<Rightarrow> string \<Rightarrow> parse_int_error + int" where
  "parse_int sig lo hi [] = Inl Empty"
| "parse_int sig lo hi (c # cs) =
     (if (c = CHR ''+'' \<or> c = CHR ''-'') \<and> cs = [] then Inl InvalidDigit
      else if c = CHR ''+'' then parse_digits lo hi PosOverflow 1 0 cs
      else if c = CHR ''-'' \<and> sig then parse_digits lo hi NegOverflow (- 1) 0 cs
      else parse_digits lo hi PosOverflow 1 0 (c # cs))"

definition parse_usize :: "string \<Rightarrow> parse_int_error + u64" where
  "parse_usize s = res_bind (parse_int False 0 (2 ^ 64 - 1) s) (\<lambda>i. Inr (word_of_int i))"

definition parse_u64 :: "string \<Rightarrow> parse_int_error + u64" where
  "parse_u64 s = res_bind (parse_int False 0 (2 ^ 64 - 1) s) (\<lambda>i. Inr (word_of_int i))"

definition parse_i128 :: "string \<Rightarrow> parse_int_error + i128" where
  "parse_i128 s =
     res_bind (parse_int True (- (2 ^ 127)) (2 ^ 127 - 1) s) (\<lambda>i. Inr (word_of_int i))"

lemma parse_digits_append:
  "parse_digits lo hi ovf sg acc (xs @ ys) =
     res_bind (parse_digits lo hi ovf sg acc xs) (\<lambda>a. parse_digits lo hi ovf sg a ys)"
  by (induction xs arbitrary: acc) (auto split: option.splits)

text \<open>Digits of a number in range parse back to it, with either sign.\<close>

lemma parse_digits_dec_nat:
  assumes "lo \<le> 0" "0 \<le> hi" "sg = 1 \<or> sg = - 1"
    and "lo \<le> sg * int n" "sg * int n \<le> hi"
  shows "parse_digits lo hi ovf sg 0 (dec_nat n) = Inr (sg * int n)"
  using assms(4,5)
proof (induction n rule: dec_nat.induct)
  case (1 n)
  show ?case
  proof (cases "n < 10")
    case True
    with "1.prems" assms(1,2) show ?thesis by (simp add: dec_nat_small)
  next
    case False
    let ?q = "n div 10" and ?r = "n mod 10"
    have "int n = int (?q * 10 + ?r)" by (simp only: div_mult_mod_eq)
    then have n: "int n = int ?q * 10 + int ?r" by (simp only: of_nat_add of_nat_mult of_nat_numeral)
    have mono: "0 \<le> int ?q" "int ?q * 10 \<le> int n" by simp_all
    have q: "lo \<le> sg * int ?q" "sg * int ?q \<le> hi"
        "lo \<le> sg * int ?q * 10" "sg * int ?q * 10 \<le> hi"
      using assms(1,2,3) "1.prems" mono by auto
    have val: "sg * int ?q * 10 + sg * int ?r = sg * int n"
      by (subst n) (simp add: algebra_simps)
    have "parse_digits lo hi ovf sg 0 (dec_nat ?q) = Inr (sg * int ?q)"
      by (rule "1.IH" [OF False q(1,2)])
    then have "parse_digits lo hi ovf sg 0 (dec_nat n) =
        parse_digits lo hi ovf sg (sg * int ?q) [digit_char ?r]"
      by (simp add: dec_nat_big [OF False] parse_digits_append)
    also have "\<dots> = Inr (sg * int n)"
      using q(3,4) "1.prems" val by (simp add: not_less)
    finally show ?thesis .
  qed
qed

lemma parse_int_dec_nat:
  assumes "lo \<le> 0" "int n \<le> hi"
  shows "parse_int sig lo hi (dec_nat n) = Inr (int n)"
proof -
  obtain c cs where dn: "dec_nat n = c # cs"
    using dec_nat_nonempty [of n] by (cases "dec_nat n") auto
  then have "c \<noteq> CHR ''+''" "c \<noteq> CHR ''-''"
    using dec_nat_no_plus [of n] dec_nat_no_minus [of n] by auto
  then show ?thesis
    using parse_digits_dec_nat [of lo hi 1 n PosOverflow] assms dn by auto
qed

lemma parse_int_dec_int:
  assumes "lo \<le> i" "i \<le> hi" "lo \<le> 0" "0 \<le> hi"
  shows "parse_int True lo hi (dec_int i) = Inr i"
proof (cases "i < 0")
  case True
  then show ?thesis
    using parse_digits_dec_nat [of lo hi "- 1" "nat (- i)" NegOverflow] assms
    by (simp add: dec_int_def)
next
  case False
  then show ?thesis
    using parse_int_dec_nat [of lo "nat i" hi True] assms by (simp add: dec_int_def)
qed

lemma parse_usize_dec [simp]: "parse_usize (dec_nat (unat w)) = Inr w"
proof -
  have "int (unat w) \<le> 2 ^ 64 - 1"
    using uint_bounded [of w] by simp
  then have "parse_int False 0 (2 ^ 64 - 1) (dec_nat (unat w)) = Inr (int (unat w))"
    by (intro parse_int_dec_nat) simp_all
  then show ?thesis by (simp add: parse_usize_def)
qed

lemma parse_i128_dec [simp]: "parse_i128 (dec_int (sint w)) = Inr w"
proof -
  have "- (2 ^ 127) \<le> sint w" "sint w \<le> 2 ^ 127 - 1"
    using sint_in_range [of w] by simp_all
  then show ?thesis
    using parse_int_dec_int [of "- (2 ^ 127)" "sint w" "2 ^ 127 - 1"]
    by (simp add: parse_i128_def)
qed

subsection \<open>Splitting and lines\<close>

text \<open>\<open>s.rsplit_once(c)\<close>: the parts before and after the last \<open>c\<close>.\<close>

fun rsplit_once :: "char \<Rightarrow> string \<Rightarrow> (string \<times> string) option" where
  "rsplit_once c [] = None"
| "rsplit_once c (x # xs) =
     (case rsplit_once c xs of
        Some (l, r) \<Rightarrow> Some (x # l, r)
      | None \<Rightarrow> if x = c then Some ([], xs) else None)"

lemma rsplit_once_eq_None: "rsplit_once c s = None \<longleftrightarrow> c \<notin> set s"
  by (induction s) (auto split: option.splits)

lemma rsplit_once_eq_Some:
  "rsplit_once c s = Some (l, r) \<longleftrightarrow> s = l @ c # r \<and> c \<notin> set r"
proof (induction s arbitrary: l r)
  case Nil
  then show ?case by simp
next
  case (Cons x xs)
  show ?case
  proof (cases "rsplit_once c xs")
    case None
    then have "c \<notin> set xs" by (simp add: rsplit_once_eq_None)
    with None show ?thesis by (cases l) auto
  next
    case (Some p)
    obtain l' r' where p: "p = (l', r')" by force
    with Some have xs: "xs = l' @ c # r'" "c \<notin> set r'"
      using Cons.IH [of l' r'] by simp_all
    show ?thesis
    proof (cases l)
      case Nil
      with Some p xs show ?thesis by auto
    next
      case (Cons y ys)
      with Some p Cons.IH [of ys r] show ?thesis by auto
    qed
  qed
qed

abbreviation (input) newline :: char where "newline \<equiv> CHR 0x0A"
abbreviation (input) carriage_return :: char where "carriage_return \<equiv> CHR 0x0D"

definition strip_cr :: "string \<Rightarrow> string" where
  "strip_cr l = (if l \<noteq> [] \<and> last l = carriage_return then butlast l else l)"

text \<open>\<open>s.lines()\<close>: the lines without their line feeds, and without a carriage return before one.\<close>

function lines :: "string \<Rightarrow> string list" where
  "lines s =
     (if s = [] then []
      else if newline \<in> set s
      then strip_cr (takeWhile (\<lambda>c. c \<noteq> newline) s) # lines (tl (dropWhile (\<lambda>c. c \<noteq> newline) s))
      else [s])"
  by pat_completeness auto
termination
proof (relation "measure length")
  fix s :: string
  assume "\<not> s = []"
  moreover have "length (dropWhile (\<lambda>c. c \<noteq> newline) s) \<le> length s"
    by (rule length_dropWhile_le)
  ultimately show "(tl (dropWhile (\<lambda>c. c \<noteq> newline) s), s) \<in> measure length"
    by (cases s) (auto intro: le_less_trans diff_less)
qed simp

declare lines.simps [simp del]

lemma lines_Nil [simp]: "lines [] = []"
  by (simp add: lines.simps)

lemma lines_append_newline:
  "newline \<notin> set l \<Longrightarrow> lines (l @ newline # s) = strip_cr l # lines s"
proof -
  assume l: "newline \<notin> set l"
  have "takeWhile (\<lambda>c. c \<noteq> newline) (l @ newline # s) = l"
    using l by (induction l) auto
  moreover have "dropWhile (\<lambda>c. c \<noteq> newline) (l @ newline # s) = newline # s"
    using l by (induction l) auto
  ultimately show ?thesis
    by (subst lines.simps) simp
qed

lemma lines_no_newline: "newline \<notin> set l \<Longrightarrow> l \<noteq> [] \<Longrightarrow> lines l = [l]"
  by (subst lines.simps) simp

lemma strip_cr_id: "carriage_return \<notin> set l \<Longrightarrow> strip_cr l = l"
  by (auto simp: strip_cr_def dest: last_in_set)

text \<open>\<open>writeln!(f, "{l}")\<close> for one line, and for every line of a text.\<close>

definition writeln :: "string \<Rightarrow> string" where
  "writeln l = l @ [newline]"

definition writeln_lines :: "string \<Rightarrow> string" where
  "writeln_lines s = concat (map writeln (lines s))"

fun join_str :: "string \<Rightarrow> string list \<Rightarrow> string" where
  "join_str sep [] = []"
| "join_str sep [l] = l"
| "join_str sep (l # ls) = l @ sep @ join_str sep ls"

text \<open>A text made of whole lines without carriage returns is unchanged by \<open>writeln_lines\<close>.\<close>

definition clean_line :: "string \<Rightarrow> bool" where
  "clean_line l \<longleftrightarrow> newline \<notin> set l \<and> carriage_return \<notin> set l"

lemma lines_concat_writeln:
  "\<forall>l \<in> set ls. clean_line l \<Longrightarrow> lines (concat (map writeln ls)) = ls"
  by (induction ls) (auto simp: writeln_def lines_append_newline strip_cr_id clean_line_def)

lemma writeln_lines_concat:
  "\<forall>l \<in> set ls. clean_line l \<Longrightarrow>
     writeln_lines (concat (map writeln ls)) = concat (map writeln ls)"
  by (simp add: writeln_lines_def lines_concat_writeln)

end
