(* ===== verification/Api_Types.thy ===== *)
theory Api_Types
  imports Rust_Text
begin

text \<open>
  The data of the Amplifier API (crate \<open>amplifier-api\<close>, \<open>types.rs\<close> and the type of
  \<open>big_int.rs\<close>): identifiers, events, tasks, requests and results, one record or
  datatype per struct or enum, with the identifier operations of \<open>TxEvent\<close> and the
  \<open>QueueMsgId\<close> implementations of \<open>Event\<close> and \<open>TaskItem\<close>.

  A \<open>uuid::Uuid\<close> is its 128 bits.  A \<open>chrono::DateTime<Utc>\<close> is its second count, a
  signed 64-bit integer, and its nanosecond count, an unsigned 32-bit one, ordered in time.
  \<open>usize\<close> is 64 bits wide.
\<close>

subsection \<open>Identifiers\<close>

type_synonym uuid = "128 word"
type_synonym address = string

datatype tx_id = TxId string
datatype token_id = TokenId string
datatype tx_event = TxEvent (tx_event_text: string)
datatype task_item_id = TaskItemId (task_item_uuid: uuid)
datatype command_id = CommandId string
datatype request_id = RequestId string

type_synonym message_id = tx_event
type_synonym event_id = tx_event

datatype tx_event_parse_error = SeparatorNotFound | LogIndexNotNumber parse_int_error

text \<open>\<open>TxEvent::new\<close>: \<open>format!("{tx_hash}-{log_index}")\<close>.\<close>

definition tx_event_new :: "string \<Rightarrow> u64 \<Rightarrow> tx_event" where
  "tx_event_new tx_hash log_index = TxEvent (tx_hash @ ''-'' @ dec_nat (unat log_index))"

text \<open>\<open>TxEvent::hash_and_index\<close>.\<close>

definition hash_and_index :: "tx_event \<Rightarrow> tx_event_parse_error + string \<times> u64" where
  "hash_and_index ev =
     res_bind (ok_or SeparatorNotFound (rsplit_once (CHR ''-'') (tx_event_text ev)))
       (\<lambda>(tx_hash, log_index_str).
          res_bind (map_err LogIndexNotNumber (parse_usize log_index_str))
            (\<lambda>log_index. Inr (tx_hash, log_index)))"

text \<open>The identifiers of two kinds of event; \<open>show_uuid\<close> is the \<open>uuid\<close> crate's \<open>Display\<close>.\<close>

definition cannot_execute_task_event_id :: "(uuid \<Rightarrow> string) \<Rightarrow> task_item_id \<Rightarrow> tx_event" where
  "cannot_execute_task_event_id show_uuid task_item_id =
     TxEvent (''cannot-execute-task-v2-'' @ show_uuid (task_item_uuid task_item_id))"

definition tx_reverted_event_id :: "string \<Rightarrow> tx_event" where
  "tx_reverted_event_id tx_hash = TxEvent (''tx-reverted-'' @ tx_hash)"

definition tx_event_display :: "tx_event \<Rightarrow> string" where
  "tx_event_display ev = tx_event_text ev"

definition task_item_id_display :: "(uuid \<Rightarrow> string) \<Rightarrow> task_item_id \<Rightarrow> string" where
  "task_item_id_display show_uuid t = show_uuid (task_item_uuid t)"

fun request_id_display :: "request_id \<Rightarrow> string" where
  "request_id_display (RequestId s) = s"

subsection \<open>Time\<close>

datatype datetime = DateTime (dt_secs: i64) (dt_nanos: u32)

lemma sint_eq_iff: "sint a = sint b \<longleftrightarrow> a = b"
  by (auto intro: signed_word_eqI)

instantiation datetime :: linorder
begin

definition less_eq_datetime :: "datetime \<Rightarrow> datetime \<Rightarrow> bool" where
  "less_eq_datetime a b \<longleftrightarrow>
     sint (dt_secs a) < sint (dt_secs b) \<or> dt_secs a = dt_secs b \<and> dt_nanos a \<le> dt_nanos b"

definition less_datetime :: "datetime \<Rightarrow> datetime \<Rightarrow> bool" where
  "less_datetime a b \<longleftrightarrow>
     sint (dt_secs a) < sint (dt_secs b) \<or> dt_secs a = dt_secs b \<and> dt_nanos a < dt_nanos b"

instance
  by standard (auto simp: less_eq_datetime_def less_datetime_def sint_eq_iff intro: datetime.expand)

end

subsection \<open>Amounts\<close>

datatype big_int = BigInt (bi_inner: i128)

datatype cannot_execute_message_reason = InsufficientGas | OtherError

datatype message_execution_status = Successful | Reverted

record token =
  tk_token_id :: "token_id option"
  tk_amount :: big_int

subsection \<open>Metadata\<close>

record 'x event_metadata =
  em_tx_id :: "tx_id option"
  em_timestamp :: "datetime option"
  em_from_address :: "address option"
  em_finalized :: "bool option"
  em_extra :: 'x

record call_event_metadata =
  cem_parent_message_id :: "message_id option"

record message_approved_event_metadata =
  mam_command_id :: "command_id option"

record message_executed_event_metadata =
  mem_command_id :: "command_id option"
  mem_child_message_ids :: "message_id list option"

record cannot_execute_message_event_v2_metadata =
  cxm_from_address :: "address option"
  cxm_timestamp :: "datetime option"
  cxm_task_item_id :: task_item_id

record signers_rotated_metadata =
  srm_signer_hash :: bytes
  srm_epoch :: u64

subsection \<open>Events\<close>

record gateway_v2_message =
  gm_message_id :: message_id
  gm_source_chain :: string
  gm_source_address :: address
  gm_destination_address :: address
  gm_payload_hash :: bytes

record 'x event_base =
  eb_event_id :: event_id
  eb_meta :: "'x event_metadata option"

record gas_credit_event =
  gc_base :: "unit event_base"
  gc_message_id :: message_id
  gc_refund_address :: address
  gc_payment :: token

record gas_refunded_event =
  gr_base :: "unit event_base"
  gr_message_id :: message_id
  gr_recipient_address :: address
  gr_refunded_amount :: token
  gr_cost :: token

record call_event =
  ce_base :: "call_event_metadata event_base"
  ce_message :: gateway_v2_message
  ce_destination_chain :: string
  ce_payload :: bytes

record message_approved_event =
  ma_base :: "message_approved_event_metadata event_base"
  ma_message :: gateway_v2_message
  ma_cost :: token

record signers_rotated_event =
  sr_base :: "signers_rotated_metadata event_base"
  sr_cost :: token

record message_executed_event =
  mx_base :: "message_executed_event_metadata event_base"
  mx_message_id :: message_id
  mx_source_chain :: string
  mx_status :: message_execution_status
  mx_cost :: token

record cannot_execute_message_event_v2 =
  cx_base :: "cannot_execute_message_event_v2_metadata event_base"
  cx_message_id :: message_id
  cx_source_chain :: string
  cx_reason :: cannot_execute_message_reason
  cx_details :: string

datatype event =
    GasCredit gas_credit_event
  | GasRefunded gas_refunded_event
  | Call call_event
  | MessageApproved message_approved_event
  | MessageExecuted message_executed_event
  | CannotExecuteMessageV2 cannot_execute_message_event_v2
  | SignersRotated signers_rotated_event

text \<open>\<open>QueueMsgId for Event\<close>.\<close>

fun event_msg_id :: "event \<Rightarrow> tx_event" where
  "event_msg_id (GasCredit ev) = eb_event_id (gc_base ev)"
| "event_msg_id (GasRefunded ev) = eb_event_id (gr_base ev)"
| "event_msg_id (Call ev) = eb_event_id (ce_base ev)"
| "event_msg_id (MessageApproved ev) = eb_event_id (ma_base ev)"
| "event_msg_id (MessageExecuted ev) = eb_event_id (mx_base ev)"
| "event_msg_id (CannotExecuteMessageV2 ev) = eb_event_id (cx_base ev)"
| "event_msg_id (SignersRotated ev) = eb_event_id (sr_base ev)"

subsection \<open>Requests and results\<close>

record publish_events_request =
  pr_events :: "event list"

record publish_event_result_item_base =
  ri_index :: u64

record publish_event_accepted_result =
  ar_base :: publish_event_result_item_base

record publish_event_error_result =
  er_base :: publish_event_result_item_base
  er_error :: string
  er_retriable :: bool

datatype publish_event_result_item =
    Accepted publish_event_accepted_result
  | ResultError publish_event_error_result

record publish_events_result =
  ps_results :: "publish_event_result_item list"

record error_response =
  ep_error :: string
  ep_request_id :: "request_id option"

subsection \<open>Tasks\<close>

record verify_task =
  vt_message :: gateway_v2_message
  vt_payload :: bytes

record construct_proof_task =
  cp_message :: gateway_v2_message
  cp_payload :: bytes

record gateway_transaction_task =
  gt_execute_data :: bytes

record execute_task =
  et_message :: gateway_v2_message
  et_payload :: bytes
  et_available_gas_balance :: token

record refund_task =
  rt_message :: gateway_v2_message
  rt_refund_recipient_address :: address
  rt_remaining_gas_balance :: token

datatype task =
    ConstructProof construct_proof_task
  | Verify verify_task
  | GatewayTx gateway_transaction_task
  | Execute execute_task
  | Refund refund_task

record task_item =
  ti_id :: task_item_id
  ti_timestamp :: datetime
  ti_task :: task

text \<open>\<open>QueueMsgId for TaskItem\<close>, and the task's name in its \<open>Debug\<close> output.\<close>

definition task_msg_id :: "task_item \<Rightarrow> task_item_id" where
  "task_msg_id t = ti_id t"

fun task_type_name :: "task \<Rightarrow> string" where
  "task_type_name (Verify _) = ''Verify''"
| "task_type_name (GatewayTx _) = ''GatewayTx''"
| "task_type_name (Execute _) = ''Execute''"
| "task_type_name (Refund _) = ''Refund''"
| "task_type_name (ConstructProof _) = ''ConstructProof''"

record get_tasks_result =
  gt_tasks :: "task_item list"

subsection \<open>Facts about the identifiers\<close>

lemma hash_and_index_eq_Inr:
  "hash_and_index (TxEvent s) = Inr (h, i) \<longleftrightarrow>
     (\<exists>d. s = h @ ''-'' @ d \<and> CHR ''-'' \<notin> set d \<and> parse_usize d = Inr i)"
  by (auto simp: hash_and_index_def res_bind_eq_Inr rsplit_once_eq_Some)

lemma hash_and_index_eq_Inl:
  "hash_and_index (TxEvent s) = Inl e \<longleftrightarrow>
     CHR ''-'' \<notin> set s \<and> e = SeparatorNotFound \<or>
     (\<exists>h d k. s = h @ ''-'' @ d \<and> CHR ''-'' \<notin> set d \<and> parse_usize d = Inl k \<and>
        e = LogIndexNotNumber k)"
proof (cases "rsplit_once (CHR ''-'') s")
  case None
  then have "hash_and_index (TxEvent s) = Inl SeparatorNotFound"
    by (simp add: hash_and_index_def)
  moreover have "CHR ''-'' \<notin> set s"
    using None by (simp add: rsplit_once_eq_None)
  ultimately show ?thesis by auto
next
  case (Some p)
  obtain h d where p: "p = (h, d)" by force
  with Some have "s = h @ CHR ''-'' # d" "CHR ''-'' \<notin> set d"
    by (simp_all add: rsplit_once_eq_Some)
  moreover have "h' = h \<and> d' = d" if "s = h' @ CHR ''-'' # d'" "CHR ''-'' \<notin> set d'" for h' d'
    using that Some p rsplit_once_eq_Some [of "CHR ''-''" s h' d'] by simp
  moreover have "(hash_and_index (TxEvent s) = Inl e) = (\<exists>k. parse_usize d = Inl k \<and> e = LogIndexNotNumber k)"
    using Some p by (auto simp: hash_and_index_def res_bind_eq_Inl)
  moreover have "CHR ''-'' \<in> set s"
    using Some by (metis rsplit_once_eq_None option.distinct(1))
  ultimately show ?thesis
    by (metis append_Cons append_Nil)
qed

subsection \<open>Properties\<close>

text \<open>C37: the identifier \<open>TxEvent::new\<close> builds from a transaction hash and a log index is
  read back by \<open>hash_and_index\<close> as exactly that hash and index, whatever the hash is (it may
  contain the separator itself).\<close>

theorem tx_event_roundtrip: "hash_and_index (tx_event_new h i) = Inr (h, i)"
  unfolding tx_event_new_def hash_and_index_eq_Inr
  by (intro exI [of _ "dec_nat (unat i)"] conjI) simp_all

text \<open>What \<open>hash_and_index\<close> returns on an arbitrary text: the hash and the index it
  returns are the text before and after the last separator; \<open>SeparatorNotFound\<close> means the
  text has no separator, and \<open>LogIndexNotNumber\<close> carries the reason why the text after the
  last separator is not a \<open>usize\<close>.\<close>

theorem hash_and_index_classified:
  "case hash_and_index ev of
     Inr (h, i) \<Rightarrow> \<exists>d. tx_event_text ev = h @ ''-'' @ d \<and> CHR ''-'' \<notin> set d \<and> parse_usize d = Inr i
   | Inl SeparatorNotFound \<Rightarrow> CHR ''-'' \<notin> set (tx_event_text ev)
   | Inl (LogIndexNotNumber k) \<Rightarrow>
       \<exists>h d. tx_event_text ev = h @ ''-'' @ d \<and> CHR ''-'' \<notin> set d \<and> parse_usize d = Inl k"
proof (cases ev)
  case (TxEvent s)
  show ?thesis
  proof (cases "hash_and_index ev")
    case (Inr p)
    then show ?thesis
      using hash_and_index_eq_Inr [of s "fst p" "snd p"] TxEvent by (cases p) simp
  next
    case (Inl e)
    then show ?thesis
      using hash_and_index_eq_Inl [of s e] TxEvent by (cases e) simp_all
  qed
qed

end
