(* ===== verification/Api_Display.thy ===== *)
theory Api_Display
  imports Api_Types
begin

text \<open>
  The \<open>Display\<close> implementations of \<open>amplifier-api/src/types.rs\<close>: the text each type
  is logged as.  \<open>chrono\<close>'s \<open>Display\<close> for a time and the \<open>hex\<close> crate's \<open>encode\<close> are not
  part of the repository and come in as the fields of a \<open>display_env\<close>.
\<close>

record display_env =
  show_datetime :: "datetime \<Rightarrow> string"
  hex_encode :: "bytes \<Rightarrow> string"

definition show_bool :: "bool \<Rightarrow> string" where
  "show_bool b = (if b then ''true'' else ''false'')"

fun cannot_execute_reason_display :: "cannot_execute_message_reason \<Rightarrow> string" where
  "cannot_execute_reason_display InsufficientGas = ''insufficient gas''"
| "cannot_execute_reason_display OtherError = ''other error''"

fun execution_status_display :: "message_execution_status \<Rightarrow> string" where
  "execution_status_display Successful = ''successful''"
| "execution_status_display Reverted = ''reverted''"

text \<open>\<open>Display for BigInt\<close> prints the number; the derived \<open>Debug\<close> prints the wrapper as well.\<close>

definition big_int_display :: "big_int \<Rightarrow> string" where
  "big_int_display b = dec_int (sint (bi_inner b))"

definition big_int_debug :: "big_int \<Rightarrow> string" where
  "big_int_debug b = ''BigInt('' @ dec_int (sint (bi_inner b)) @ '')''"

definition token_display :: "token \<Rightarrow> string" where
  "token_display t =
     (case tk_token_id t of
        Some (TokenId token_id) \<Rightarrow> big_int_debug (tk_amount t) @ '' '' @ token_id
      | None \<Rightarrow> big_int_debug (tk_amount t) @ '' NativeToken'')"

definition opt_line :: "string \<Rightarrow> ('a \<Rightarrow> string) \<Rightarrow> 'a option \<Rightarrow> string" where
  "opt_line label sh v = (case v of None \<Rightarrow> [] | Some a \<Rightarrow> writeln (label @ sh a))"

fun tx_id_text :: "tx_id \<Rightarrow> string" where
  "tx_id_text (TxId s) = s"

definition event_metadata_display :: "display_env \<Rightarrow> 'x event_metadata \<Rightarrow> string" where
  "event_metadata_display env m =
     writeln ''EventMetadata'' @
     opt_line ''txID: '' tx_id_text (em_tx_id m) @
     opt_line ''timestamp: '' (show_datetime env) (em_timestamp m) @
     opt_line ''fromAddress: '' (\<lambda>a. a) (em_from_address m) @
     opt_line ''finalized: '' show_bool (em_finalized m)"

definition gateway_v2_message_display :: "display_env \<Rightarrow> gateway_v2_message \<Rightarrow> string" where
  "gateway_v2_message_display env g =
     writeln ''GatewayV2Message'' @
     writeln (''messageID: '' @ tx_event_text (gm_message_id g)) @
     writeln (''sourceChain: '' @ gm_source_chain g) @
     writeln (''sourceAddress: '' @ gm_source_address g) @
     writeln (''destinationAddress: '' @ gm_destination_address g) @
     writeln (''payloadHash: 0x'' @ hex_encode env (gm_payload_hash g))"

definition event_base_display :: "display_env \<Rightarrow> 'x event_base \<Rightarrow> string" where
  "event_base_display env b =
     (case eb_meta b of
        Some meta \<Rightarrow>
          (let meta_string = event_metadata_display env meta
           in if meta_string = [] then ''eventId - '' @ tx_event_text (eb_event_id b)
              else join_str [newline] (map (\<lambda>line. ''  '' @ line) (lines meta_string)))
      | None \<Rightarrow> ''eventId - '' @ tx_event_text (eb_event_id b))"

definition gas_credit_event_display :: "display_env \<Rightarrow> gas_credit_event \<Rightarrow> string" where
  "gas_credit_event_display env ev =
     writeln ''GasCreditEvent'' @
     writeln_lines (event_base_display env (gc_base ev)) @
     writeln (''messageID: '' @ tx_event_text (gc_message_id ev)) @
     writeln (''refundAddress: '' @ gc_refund_address ev) @
     writeln (''payment: '' @ token_display (gc_payment ev))"

definition gas_refunded_event_display :: "display_env \<Rightarrow> gas_refunded_event \<Rightarrow> string" where
  "gas_refunded_event_display env ev =
     writeln ''GasRefundedEvent'' @
     writeln_lines (event_base_display env (gr_base ev)) @
     writeln (''messageID: '' @ tx_event_text (gr_message_id ev)) @
     writeln (''recipientAddress: '' @ gr_recipient_address ev) @
     writeln (''refundedAmount: '' @ token_display (gr_refunded_amount ev)) @
     writeln (''cost: '' @ token_display (gr_cost ev))"

definition call_event_display :: "display_env \<Rightarrow> call_event \<Rightarrow> string" where
  "call_event_display env ev =
     writeln ''CallEvent'' @
     writeln_lines (event_base_display env (ce_base ev)) @
     writeln_lines (gateway_v2_message_display env (ce_message ev)) @
     writeln (''destinationChain: '' @ ce_destination_chain ev)"

definition message_approved_event_display :: "display_env \<Rightarrow> message_approved_event \<Rightarrow> string" where
  "message_approved_event_display env ev =
     writeln ''MessageApprovedEvent'' @
     writeln (''base: '' @ event_base_display env (ma_base ev)) @
     writeln ''message:'' @
     writeln_lines (gateway_v2_message_display env (ma_message ev)) @
     writeln (''cost: '' @ token_display (ma_cost ev))"

definition signers_rotated_event_display :: "display_env \<Rightarrow> signers_rotated_event \<Rightarrow> string" where
  "signers_rotated_event_display env ev =
     writeln ''SignersRotatedEvent'' @
     writeln (''base: '' @ event_base_display env (sr_base ev)) @
     writeln (''cost: '' @ token_display (sr_cost ev))"

definition message_executed_event_display :: "display_env \<Rightarrow> message_executed_event \<Rightarrow> string" where
  "message_executed_event_display env ev =
     writeln ''MessageExecutedEvent'' @
     writeln (''base: '' @ event_base_display env (mx_base ev)) @
     writeln (''messageID: '' @ tx_event_text (mx_message_id ev)) @
     writeln (''sourceChain: '' @ mx_source_chain ev) @
     writeln (''status: '' @ execution_status_display (mx_status ev)) @
     writeln (''cost: '' @ token_display (mx_cost ev))"

definition cannot_execute_message_v2_display ::
  "display_env \<Rightarrow> cannot_execute_message_event_v2 \<Rightarrow> string" where
  "cannot_execute_message_v2_display env ev =
     writeln ''CannotExecuteMessageEventV2'' @
     writeln (''base: '' @ event_base_display env (cx_base ev)) @
     writeln (''messageID: '' @ tx_event_text (cx_message_id ev)) @
     writeln (''sourceChain: '' @ cx_source_chain ev) @
     writeln (''reason: '' @ cannot_execute_reason_display (cx_reason ev)) @
     writeln (''details: '' @ cx_details ev)"

fun event_display :: "display_env \<Rightarrow> event \<Rightarrow> string" where
  "event_display env (GasCredit ev) = writeln_lines (gas_credit_event_display env ev)"
| "event_display env (GasRefunded ev) = writeln_lines (gas_refunded_event_display env ev)"
| "event_display env (Call ev) = writeln_lines (call_event_display env ev)"
| "event_display env (MessageApproved ev) = writeln_lines (message_approved_event_display env ev)"
| "event_display env (MessageExecuted ev) = writeln_lines (message_executed_event_display env ev)"
| "event_display env (CannotExecuteMessageV2 ev) = writeln_lines (cannot_execute_message_v2_display env ev)"
| "event_display env (SignersRotated ev) = writeln_lines (signers_rotated_event_display env ev)"

fun publish_events_lines :: "display_env \<Rightarrow> nat \<Rightarrow> event list \<Rightarrow> string" where
  "publish_events_lines env index [] = []"
| "publish_events_lines env index (ev # evs) =
     writeln (''['' @ dec_nat index @ '']:'') @
     writeln_lines (event_display env ev) @
     publish_events_lines env (Suc index) evs"

definition publish_events_request_display :: "display_env \<Rightarrow> publish_events_request \<Rightarrow> string" where
  "publish_events_request_display env r =
     writeln ''PublishEventsRequest'' @ writeln ''events:'' @
     publish_events_lines env 0 (pr_events r)"

subsection \<open>What the log text says of an event\<close>

lemma event_metadata_display_nonempty [simp]: "event_metadata_display env m \<noteq> []"
  by (simp add: event_metadata_display_def writeln_def)

text \<open>
  With metadata present, the text of an \<open>EventBase\<close> is the indented metadata: the branch
  for an empty metadata text cannot be taken, so the event id is left out.
\<close>

lemma event_base_display_meta:
  "eb_meta b = Some m \<Longrightarrow>
     event_base_display env b =
       join_str [newline] (map (\<lambda>line. ''  '' @ line) (lines (event_metadata_display env m)))"
  by (simp only: event_base_display_def option.case Let_def event_metadata_display_nonempty if_False)

lemma event_base_display_no_meta:
  "eb_meta b = None \<Longrightarrow>
     event_base_display env b = ''eventId - '' @ tx_event_text (eb_event_id b)"
  by (simp add: event_base_display_def)

lemma token_display_debug:
  "\<exists>unit_name. token_display t = ''BigInt('' @ big_int_display (tk_amount t) @ '') '' @ unit_name"
  by (auto simp: token_display_def big_int_debug_def big_int_display_def
      split: option.split token_id.split)

subsection \<open>Properties\<close>

text \<open>The log text of an \<open>EventBase\<close> that carries metadata does not depend on its event
  id: events that differ only in their id are logged alike, although the implementation has a
  branch meant to print the id.\<close>

theorem event_base_display_omits_id:
  "event_base_display env (b\<lparr>eb_meta := Some m, eb_event_id := i\<rparr>) =
     event_base_display env (b\<lparr>eb_meta := Some m, eb_event_id := j\<rparr>)"
  by (simp add: event_base_display_meta)

end
