(* ===== verification/Api_Codec.thy ===== *)
theory Api_Codec
  imports Api_Types
begin

text \<open>
  The hand-written serializers of the crate \<open>amplifier-api\<close>: the Borsh functions of
  \<open>util.rs\<close> for times and optional times and of \<open>big_int.rs\<close> for amounts, and the serde
  (JSON) form of an amount.

  The primitives of the crate \<open>borsh\<close> and the readers of \<open>chrono::DateTime\<close> are not in the
  repository; they are the fields of \<open>borsh_env\<close>.  A writer is the bytes written so far, a
  reader the bytes still to be read.  What is relied on is \<open>borsh_ok\<close>: a primitive value
  written can be read back, leaving what follows it untouched, and a time is determined by
  its seconds and nanoseconds.  The interface of one serializer with its law is the locale
  \<open>codec\<close>, interpreted below for the three serializers of the code.
\<close>

datatype io_error = InvalidData string | OtherIo string

record 'dt borsh_env =
  ser_u8 :: "u8 \<Rightarrow> bytes \<Rightarrow> io_error + bytes"
  de_u8 :: "bytes \<Rightarrow> io_error + u8 \<times> bytes"
  ser_i64_u32 :: "i64 \<times> u32 \<Rightarrow> bytes \<Rightarrow> io_error + bytes"
  de_i64_u32 :: "bytes \<Rightarrow> io_error + (i64 \<times> u32) \<times> bytes"
  ser_string :: "string \<Rightarrow> bytes \<Rightarrow> io_error + bytes"
  de_string :: "bytes \<Rightarrow> io_error + string \<times> bytes"
  timestamp :: "'dt \<Rightarrow> i64"
  timestamp_subsec_nanos :: "'dt \<Rightarrow> u32"
  from_timestamp :: "i64 \<Rightarrow> u32 \<Rightarrow> 'dt option"

text \<open>Written by \<open>ser\<close>, a value is read back by \<open>de\<close>, whatever follows it.\<close>

definition reads_back ::
  "('a \<Rightarrow> bytes \<Rightarrow> io_error + bytes) \<Rightarrow> (bytes \<Rightarrow> io_error + 'a \<times> bytes) \<Rightarrow> 'a \<Rightarrow> bool" where
  "reads_back ser de x \<longleftrightarrow>
     (\<forall>out out'. ser x out = Inr out' \<longrightarrow>
        (\<exists>bs. out' = out @ bs \<and> (\<forall>rest. de (bs @ rest) = Inr (x, rest))))"

definition borsh_ok :: "'dt borsh_env \<Rightarrow> bool" where
  "borsh_ok B \<longleftrightarrow>
     (\<forall>x. reads_back (ser_u8 B) (de_u8 B) x) \<and>
     (\<forall>x. reads_back (ser_i64_u32 B) (de_i64_u32 B) x) \<and>
     (\<forall>x. reads_back (ser_string B) (de_string B) x) \<and>
     (\<forall>dt. from_timestamp B (timestamp B dt) (timestamp_subsec_nanos B dt) = Some dt)"

subsection \<open>Times: util.rs\<close>

definition serialize_utc :: "'dt borsh_env \<Rightarrow> 'dt \<Rightarrow> bytes \<Rightarrow> io_error + bytes" where
  "serialize_utc B value writer =
     (let secs = timestamp B value; nsecs = timestamp_subsec_nanos B value
      in ser_i64_u32 B (secs, nsecs) writer)"

definition deserialize_utc :: "'dt borsh_env \<Rightarrow> bytes \<Rightarrow> io_error + 'dt \<times> bytes" where
  "deserialize_utc B reader =
     res_bind (de_i64_u32 B reader) (\<lambda>((secs, nsecs), rest).
       case from_timestamp B secs nsecs of
         Some datetime \<Rightarrow> Inr (datetime, rest)
       | None \<Rightarrow> Inl (InvalidData ''Invalid DateTime timestamp_micros''))"

definition serialize_option_utc :: "'dt borsh_env \<Rightarrow> 'dt option \<Rightarrow> bytes \<Rightarrow> io_error + bytes" where
  "serialize_option_utc B value writer =
     (case value of
        Some dt \<Rightarrow> res_bind (ser_u8 B 1 writer) (serialize_utc B dt)
      | None \<Rightarrow> ser_u8 B 0 writer)"

definition deserialize_option_utc :: "'dt borsh_env \<Rightarrow> bytes \<Rightarrow> io_error + 'dt option \<times> bytes" where
  "deserialize_option_utc B reader =
     res_bind (de_u8 B reader) (\<lambda>(flag, rest).
       if flag = 0 then Inr (None, rest)
       else if flag = 1 then
         res_bind (deserialize_utc B rest) (\<lambda>(datetime, rest'). Inr (Some datetime, rest'))
       else Inl (InvalidData ''Invalid Option flag byte for Option<DateTime<Utc>>''))"

subsection \<open>Amounts: big\_int.rs\<close>

text \<open>The message of a \<open>ParseIntError\<close>, in the error that \<open>deserialize\<close> makes of it.\<close>

fun parse_int_error_text :: "parse_int_error \<Rightarrow> string" where
  "parse_int_error_text Empty = ''cannot parse integer from empty string''"
| "parse_int_error_text InvalidDigit = ''invalid digit found in string''"
| "parse_int_error_text PosOverflow = ''number too large to fit in target type''"
| "parse_int_error_text NegOverflow = ''number too small to fit in target type''"

definition bigint_serialize :: "'dt borsh_env \<Rightarrow> big_int \<Rightarrow> bytes \<Rightarrow> io_error + bytes" where
  "bigint_serialize B value writer = ser_string B (dec_int (sint (bi_inner value))) writer"

definition bigint_deserialize :: "'dt borsh_env \<Rightarrow> bytes \<Rightarrow> io_error + big_int \<times> bytes" where
  "bigint_deserialize B reader =
     res_bind (de_string B reader) (\<lambda>(value, rest).
       res_bind (map_err (\<lambda>e. InvalidData (parse_int_error_text e)) (parse_i128 value))
         (\<lambda>number. Inr (BigInt number, rest)))"

text \<open>The serde form: a JSON string, modelled by the text handed to and taken from serde.\<close>

definition bigint_to_json :: "big_int \<Rightarrow> string" where
  "bigint_to_json b = dec_int (sint (bi_inner b))"

definition bigint_of_json :: "string \<Rightarrow> string + big_int" where
  "bigint_of_json s =
     res_bind
       (map_err (\<lambda>e. ''Failed to parse i128, err: '' @ parse_int_error_text e) (parse_i128 s))
       (\<lambda>number. Inr (BigInt number))"

subsection \<open>The interface of a serializer\<close>

locale codec =
  fixes ok :: "'p \<Rightarrow> bool"
    and ser :: "'p \<Rightarrow> 'a \<Rightarrow> bytes \<Rightarrow> io_error + bytes"
    and de :: "'p \<Rightarrow> bytes \<Rightarrow> io_error + 'a \<times> bytes"
  assumes read_back: "ok p \<Longrightarrow> reads_back (ser p) (de p) x"
begin

lemma roundtrip:
  assumes "ok p" "ser p x out = Inr out'"
  shows "\<exists>bs. out' = out @ bs \<and> de p (bs @ rest) = Inr (x, rest)"
  using read_back [OF assms(1), of x] assms(2) unfolding reads_back_def by blast

text \<open>Nothing written earlier is touched, and two values never share an encoding.\<close>

lemma appends: "ok p \<Longrightarrow> ser p x out = Inr out' \<Longrightarrow> take (length out) out' = out"
  using roundtrip [of p x out out' "[]"] by auto

lemma prefix_free:
  assumes "ok p" "ser p x [] = Inr bs" "ser p y [] = Inr cs" "bs @ r = cs @ s"
  shows "x = y \<and> r = s"
proof -
  have "de p (bs @ r) = Inr (x, r)" "de p (cs @ s) = Inr (y, s)"
    using roundtrip [OF assms(1,2), of r] roundtrip [OF assms(1,3), of s] by auto
  with assms(4) show ?thesis by simp
qed

end

lemma reads_backI:
  assumes "\<And>out out'. ser x out = Inr out' \<Longrightarrow>
      \<exists>bs. out' = out @ bs \<and> (\<forall>rest. de (bs @ rest) = Inr (x, rest))"
  shows "reads_back ser de x"
  using assms by (simp add: reads_back_def)

lemma reads_backD:
  assumes "reads_back ser de x" "ser x out = Inr out'"
  obtains bs where "out' = out @ bs" "\<And>rest. de (bs @ rest) = Inr (x, rest)"
  using assms by (auto simp: reads_back_def)

lemma borsh_okD:
  assumes "borsh_ok B"
  shows "reads_back (ser_u8 B) (de_u8 B) a" "reads_back (ser_i64_u32 B) (de_i64_u32 B) b"
    "reads_back (ser_string B) (de_string B) c"
    "from_timestamp B (timestamp B dt) (timestamp_subsec_nanos B dt) = Some dt"
  using assms unfolding borsh_ok_def by blast+

lemma reads_back_utc:
  assumes "borsh_ok B"
  shows "reads_back (serialize_utc B) (deserialize_utc B) dt"
proof (rule reads_backI)
  fix out out'
  assume "serialize_utc B dt out = Inr out'"
  then have "ser_i64_u32 B (timestamp B dt, timestamp_subsec_nanos B dt) out = Inr out'"
    by (simp add: serialize_utc_def Let_def)
  then obtain bs where "out' = out @ bs"
      "\<And>rest. de_i64_u32 B (bs @ rest) = Inr ((timestamp B dt, timestamp_subsec_nanos B dt), rest)"
    by (rule reads_backD [OF borsh_okD(2) [OF assms]]) blast
  then show "\<exists>bs. out' = out @ bs \<and> (\<forall>rest. deserialize_utc B (bs @ rest) = Inr (dt, rest))"
    by (auto simp: deserialize_utc_def borsh_okD(4) [OF assms])
qed

lemma reads_back_option_utc:
  assumes "borsh_ok B"
  shows "reads_back (serialize_option_utc B) (deserialize_option_utc B) v"
proof (rule reads_backI)
  fix out out'
  assume s: "serialize_option_utc B v out = Inr out'"
  show "\<exists>bs. out' = out @ bs \<and> (\<forall>rest. deserialize_option_utc B (bs @ rest) = Inr (v, rest))"
  proof (cases v)
    case None
    with s have "ser_u8 B 0 out = Inr out'" by (simp add: serialize_option_utc_def)
    then obtain bs where "out' = out @ bs" "\<And>rest. de_u8 B (bs @ rest) = Inr (0, rest)"
      by (rule reads_backD [OF borsh_okD(1) [OF assms]]) blast
    with None show ?thesis by (auto simp: deserialize_option_utc_def)
  next
    case (Some dt)
    with s obtain mid where "ser_u8 B 1 out = Inr mid" and mid: "serialize_utc B dt mid = Inr out'"
      by (auto simp: serialize_option_utc_def res_bind_eq_Inr)
    then obtain as where "as": "mid = out @ as" "\<And>rest. de_u8 B (as @ rest) = Inr (1, rest)"
      by (rule_tac reads_backD [OF borsh_okD(1) [OF assms]]) blast+
    obtain bs where "out' = mid @ bs" "\<And>rest. deserialize_utc B (bs @ rest) = Inr (dt, rest)"
      by (rule reads_backD [OF reads_back_utc [OF assms] mid]) blast
    with "as" Some have "out' = out @ (as @ bs) \<and>
        (\<forall>rest. deserialize_option_utc B ((as @ bs) @ rest) = Inr (v, rest))"
      by (simp add: deserialize_option_utc_def)
    then show ?thesis by blast
  qed
qed

lemma reads_back_bigint:
  assumes "borsh_ok B"
  shows "reads_back (bigint_serialize B) (bigint_deserialize B) b"
proof (rule reads_backI)
  fix out out'
  assume "bigint_serialize B b out = Inr out'"
  then have "ser_string B (dec_int (sint (bi_inner b))) out = Inr out'"
    by (simp add: bigint_serialize_def)
  then obtain bs where "out' = out @ bs"
      "\<And>rest. de_string B (bs @ rest) = Inr (dec_int (sint (bi_inner b)), rest)"
    by (rule reads_backD [OF borsh_okD(3) [OF assms]]) blast
  then show "\<exists>bs. out' = out @ bs \<and> (\<forall>rest. bigint_deserialize B (bs @ rest) = Inr (b, rest))"
    by (auto simp: bigint_deserialize_def)
qed

interpretation utc_codec: codec borsh_ok serialize_utc deserialize_utc
  by unfold_locales (rule reads_back_utc)

interpretation option_utc_codec: codec borsh_ok serialize_option_utc deserialize_option_utc
  by unfold_locales (rule reads_back_option_utc)

interpretation bigint_codec: codec borsh_ok bigint_serialize bigint_deserialize
  by unfold_locales (rule reads_back_bigint)

subsection \<open>A concrete instance of the Borsh primitives\<close>

text \<open>
  The little-endian encoding of the Borsh specification, with a time kept as its seconds
  and nanoseconds: an instance on which the serializers can be evaluated.
\<close>

fun le_bytes :: "nat \<Rightarrow> nat \<Rightarrow> bytes" where
  "le_bytes 0 n = []"
| "le_bytes (Suc k) n = of_nat (n mod 256) # le_bytes k (n div 256)"

fun le_value :: "bytes \<Rightarrow> nat" where
  "le_value [] = 0"
| "le_value (b # bs) = unat b + 256 * le_value bs"

definition read_le :: "nat \<Rightarrow> bytes \<Rightarrow> io_error + nat \<times> bytes" where
  "read_le k r = (if length r < k then Inl (InvalidData ''Unexpected length of input'')
     else Inr (le_value (take k r), drop k r))"

definition le_string :: "string \<Rightarrow> bytes \<Rightarrow> io_error + bytes" where
  "le_string s w = (if length s < 2 ^ 32
     then Inr (w @ le_bytes 4 (length s) @ map (\<lambda>c. of_nat (of_char c)) s)
     else Inl (OtherIo ''length too large''))"

definition read_le_string :: "bytes \<Rightarrow> io_error + string \<times> bytes" where
  "read_le_string r = res_bind (read_le 4 r) (\<lambda>(n, r').
     if length r' < n then Inl (InvalidData ''Unexpected length of input'')
     else Inr (map (\<lambda>b. char_of (unat b)) (take n r'), drop n r'))"

definition borsh_le :: "(i64 \<times> u32) borsh_env" where
  "borsh_le = \<lparr>
     ser_u8 = (\<lambda>x w. Inr (w @ [x])),
     de_u8 = (\<lambda>r. case r of [] \<Rightarrow> Inl (InvalidData ''Unexpected length of input'') | b # bs \<Rightarrow> Inr (b, bs)),
     ser_i64_u32 = (\<lambda>(s, n) w. Inr (w @ le_bytes 8 (unat s) @ le_bytes 4 (unat n))),
     de_i64_u32 = (\<lambda>r. res_bind (read_le 8 r) (\<lambda>(s, r').
        res_bind (read_le 4 r') (\<lambda>(n, r''). Inr ((of_nat s, of_nat n), r'')))),
     ser_string = le_string, de_string = read_le_string,
     timestamp = fst, timestamp_subsec_nanos = snd, from_timestamp = (\<lambda>s n. Some (s, n))\<rparr>"

lemma length_le_bytes [simp]: "length (le_bytes k n) = k"
  by (induction k arbitrary: n) auto

lemma le_value_le_bytes [simp]: "le_value (le_bytes k n) = n mod 256 ^ k"
proof (induction k arbitrary: n)
  case (Suc k)
  have "unat (of_nat (n mod 256) :: u8) = n mod 256"
    by (simp add: unat_of_nat)
  then show ?case
    using Suc.IH [of "n div 256"] by (simp add: mod_mult2_eq)
qed simp

lemma read_le_le_bytes [simp]: "read_le k (le_bytes k n @ r) = Inr (n mod 256 ^ k, r)"
  by (simp add: read_le_def)

lemma of_char_byte [simp]: "char_of (unat (of_nat (of_char c) :: u8)) = c"
  by (simp add: unat_of_nat)

lemma le_bytes_numeral:
  "le_bytes (numeral k) n = of_nat (n mod 256) # le_bytes (pred_numeral k) (n div 256)"
  by (subst (1) numeral_eq_Suc) (rule le_bytes.simps)

lemma borsh_le_ok: "borsh_ok borsh_le"
proof -
  have u64: "unat (s :: i64) mod 256 ^ 8 = unat s" for s
    using unsigned_less [of s, where ?'a = nat] by simp
  have u32: "unat (n :: u32) mod 256 ^ 4 = unat n" for n
    using unsigned_less [of n, where ?'a = nat] by simp
  have "reads_back (ser_u8 borsh_le) (de_u8 borsh_le) x" for x
    by (simp add: borsh_le_def reads_back_def)
  moreover have "reads_back (ser_i64_u32 borsh_le) (de_i64_u32 borsh_le) x" for x
    using u64 u32 by (cases x) (simp add: borsh_le_def reads_back_def)
  moreover have "reads_back (ser_string borsh_le) (de_string borsh_le) s" for s
    by (auto simp: borsh_le_def reads_back_def le_string_def read_le_string_def o_def split: if_splits)
  ultimately show ?thesis
    by (simp add: borsh_ok_def borsh_le_def)
qed

subsection \<open>Properties\<close>

text \<open>An optional time written by \<open>serialize_option_utc\<close> is read back by
  \<open>deserialize_option_utc\<close>, whatever was written before it and whatever follows it.\<close>

theorem option_utc_roundtrip:
  assumes "borsh_ok B" "serialize_option_utc B v out = Inr out'"
  shows "\<exists>bs. out' = out @ bs \<and> deserialize_option_utc B (bs @ rest) = Inr (v, rest)"
  using assms by (rule option_utc_codec.roundtrip)

theorem option_utc_roundtrip_witness:
  "borsh_ok borsh_le \<and> serialize_option_utc borsh_le (Some (5, 7)) [9] =
     Inr [9, 1, 5, 0, 0, 0, 0, 0, 0, 0, 7, 0, 0, 0] \<and>
   (\<exists>bs. [9, 1, 5, 0, 0, 0, 0, 0, 0, 0, 7, 0, 0, 0] = [9] @ bs \<and>
      deserialize_option_utc borsh_le (bs @ [3]) = Inr (Some (5, 7), [3]))"
proof -
  have s: "serialize_option_utc borsh_le (Some (5, 7)) [9] =
      Inr [9, 1, 5, 0, 0, 0, 0, 0, 0, 0, 7, 0, 0, 0]"
    by (simp add: serialize_option_utc_def serialize_utc_def borsh_le_def le_bytes_numeral)
  show ?thesis
    using borsh_le_ok s option_utc_roundtrip [OF borsh_le_ok s, of "[3]"] by blast
qed

text \<open>The Borsh form of an amount determines it: amounts with a common encoding, even as
  prefixes of longer byte strings, are equal, and an amount written is read back.\<close>

theorem bigint_borsh_prefix_free:
  assumes "borsh_ok B" "bigint_serialize B x [] = Inr bs" "bigint_serialize B y [] = Inr cs"
    and "bs @ r = cs @ s"
  shows "x = y \<and> r = s \<and> bigint_deserialize B (bs @ r) = Inr (x, r)"
  using bigint_codec.prefix_free [OF assms] bigint_codec.roundtrip [OF assms(1,2), of r] by auto

theorem bigint_borsh_prefix_free_witness:
  "borsh_ok borsh_le \<and> bigint_serialize borsh_le (BigInt 7) [] = Inr [1, 0, 0, 0, 55] \<and>
   bigint_deserialize borsh_le ([1, 0, 0, 0, 55] @ [4]) = Inr (BigInt 7, [4])"
proof -
  have s: "bigint_serialize borsh_le (BigInt 7) [] = Inr [1, 0, 0, 0, 55]"
    by (simp add: bigint_serialize_def borsh_le_def le_string_def dec_int_def dec_nat_small
        digit_char_def le_bytes_numeral)
  show ?thesis
    using borsh_le_ok s bigint_borsh_prefix_free [OF borsh_le_ok s s refl, of "[4]"] by blast
qed

text \<open>An amount's JSON text parses back to it, for every 128-bit value.\<close>

theorem bigint_json_roundtrip: "bigint_of_json (bigint_to_json b) = Inr b"
  by (cases b) (simp add: bigint_of_json_def bigint_to_json_def)

text \<open>\<open>BigInt\<close> accepts more than the documented pattern \<open>^(0|[1-9]\d*)$\<close>: a sign and
  leading zeros are taken as well.\<close>

theorem bigint_accepts_outside_pattern:
  "bigint_of_json ''-7'' = Inr (BigInt (- 7)) \<and> bigint_of_json ''+7'' = Inr (BigInt 7) \<and>
   bigint_of_json ''007'' = Inr (BigInt 7)"
  by (simp add: bigint_of_json_def parse_i128_def to_digit_def)

end
