(* ===== verification/Queue_Interfaces.thy ===== *)
theory Queue_Interfaces
  imports Api_Codec
begin

text \<open>
  The interfaces of \<open>infrastructure/src/interfaces.rs\<close>: the values that cross them
  (\<open>AckKind\<close>, \<open>PublishMessage\<close>, \<open>WithRevision\<close>), and one locale per trait with the laws the
  clients rely on.  The traits are implemented twice, over NATS JetStream and over Google
  Pub/Sub with Redis; the theories of the two back ends interpret the locales on their models.

  In a locale, \<open>p\<close> is the client object with the external services it talks to, \<open>ok p\<close> the
  documented behaviour of those services, and \<open>'st\<close> the state the calls act on.
\<close>

datatype ack_kind = Ack | Nak | Progress

record 'm publish_message =
  deduplication_id :: string
  pm_data :: 'm

text \<open>\<open>From<T> for PublishMessage<T>\<close>, over the two methods of \<open>QueueMsgId\<close> it uses.\<close>

definition publish_message_from ::
  "('m \<Rightarrow> 'id) \<Rightarrow> ('id \<Rightarrow> string) \<Rightarrow> 'm \<Rightarrow> 'm publish_message" where
  "publish_message_from msg_id to_string value =
     \<lparr>deduplication_id = to_string (msg_id value), pm_data = value\<rparr>"

record 'a with_revision =
  wr_value :: 'a
  wr_revision :: u64

definition with_revision_display :: "('a \<Rightarrow> string) \<Rightarrow> 'a with_revision \<Rightarrow> string" where
  "with_revision_display sh v = sh (wr_value v) @ '' (rev: '' @ dec_nat (unat (wr_revision v)) @ '')''"

text \<open>The error of a third-party library, by its text.\<close>

datatype ext_error = ExtError string

text \<open>The derived Borsh form of a type of the repository: \<open>borsh::to_vec\<close>, and reading a value off a
  byte slice.  What is relied on: what is written is read back.  \<open>Api_Borsh\<close> and \<open>Event_Transport\<close> give the
  forms of the types that pass through the queues and prove this of them.\<close>

record 'a borsh_type =
  to_vec :: "'a \<Rightarrow> io_error + bytes"
  from_slice :: "bytes \<Rightarrow> io_error + 'a"

definition borsh_type_ok :: "'a borsh_type \<Rightarrow> bool" where
  "borsh_type_ok C \<longleftrightarrow> (\<forall>x bs. to_vec C x = Inr bs \<longrightarrow> from_slice C bs = Inr x)"

lemma borsh_type_okD: "borsh_type_ok C \<Longrightarrow> to_vec C x = Inr bs \<Longrightarrow> from_slice C bs = Inr x"
  by (simp add: borsh_type_ok_def)

subsection \<open>Key-value stores\<close>

text \<open>\<open>holds p st v\<close>: the store's key holds the value \<open>v\<close>, or nothing when \<open>v\<close> is \<open>None\<close>.\<close>

locale kv_store =
  fixes ok :: "'p \<Rightarrow> bool"
    and holds :: "'p \<Rightarrow> 'st \<Rightarrow> 'a option \<Rightarrow> bool"
    and update :: "'p \<Rightarrow> 'a with_revision \<Rightarrow> ('st, 'e, u64) io"
    and put :: "'p \<Rightarrow> 'a \<Rightarrow> ('st, 'e, u64) io"
    and get :: "'p \<Rightarrow> ('st, 'e, 'a with_revision option) io"
  assumes update_holds: "ok p \<Longrightarrow> update p d st = (Inr r, st') \<Longrightarrow> holds p st' (Some (wr_value d))"
    and put_holds: "ok p \<Longrightarrow> put p v st = (Inr r, st') \<Longrightarrow> holds p st' (Some v)"
    and get_holds: "ok p \<Longrightarrow> holds p st known \<Longrightarrow> get p st = (Inr x, st') \<Longrightarrow>
        map_option wr_value x = known \<and> holds p st' known"
begin

lemma put_get:
  assumes "ok p" "put p v st = (Inr r, st1)" "get p st1 = (Inr x, st2)"
  shows "map_option wr_value x = Some v"
  using assms put_holds get_holds by blast

lemma update_get:
  assumes "ok p" "update p d st = (Inr r, st1)" "get p st1 = (Inr x, st2)"
  shows "map_option wr_value x = Some (wr_value d)"
  using assms update_holds get_holds by blast

text \<open>Reading does not disturb: a second read sees the same value.\<close>

lemma get_twice:
  assumes "ok p" "holds p st v" "get p st = (Inr x, st1)" "get p st1 = (Inr y, st2)"
  shows "map_option wr_value x = map_option wr_value y"
  using assms get_holds by metis

end

subsection \<open>Publishers whose last message can be peeked at\<close>

text \<open>
  \<open>latest p st v\<close>: the id a peek reports is \<open>v\<close>.  \<open>recorded rs\<close> holds of the results of a
  publish when the last message was really added to the queue (JetStream drops a message it
  has seen in its duplicate window, and says so in the acknowledgement).
\<close>

locale peek_publisher =
  fixes ok :: "'p \<Rightarrow> bool"
    and msg_id :: "'p \<Rightarrow> 'm \<Rightarrow> 'id"
    and latest :: "'p \<Rightarrow> 'st \<Rightarrow> 'id option \<Rightarrow> bool"
    and recorded :: "'r list \<Rightarrow> bool"
    and publish_batch :: "'p \<Rightarrow> 'm publish_message list \<Rightarrow> ('st, 'e, 'r list) io"
    and peek_last :: "'p \<Rightarrow> ('st, 'e, 'id option) io"
  assumes batch_latest: "ok p \<Longrightarrow> b \<noteq> [] \<Longrightarrow> publish_batch p b st = (Inr rs, st') \<Longrightarrow> recorded rs \<Longrightarrow>
        latest p st' (Some (msg_id p (pm_data (last b))))"
    and batch_length: "b \<noteq> [] \<Longrightarrow> ok p \<Longrightarrow> publish_batch p b st = (Inr rs, st') \<Longrightarrow> length rs = length b"
    and peek_latest: "ok p \<Longrightarrow> latest p st v \<Longrightarrow> peek_last p st = (Inr x, st') \<Longrightarrow> x = v \<and> latest p st' v"
begin

lemma batch_peek:
  assumes "ok p" "b \<noteq> []" "publish_batch p b st = (Inr rs, st1)" "recorded rs"
    and "peek_last p st1 = (Inr x, st2)"
  shows "x = Some (msg_id p (pm_data (last b)))"
  using assms batch_latest peek_latest by blast

lemma peek_twice:
  assumes "ok p" "latest p st v" "peek_last p st = (Inr x, st1)" "peek_last p st1 = (Inr y, st2)"
  shows "y = x"
  using assms peek_latest by metis

text \<open>A run of batches: whatever was published before, the peek reports the last batch.\<close>

lemma two_batches_peek:
  assumes "ok p" "publish_batch p b st = (Inr rs, st1)"
    and "c \<noteq> []" "publish_batch p c st1 = (Inr rs', st2)" "recorded rs'"
    and "peek_last p st2 = (Inr x, st3)"
  shows "x = Some (msg_id p (pm_data (last c)))"
  using batch_peek [OF assms(1,3,4,5,6)] .

end

subsection \<open>Messages handed out by a consumer\<close>

text \<open>
  \<open>settled p st m k\<close>: the queue has taken note of the answer \<open>k\<close> to the message \<open>m\<close>.  The
  message is updated by \<open>ack\<close> (it carries its own deadline), but what it decodes to stays.
\<close>

locale queue_message =
  fixes ok :: "'p \<Rightarrow> bool"
    and decoded :: "'m \<Rightarrow> 'a"
    and settled :: "'p \<Rightarrow> 'st \<Rightarrow> 'm \<Rightarrow> ack_kind \<Rightarrow> bool"
    and ack :: "'p \<Rightarrow> ack_kind \<Rightarrow> 'm \<Rightarrow> 'st \<Rightarrow> ('e + unit) \<times> 'm \<times> 'st"
  assumes ack_settles: "ok p \<Longrightarrow> ack p k m st = (Inr (), m', st') \<Longrightarrow> settled p st' m k"
    and ack_decoded: "ack p k m st = (r, m', st') \<Longrightarrow> decoded m' = decoded m"
begin

lemma unsettled_means_error:
  assumes "ok p" "ack p k m st = (r, m', st')" "\<not> settled p st' m k"
  shows "\<exists>e. r = Inl e"
  using assms ack_settles by (cases r) auto

end

end
