(* ===== verification/Gcp_Common.thy ===== *)
theory Gcp_Common
  imports Queue_Interfaces "HOL-Library.Finite_Map"
begin

text \<open>
  What the parts of the Google Cloud back end share (\<open>gcp.rs\<close>, \<open>gcp/util.rs\<close>): the errors,
  the message envelope with its telemetry headers, and the look-up of topics and
  subscriptions.

  Pub/Sub, Redis, the clock and the OpenTelemetry propagator are not in the repository: their
  calls are the fields of \<open>gcp_env\<close>, acting on a world \<open>'w\<close>; \<open>'x\<close> is the type of the client
  libraries' own objects.
\<close>

datatype gcp_error =
    Auth ext_error
  | PubsubClient ext_error
  | KmsClient ext_error
  | Kms ext_error
  | TopicExistsCheck ext_error
  | TopicNotFound string
  | CertificateRead ext_error
  | RustlsBuilder ext_error
  | SubscriptionExistsCheck ext_error
  | SubscriptionNotFound string
  | Publish ext_error
  | AckFailed ext_error
  | NakFailed ext_error
  | ModifyAckDeadline ext_error
  | Deserialize io_error
  | ReceiverTaskCrash ext_error
  | Serialize io_error
  | Connection ext_error
  | Redis ext_error
  | RedisPing ext_error
  | RedisSerialize string io_error
  | RedisSave ext_error
  | RedisGet ext_error
  | RedisDeserialize string io_error
  | ConsumerReadTaskJoin ext_error
  | ConsumerReadTaskExited
  | NoMsgToPublish
  | GenericRedis ext_error
  | MsgIdNotSet

record pubsub_message =
  ps_data :: bytes
  ps_attributes :: "string \<rightharpoonup> string"

record publisher_config =
  pb_workers :: u64
  pb_bundle_size :: u64
  pb_default_retry :: bool

record ('w, 'x) gcp_env =
  instant_now :: "'w \<Rightarrow> nat"
  hex_encode_bytes :: "bytes \<Rightarrow> string"
  redis_open :: "string \<Rightarrow> ext_error + 'x"
  redis_get_connection :: "'x \<Rightarrow> ('w, ext_error, 'x) io"
  redis_ping :: "'x \<Rightarrow> ('w, ext_error, unit) io"
  redis_get :: "'x \<Rightarrow> string \<Rightarrow> ('w, ext_error, bytes option) io"
  redis_set :: "'x \<Rightarrow> string \<Rightarrow> bytes \<Rightarrow> ('w, ext_error, unit) io"
  redis_exists :: "'x \<Rightarrow> string \<Rightarrow> ('w, ext_error, bool) io"
  redis_set_ex :: "'x \<Rightarrow> string \<Rightarrow> string \<Rightarrow> u64 \<Rightarrow> ('w, ext_error, string) io"
  pubsub_config_with_auth :: "('w, ext_error, 'x) io"
  pubsub_client_new :: "'x \<Rightarrow> ('w, ext_error, 'x) io"
  topic_exists :: "'x \<Rightarrow> string \<Rightarrow> ('w, ext_error, bool) io"
  topic_full_name :: "'x \<Rightarrow> string \<Rightarrow> string"
  topic_new_publisher :: "'x \<Rightarrow> string \<Rightarrow> publisher_config \<Rightarrow> 'x"
  pubsub_publish :: "'x \<Rightarrow> pubsub_message \<Rightarrow> 'w \<Rightarrow> 'x \<times> 'w"
  pubsub_publish_bulk :: "'x \<Rightarrow> pubsub_message list \<Rightarrow> 'w \<Rightarrow> 'x list \<times> 'w"
  awaiter_get :: "'x \<Rightarrow> ('w, ext_error, string) io"
  subscription_exists :: "'x \<Rightarrow> string \<Rightarrow> ('w, ext_error, bool) io"
  subscription_full_name :: "'x \<Rightarrow> string \<Rightarrow> string"
  received_message :: "'x \<Rightarrow> pubsub_message"
  received_ack :: "'x \<Rightarrow> ('w, ext_error, unit) io"
  received_nack :: "'x \<Rightarrow> ('w, ext_error, unit) io"
  received_modify_ack_deadline :: "'x \<Rightarrow> i32 \<Rightarrow> ('w, ext_error, unit) io"
  propagator_headers :: "'w \<Rightarrow> (string \<times> string) list"
  propagator_extract :: "(string \<rightharpoonup> string) \<Rightarrow> string list"

text \<open>The state of a client: the world, and (in the extensions) its metric counters.\<close>

record 'w gcp_state =
  gs_world :: 'w

definition on_world :: "('w, 'e, 'a) io \<Rightarrow> (('w, 'z) gcp_state_scheme, 'e, 'a) io" where
  "on_world m st = (let (r, w') = m (gs_world st) in (r, st\<lparr>gs_world := w'\<rparr>))"

lemma on_world_eq [io_cases]:
  "on_world m st = (r, st') \<longleftrightarrow> (\<exists>w'. m (gs_world st) = (r, w') \<and> st' = st\<lparr>gs_world := w'\<rparr>)"
  by (auto simp: on_world_def Let_def split: prod.splits)

subsection \<open>Topics and subscriptions\<close>

definition get_topic ::
  "('w, 'x) gcp_env \<Rightarrow> 'x \<Rightarrow> string \<Rightarrow> (('w, 'z) gcp_state_scheme, gcp_error, string) io" where
  "get_topic G client topic_name =
     io_bind (io_map_err TopicExistsCheck (on_world (topic_exists G client topic_name))) (\<lambda>exists.
       if \<not> exists then io_err (TopicNotFound topic_name) else io_ok topic_name)"

definition get_subscription ::
  "('w, 'x) gcp_env \<Rightarrow> 'x \<Rightarrow> string \<Rightarrow> (('w, 'z) gcp_state_scheme, gcp_error, string) io" where
  "get_subscription G client subscription_name =
     io_bind (io_map_err SubscriptionExistsCheck
         (on_world (subscription_exists G client subscription_name))) (\<lambda>exists.
       if \<not> exists then io_err (SubscriptionNotFound subscription_name)
       else io_ok subscription_name)"

definition connect_pubsub_client ::
  "('w, 'x) gcp_env \<Rightarrow> (('w, 'z) gcp_state_scheme, gcp_error, 'x) io" where
  "connect_pubsub_client G =
     io_bind (io_map_err Auth (on_world (pubsub_config_with_auth G))) (\<lambda>config.
       io_map_err PubsubClient (on_world (pubsub_client_new G config)))"

subsection \<open>The envelope\<close>

text \<open>The headers are a \<open>HashMap\<close>: a finite map.\<close>

record 'a message_content =
  mc_headers :: "(string, string) fmap"
  mc_data :: 'a

definition message_content_new :: "'a \<Rightarrow> 'a message_content" where
  "message_content_new data = \<lparr>mc_headers = fmempty, mc_data = data\<rparr>"

definition header_set :: "string \<Rightarrow> string \<Rightarrow> 'a message_content \<Rightarrow> 'a message_content" where
  "header_set key value m = m\<lparr>mc_headers := fmupd key value (mc_headers m)\<rparr>"

definition header_get :: "'a message_content \<Rightarrow> string \<Rightarrow> string option" where
  "header_get m key = fmlookup (mc_headers m) key"

definition header_keys :: "'a message_content \<Rightarrow> string fset" where
  "header_keys m = fmdom (mc_headers m)"

text \<open>\<open>inject_context\<close>: the propagator calls \<open>set\<close> for each header of the current context.\<close>

definition inject_context :: "(string \<times> string) list \<Rightarrow> 'a message_content \<Rightarrow> 'a message_content" where
  "inject_context headers m = fold (\<lambda>(key, value). header_set key value) headers m"

definition extract_context :: "('w, 'x) gcp_env \<Rightarrow> 'a message_content \<Rightarrow> string list" where
  "extract_context G m = propagator_extract G (header_get m)"

lemma header_set_data [simp]: "mc_data (header_set k v m) = mc_data m"
  by (simp add: header_set_def)

lemma inject_context_data [simp]: "mc_data (inject_context hs m) = mc_data m"
  by (induction hs arbitrary: m) (auto simp: inject_context_def)

subsection \<open>Services in memory\<close>

text \<open>
  Small services on which the properties are applied: a key-value map for Redis, and a log of
  what was published and answered.  A client object is a number; the received message of a
  number carries it as its \<open>Msg-Id\<close> and as its data.
\<close>

record memory_services =
  mg_keys :: "string \<rightharpoonup> bytes"
  mg_published :: "pubsub_message list"
  mg_answers :: "(nat \<times> ack_kind) list"

definition memory_gcp :: "(memory_services, nat) gcp_env" where
  "memory_gcp =
     \<lparr>instant_now = (\<lambda>w. 0),
      hex_encode_bytes = (\<lambda>bs. ''hex''),
      redis_open = (\<lambda>url. Inr 0),
      redis_get_connection = (\<lambda>client. io_ok 0),
      redis_ping = (\<lambda>conn. io_ok ()),
      redis_get = (\<lambda>conn k w. (Inr (mg_keys w k), w)),
      redis_set = (\<lambda>conn k v w. (Inr (), w\<lparr>mg_keys := (mg_keys w)(k \<mapsto> v)\<rparr>)),
      redis_exists = (\<lambda>conn k w. (Inr (mg_keys w k \<noteq> None), w)),
      redis_set_ex = (\<lambda>conn k v secs w. (Inr ''OK'', w\<lparr>mg_keys := (mg_keys w)(k \<mapsto> map of_char v)\<rparr>)),
      pubsub_config_with_auth = io_ok 0,
      pubsub_client_new = (\<lambda>cfg. io_ok 0),
      topic_exists = (\<lambda>client topic. io_ok True),
      topic_full_name = (\<lambda>client topic. topic),
      topic_new_publisher = (\<lambda>client topic cfg. 0),
      pubsub_publish = (\<lambda>p m w. (length (mg_published w), w\<lparr>mg_published := mg_published w @ [m]\<rparr>)),
      pubsub_publish_bulk = (\<lambda>p ms w.
        (map (\<lambda>i. length (mg_published w) + i) [0..<length ms], w\<lparr>mg_published := mg_published w @ ms\<rparr>)),
      awaiter_get = (\<lambda>h. io_ok (dec_nat h)),
      subscription_exists = (\<lambda>client sub. io_ok True),
      subscription_full_name = (\<lambda>client sub. sub),
      received_message = (\<lambda>n. \<lparr>ps_data = [of_nat n], ps_attributes = [''Msg-Id'' \<mapsto> dec_nat n]\<rparr>),
      received_ack = (\<lambda>n. io_do (\<lambda>w. w\<lparr>mg_answers := (n, Ack) # mg_answers w\<rparr>)),
      received_nack = (\<lambda>n. io_do (\<lambda>w. w\<lparr>mg_answers := (n, Nak) # mg_answers w\<rparr>)),
      received_modify_ack_deadline = (\<lambda>n d. io_do (\<lambda>w. w\<lparr>mg_answers := (n, Progress) # mg_answers w\<rparr>)),
      propagator_headers = (\<lambda>w. [(''traceparent'', ''00'')]),
      propagator_extract = (\<lambda>get. [])\<rparr>"

definition memory_services_start :: memory_services where
  "memory_services_start = \<lparr>mg_keys = Map.empty, mg_published = [], mg_answers = []\<rparr>"

end
