(* ===== verification/Redis_Store.thy ===== *)
theory Redis_Store
  imports Gcp_Common
begin

text \<open>
  The Redis key-value store of \<open>gcp/kv_store.rs\<close>, with its metric counters.  \<open>set\<close> and \<open>get\<close>
  of the \<open>redis\<close> crate are fields of \<open>gcp_env\<close>; what is relied on of them is \<open>redis_ok\<close>,
  stated over a view of the values the server holds.
\<close>

record kv_metrics =
  km_writes :: nat
  km_reads :: nat
  km_errors :: nat
  km_attributes :: "string \<times> string"

record 'w kv_state = "'w gcp_state" +
  kv_metrics :: kv_metrics

definition kv_metrics_new :: "string \<Rightarrow> kv_metrics" where
  "kv_metrics_new key =
     \<lparr>km_writes = 0, km_reads = 0, km_errors = 0, km_attributes = (''kvstore.key.name'', key)\<rparr>"

definition kv_record_read :: "('w, 'z) kv_state_scheme \<Rightarrow> ('w, 'z) kv_state_scheme" where
  "kv_record_read st = st\<lparr>kv_metrics := (kv_metrics st)\<lparr>km_reads := km_reads (kv_metrics st) + 1\<rparr>\<rparr>"

definition kv_record_write :: "('w, 'z) kv_state_scheme \<Rightarrow> ('w, 'z) kv_state_scheme" where
  "kv_record_write st = st\<lparr>kv_metrics := (kv_metrics st)\<lparr>km_writes := km_writes (kv_metrics st) + 1\<rparr>\<rparr>"

definition kv_record_error :: "('w, 'z) kv_state_scheme \<Rightarrow> ('w, 'z) kv_state_scheme" where
  "kv_record_error st = st\<lparr>kv_metrics := (kv_metrics st)\<lparr>km_errors := km_errors (kv_metrics st) + 1\<rparr>\<rparr>"

record 'x redis_client =
  rc_key :: string
  rc_connection :: 'x

text \<open>The metrics of the client start with its connection.\<close>

definition redis_connect ::
  "('w, 'x) gcp_env \<Rightarrow> string \<Rightarrow> string \<Rightarrow> (('w, 'z) kv_state_scheme, gcp_error, 'x redis_client) io" where
  "redis_connect G key connection =
     io_bind (io_lift (map_err Connection (redis_open G connection))) (\<lambda>client.
       io_bind (io_map_err Connection (on_world (redis_get_connection G client))) (\<lambda>conn.
         io_bind (io_do (\<lambda>st. st\<lparr>kv_metrics := kv_metrics_new key\<rparr>)) (\<lambda>_.
           io_ok \<lparr>rc_key = key, rc_connection = conn\<rparr>)))"

definition redis_client_ping ::
  "('w, 'x) gcp_env \<Rightarrow> 'x redis_client \<Rightarrow> (('w, 'z) kv_state_scheme, ext_error, unit) io" where
  "redis_client_ping G R =
     io_inspect_err kv_record_error (on_world (redis_ping G (rc_connection R)))"

definition redis_upsert ::
  "('w, 'x) gcp_env \<Rightarrow> 'a borsh_type \<Rightarrow> ('a \<Rightarrow> string) \<Rightarrow> 'x redis_client \<Rightarrow> 'a \<Rightarrow>
     (('w, 'z) kv_state_scheme, gcp_error, unit) io" where
  "redis_upsert G C to_string R value =
     io_bind (io_lift (map_err (RedisSerialize (to_string value)) (to_vec C value))) (\<lambda>bs.
       io_bind (io_map_err RedisSave (on_world (redis_set G (rc_connection R) (rc_key R) bs))) (\<lambda>_.
         io_bind (io_do kv_record_write) (\<lambda>_. io_ok ())))"

definition redis_update ::
  "('w, 'x) gcp_env \<Rightarrow> 'a borsh_type \<Rightarrow> ('a \<Rightarrow> string) \<Rightarrow> 'x redis_client \<Rightarrow> 'a with_revision \<Rightarrow>
     (('w, 'z) kv_state_scheme, gcp_error, u64) io" where
  "redis_update G C to_string R d =
     io_bind (io_inspect_err kv_record_error (redis_upsert G C to_string R (wr_value d)))
       (\<lambda>_. io_ok 0)"

definition redis_put ::
  "('w, 'x) gcp_env \<Rightarrow> 'a borsh_type \<Rightarrow> ('a \<Rightarrow> string) \<Rightarrow> 'x redis_client \<Rightarrow> 'a \<Rightarrow>
     (('w, 'z) kv_state_scheme, gcp_error, u64) io" where
  "redis_put G C to_string R value =
     io_bind (io_inspect_err kv_record_error (redis_upsert G C to_string R value)) (\<lambda>_. io_ok 0)"

text \<open>
  \<open>get\<close>: the argument of the first \<open>map_err\<close> is a block, evaluated whether or not the call
  failed: it counts an error and its value is the constructor \<open>RedisGet\<close>.
\<close>

definition redis_client_get ::
  "('w, 'x) gcp_env \<Rightarrow> 'a borsh_type \<Rightarrow> 'x redis_client \<Rightarrow>
     (('w, 'z) kv_state_scheme, gcp_error, 'a with_revision option) io" where
  "redis_client_get G C R st =
     (let (got, st1) = on_world (redis_get G (rc_connection R) (rc_key R)) st;
          st2 = kv_record_error st1
      in case map_err RedisGet got of
           Inl err \<Rightarrow> (Inl err, st2)
         | Inr None \<Rightarrow> (Inr None, st2)
         | Inr (Some bs) \<Rightarrow>
             (case map_err (RedisDeserialize (hex_encode_bytes G bs)) (from_slice C bs) of
                Inl err \<Rightarrow> (Inl err, kv_record_error st2)
              | Inr value \<Rightarrow> (Inr (Some \<lparr>wr_value = value, wr_revision = 0\<rparr>), kv_record_read st2)))"

subsection \<open>What the operations return and record\<close>

lemma kv_record_simps [simp]:
  "gs_world (kv_record_read st) = gs_world st" "gs_world (kv_record_write st) = gs_world st"
  "gs_world (kv_record_error st) = gs_world st"
  by (simp_all add: kv_record_read_def kv_record_write_def kv_record_error_def)

lemma kv_record_counts [metric_simps]:
  "km_errors (kv_metrics (kv_record_error st)) = km_errors (kv_metrics st) + 1"
  "km_errors (kv_metrics (kv_record_read st)) = km_errors (kv_metrics st)"
  "km_errors (kv_metrics (kv_record_write st)) = km_errors (kv_metrics st)"
  "km_reads (kv_metrics (kv_record_error st)) = km_reads (kv_metrics st)"
  "km_reads (kv_metrics (kv_record_read st)) = km_reads (kv_metrics st) + 1"
  "km_writes (kv_metrics (kv_record_error st)) = km_writes (kv_metrics st)"
  "km_writes (kv_metrics (kv_record_write st)) = km_writes (kv_metrics st) + 1"
  by (simp_all add: kv_record_read_def kv_record_write_def kv_record_error_def)

lemma on_world_kv_metrics [simp]:
  "on_world m st = (r, st') \<Longrightarrow> kv_metrics st' = kv_metrics st"
  by (auto simp: io_cases)

lemma redis_upsert_ok:
  "redis_upsert G C sh R v st = (Inr (), st') \<longleftrightarrow>
     (\<exists>bs w'. to_vec C v = Inr bs \<and> redis_set G (rc_connection R) (rc_key R) bs (gs_world st) = (Inr (), w') \<and>
        st' = kv_record_write (st\<lparr>gs_world := w'\<rparr>))"
  by (auto simp: redis_upsert_def io_cases)

subsection \<open>What is relied on of Redis\<close>

text \<open>\<open>V w k\<close> is the value the server holds at the key \<open>k\<close>; no one else writes between calls.\<close>

definition redis_ok :: "('w, 'x) gcp_env \<Rightarrow> ('w \<Rightarrow> string \<rightharpoonup> bytes) \<Rightarrow> 'x \<Rightarrow> bool" where
  "redis_ok G V conn \<longleftrightarrow>
     (\<forall>k v w w'. redis_set G conn k v w = (Inr (), w') \<longrightarrow> V w' = (V w)(k \<mapsto> v)) \<and>
     (\<forall>k w v w'. redis_get G conn k w = (Inr v, w') \<longrightarrow> v = V w k \<and> V w' = V w)"

record ('w, 'x, 'a) redis_store =
  rs_env :: "('w, 'x) gcp_env"
  rs_view :: "'w \<Rightarrow> string \<rightharpoonup> bytes"
  rs_codec :: "'a borsh_type"
  rs_show :: "'a \<Rightarrow> string"
  rs_client :: "'x redis_client"

definition redis_store_ok :: "('w, 'x, 'a) redis_store \<Rightarrow> bool" where
  "redis_store_ok S \<longleftrightarrow>
     redis_ok (rs_env S) (rs_view S) (rc_connection (rs_client S)) \<and> borsh_type_ok (rs_codec S)"

definition redis_holds :: "('w, 'x, 'a) redis_store \<Rightarrow> ('w, 'z) kv_state_scheme \<Rightarrow> 'a option \<Rightarrow> bool" where
  "redis_holds S st v \<longleftrightarrow>
     (case v of
        None \<Rightarrow> rs_view S (gs_world st) (rc_key (rs_client S)) = None
      | Some a \<Rightarrow> \<exists>bs. rs_view S (gs_world st) (rc_key (rs_client S)) = Some bs \<and>
          from_slice (rs_codec S) bs = Inr a)"

lemma redis_upsert_holds:
  assumes "redis_store_ok S"
    and "redis_upsert (rs_env S) (rs_codec S) (rs_show S) (rs_client S) v st = (Inr (), st')"
  shows "redis_holds S st' (Some v)"
proof -
  obtain bs w' where "to_vec (rs_codec S) v = Inr bs"
    "redis_set (rs_env S) (rc_connection (rs_client S)) (rc_key (rs_client S)) bs (gs_world st) = (Inr (), w')"
    "st' = kv_record_write (st\<lparr>gs_world := w'\<rparr>)"
    using assms(2) unfolding redis_upsert_ok by blast
  moreover from this have "rs_view S w' = (rs_view S (gs_world st))(rc_key (rs_client S) \<mapsto> bs)"
    using assms(1) unfolding redis_store_ok_def redis_ok_def by blast
  ultimately show ?thesis
    using assms(1) borsh_type_okD [of "rs_codec S" v bs]
    by (simp add: redis_holds_def redis_store_ok_def)
qed

lemma redis_client_get_cases:
  assumes "redis_client_get G C R st = (r, st')"
  obtains (failed) e w' where "redis_get G (rc_connection R) (rc_key R) (gs_world st) = (Inl e, w')"
      "r = Inl (RedisGet e)" "st' = kv_record_error (st\<lparr>gs_world := w'\<rparr>)"
  | (missing) w' where "redis_get G (rc_connection R) (rc_key R) (gs_world st) = (Inr None, w')"
      "r = Inr None" "st' = kv_record_error (st\<lparr>gs_world := w'\<rparr>)"
  | (broken) bs e w' where "redis_get G (rc_connection R) (rc_key R) (gs_world st) = (Inr (Some bs), w')"
      "from_slice C bs = Inl e" "r = Inl (RedisDeserialize (hex_encode_bytes G bs) e)"
      "st' = kv_record_error (kv_record_error (st\<lparr>gs_world := w'\<rparr>))"
  | (found) bs v w' where "redis_get G (rc_connection R) (rc_key R) (gs_world st) = (Inr (Some bs), w')"
      "from_slice C bs = Inr v" "r = Inr (Some \<lparr>wr_value = v, wr_revision = 0\<rparr>)"
      "st' = kv_record_read (kv_record_error (st\<lparr>gs_world := w'\<rparr>))"
proof -
  obtain got w' where got: "redis_get G (rc_connection R) (rc_key R) (gs_world st) = (got, w')"
    by force
  show ?thesis
  proof (cases got)
    case (Inl e)
    with assms got failed show ?thesis by (simp add: redis_client_get_def on_world_def)
  next
    case (Inr v)
    show ?thesis
    proof (cases v)
      case None
      with Inr assms got missing show ?thesis by (simp add: redis_client_get_def on_world_def)
    next
      case (Some bs)
      with Inr assms got broken found show ?thesis
        by (cases "from_slice C bs") (simp_all add: redis_client_get_def on_world_def)
    qed
  qed
qed

lemma redis_client_get_holds:
  assumes ok: "redis_store_ok S" and holds: "redis_holds S st known"
    and run: "redis_client_get (rs_env S) (rs_codec S) (rs_client S) st = (Inr x, st')"
  shows "map_option wr_value x = known \<and> redis_holds S st' known"
proof -
  have got: "v = rs_view S w k \<and> rs_view S w' = rs_view S w"
    if "redis_get (rs_env S) (rc_connection (rs_client S)) k w = (Inr v, w')" for k w v w'
    using ok that unfolding redis_store_ok_def redis_ok_def by blast
  from run show ?thesis
  proof (cases rule: redis_client_get_cases)
    case (missing w')
    with got [OF missing(1)] holds show ?thesis
      by (auto simp: redis_holds_def split: option.splits)
  next
    case (found bs v w')
    with got [OF found(1)] holds show ?thesis
      by (auto simp: redis_holds_def split: option.splits)
  qed simp_all
qed

interpretation redis_kv: kv_store redis_store_ok redis_holds
  "\<lambda>S. redis_update (rs_env S) (rs_codec S) (rs_show S) (rs_client S)"
  "\<lambda>S. redis_put (rs_env S) (rs_codec S) (rs_show S) (rs_client S)"
  "\<lambda>S. redis_client_get (rs_env S) (rs_codec S) (rs_client S)"
proof (unfold_locales, goal_cases)
  case (1 S d st r st')
  then show ?case by (auto simp: redis_update_def io_cases intro: redis_upsert_holds)
next
  case (2 S v st r st')
  then show ?case by (auto simp: redis_put_def io_cases intro: redis_upsert_holds)
next
  case (3 S st known x st')
  then show ?case by (rule redis_client_get_holds)
qed

subsection \<open>Properties\<close>

text \<open>Every \<open>get\<close> of the Redis store counts an error, also when it succeeds: the counter
  goes up by one on a successful read, on a missing key and on a failed call, and by two when
  the stored value cannot be decoded.\<close>

theorem redis_get_always_counts_error:
  "km_errors (kv_metrics (snd (redis_client_get G C R st))) =
     km_errors (kv_metrics st) +
     (case fst (redis_client_get G C R st) of Inl (RedisDeserialize _ _) \<Rightarrow> 2 | _ \<Rightarrow> 1)"
proof -
  obtain r st' where run: "redis_client_get G C R st = (r, st')" by force
  then show ?thesis
    by (cases rule: redis_client_get_cases) (simp_all add: run metric_simps)
qed

end
