(* ===== verification/Supervisor.thy ===== *)
theory Supervisor
  imports Prelude "HOL-Library.Multiset"
begin

text \<open>
  The supervisor (crate \<open>supervisor\<close>): it builds the workers, runs each of them in a thread of
  its own, and restarts a worker whose crash is reported to it over a channel, until the token
  is cancelled.

  The supervisor's thread, the workers' threads and the owner of the token interleave; an event
  is one atomic action of one of them, and \<open>sup_do\<close> is what it does to the shared state, \<open>None\<close>
  where it is not possible.  What a builder and a worker return is left open: both outcomes are
  events.  A round of work that succeeds, a tick without cancellation and a look into an empty
  channel change nothing and are no events.  The supervisor's thread holds a sender of its own,
  so the channel is never disconnected while it receives.
\<close>

type_synonym worker_name = string

subsection \<open>State\<close>

text \<open>What ends the loop of a worker: \<open>do_work\<close> failed, it panicked, or the token was cancelled.\<close>

datatype work_end = WorkError | WorkPanic | WorkCancelled

text \<open>
  A thread of a worker: spawned; in its loop; after the loop; about to send its report; past its
  last action; ended; ended by a panic of its own.
\<close>

datatype thread_status = Starting | Running | Ended work_end | Reporting | Leaving | Exited | Crashed

text \<open>
  Where the supervisor's thread is: building the workers of the list; in its loop; restarting a
  worker; joining an old thread after it spawned a new one; in the grace period of the shutdown;
  done; panicked on a report without a builder; ended by a panic of a builder or of the signal
  that all workers were started (debug builds).
\<close>

datatype sup_phase =
    Startup "worker_name list"
  | Loop
  | Restarting worker_name
  | Joining worker_name nat nat
  | Draining
  | Finished
  | Panicked
  | Aborted

record supervision =
  sv_cancelled :: bool
  sv_channel :: "worker_name list"
  sv_phase :: sup_phase
  sv_threads :: "(worker_name \<times> thread_status) list"
  sv_active :: "worker_name \<rightharpoonup> nat"

definition supervision_start :: "worker_name list \<Rightarrow> supervision" where
  "supervision_start names =
     \<lparr>sv_cancelled = False, sv_channel = [], sv_phase = Startup names, sv_threads = [],
      sv_active = Map.empty\<rparr>"

subsection \<open>The supervisor's thread\<close>

text \<open>\<open>NoRuntime\<close>: the thread cannot create its runtime and returns at once.\<close>

datatype sup_event =
    NoRuntime | BuildOk | BuildFailed | BuildPanicked | Ready | ReadyFailed | Tick | Receive | Joined | Grace

text \<open>The receiver of the reports lives as long as the supervisor's thread.\<close>

definition receiver_gone :: "supervision \<Rightarrow> bool" where
  "receiver_gone s \<longleftrightarrow> sv_phase s \<in> {Finished, Panicked, Aborted}"

definition spawn_thread :: "worker_name \<Rightarrow> supervision \<Rightarrow> supervision" where
  "spawn_thread n s = s\<lparr>sv_threads := sv_threads s @ [(n, Starting)]\<rparr>"

definition send_report :: "worker_name \<Rightarrow> supervision \<Rightarrow> supervision" where
  "send_report n s = s\<lparr>sv_channel := sv_channel s @ [n]\<rparr>"

definition startup_do :: "worker_name \<Rightarrow> worker_name list \<Rightarrow> bool \<Rightarrow> supervision \<Rightarrow> supervision" where
  "startup_do n ns built s =
     (if built
      then (spawn_thread n s)\<lparr>sv_active := (sv_active s)(n \<mapsto> length (sv_threads s)), sv_phase := Startup ns\<rparr>
      else (send_report n s)\<lparr>sv_phase := Startup ns\<rparr>)"

text \<open>A report received while the token is cancelled is dropped.\<close>

definition receive_do :: "worker_name list \<Rightarrow> worker_name \<Rightarrow> worker_name list \<Rightarrow> supervision \<Rightarrow> supervision" where
  "receive_do names n rest s =
     s\<lparr>sv_channel := rest,
       sv_phase := (if sv_cancelled s then Loop else if n \<in> set names then Restarting n else Panicked)\<rparr>"

definition restart_do :: "worker_name \<Rightarrow> bool \<Rightarrow> supervision \<Rightarrow> supervision" where
  "restart_do n built s =
     (if built
      then let new = length (sv_threads s); s' = spawn_thread n s
           in case sv_active s n of
                Some old \<Rightarrow> s'\<lparr>sv_active := (sv_active s)(n := None), sv_phase := Joining n old new\<rparr>
              | None \<Rightarrow> s'\<lparr>sv_active := (sv_active s)(n \<mapsto> new), sv_phase := Loop\<rparr>
      else (send_report n s)\<lparr>sv_phase := Loop\<rparr>)"

fun sup_do :: "worker_name list \<Rightarrow> sup_event \<Rightarrow> supervision \<Rightarrow> supervision option" where
  "sup_do names NoRuntime s =
     (if sv_phase s = Startup names \<and> sv_threads s = [] \<and> sv_channel s = []
      then Some (s\<lparr>sv_phase := Finished\<rparr>) else None)"
| "sup_do names BuildOk s =
     (case sv_phase s of
        Startup (n # ns) \<Rightarrow> Some (startup_do n ns True s)
      | Restarting n \<Rightarrow> Some (restart_do n True s)
      | _ \<Rightarrow> None)"
| "sup_do names BuildFailed s =
     (case sv_phase s of
        Startup (n # ns) \<Rightarrow> Some (startup_do n ns False s)
      | Restarting n \<Rightarrow> Some (restart_do n False s)
      | _ \<Rightarrow> None)"
| "sup_do names BuildPanicked s =
     (case sv_phase s of
        Startup (n # ns) \<Rightarrow> Some (s\<lparr>sv_phase := Aborted\<rparr>)
      | Restarting n \<Rightarrow> Some (s\<lparr>sv_phase := Aborted\<rparr>)
      | _ \<Rightarrow> None)"
| "sup_do names Ready s = (if sv_phase s = Startup [] then Some (s\<lparr>sv_phase := Loop\<rparr>) else None)"
| "sup_do names ReadyFailed s = (if sv_phase s = Startup [] then Some (s\<lparr>sv_phase := Aborted\<rparr>) else None)"
| "sup_do names Tick s =
     (if sv_phase s = Loop \<and> sv_cancelled s then Some (s\<lparr>sv_phase := Draining\<rparr>) else None)"
| "sup_do names Receive s =
     (case sv_phase s of
        Loop \<Rightarrow> (case sv_channel s of n # rest \<Rightarrow> Some (receive_do names n rest s) | [] \<Rightarrow> None)
      | _ \<Rightarrow> None)"
| "sup_do names Joined s =
     (case sv_phase s of
        Joining n old new \<Rightarrow>
          (if snd (sv_threads s ! old) \<in> {Exited, Crashed}
           then Some (s\<lparr>sv_active := (sv_active s)(n \<mapsto> new), sv_phase := Loop\<rparr>) else None)
      | _ \<Rightarrow> None)"
| "sup_do names Grace s = (if sv_phase s = Draining then Some (s\<lparr>sv_phase := Finished\<rparr>) else None)"

subsection \<open>The threads of the workers\<close>

datatype worker_event = RuntimeOk | RuntimeFailed | DoWorkFailed | DoWorkPanicked | Stop | Check | Report | Leave

definition set_status :: "nat \<Rightarrow> worker_name \<Rightarrow> thread_status \<Rightarrow> supervision \<Rightarrow> supervision" where
  "set_status i n st s = s\<lparr>sv_threads := (sv_threads s)[i := (n, st)]\<rparr>"

text \<open>
  The closure \<open>spawn_worker\<close> runs.  Without a runtime it reports and panics if nobody
  receives any more; otherwise, when its loop has ended, it reports only if the token is
  cancelled.  The receiver is gone once the supervisor's thread is done.
\<close>

fun worker_do :: "worker_event \<Rightarrow> nat \<Rightarrow> worker_name \<Rightarrow> thread_status \<Rightarrow> supervision \<Rightarrow> supervision option" where
  "worker_do RuntimeOk i n Starting s = Some (set_status i n Running s)"
| "worker_do RuntimeFailed i n Starting s =
     (if receiver_gone s then Some (set_status i n Crashed s)
      else Some (send_report n (set_status i n Leaving s)))"
| "worker_do DoWorkFailed i n Running s = Some (set_status i n (Ended WorkError) s)"
| "worker_do DoWorkPanicked i n Running s = Some (set_status i n (Ended WorkPanic) s)"
| "worker_do Stop i n Running s =
     (if sv_cancelled s then Some (set_status i n (Ended WorkCancelled) s) else None)"
| "worker_do Check i n (Ended e) s =
     (if sv_cancelled s then Some (set_status i n Reporting s) else Some (set_status i n Leaving s))"
| "worker_do Report i n Reporting s =
     (if receiver_gone s then Some (set_status i n Leaving s)
      else Some (send_report n (set_status i n Leaving s)))"
| "worker_do Leave i n Leaving s = Some (set_status i n Exited s)"
| "worker_do _ i n _ s = None"

text \<open>One event of the whole: of the supervisor, of the thread \<open>i\<close>, or the cancellation.\<close>

datatype event = Sup sup_event | Thread nat worker_event | Cancel

fun event_do :: "worker_name list \<Rightarrow> event \<Rightarrow> supervision \<Rightarrow> supervision option" where
  "event_do names (Sup e) s = sup_do names e s"
| "event_do names (Thread i e) s =
     (if i < length (sv_threads s)
      then worker_do e i (fst (sv_threads s ! i)) (snd (sv_threads s ! i)) s else None)"
| "event_do names Cancel s = (if sv_cancelled s then None else Some (s\<lparr>sv_cancelled := True\<rparr>))"

fun events_do :: "worker_name list \<Rightarrow> event list \<Rightarrow> supervision \<Rightarrow> supervision option" where
  "events_do names [] s = Some s"
| "events_do names (e # es) s = (case event_do names e s of Some t \<Rightarrow> events_do names es t | None \<Rightarrow> None)"

inductive sup_steps :: "worker_name list \<Rightarrow> nat \<Rightarrow> supervision \<Rightarrow> supervision \<Rightarrow> bool" for names where
  none: "sup_steps names 0 s s"
| more: "sup_steps names k s t \<Longrightarrow> event_do names e t = Some u \<Longrightarrow> sup_steps names (Suc k) s u"

subsection \<open>Tokens\<close>

text \<open>
  The right to run a worker is a token: it is held by the list of the workers still to be
  built, by the thread of the worker until its last action, by a report in the channel, or by
  the supervisor while it restarts the worker.
\<close>

fun live_status :: "thread_status \<Rightarrow> bool" where
  "live_status Leaving = False"
| "live_status Exited = False"
| "live_status Crashed = False"
| "live_status _ = True"

definition live :: "worker_name \<Rightarrow> supervision \<Rightarrow> nat" where
  "live n s = length (filter (\<lambda>(m, st). m = n \<and> live_status st) (sv_threads s))"

definition spawned :: "worker_name \<Rightarrow> supervision \<Rightarrow> nat" where
  "spawned n s = length (filter (\<lambda>(m, st). m = n) (sv_threads s))"

fun phase_tokens :: "worker_name \<Rightarrow> sup_phase \<Rightarrow> nat" where
  "phase_tokens n (Startup ns) = count_list ns n"
| "phase_tokens n (Restarting m) = (if m = n then 1 else 0)"
| "phase_tokens n _ = 0"

definition tokens :: "worker_name \<Rightarrow> supervision \<Rightarrow> nat" where
  "tokens n s = live n s + count_list (sv_channel s) n + phase_tokens n (sv_phase s)"

lemma spawn_thread_simps [simp]:
  "sv_cancelled (spawn_thread n s) = sv_cancelled s" "sv_channel (spawn_thread n s) = sv_channel s"
  "sv_phase (spawn_thread n s) = sv_phase s" "sv_active (spawn_thread n s) = sv_active s"
  "sv_threads (spawn_thread n s) = sv_threads s @ [(n, Starting)]"
  by (simp_all add: spawn_thread_def)

lemma send_report_simps [simp]:
  "sv_cancelled (send_report n s) = sv_cancelled s" "sv_channel (send_report n s) = sv_channel s @ [n]"
  "sv_phase (send_report n s) = sv_phase s" "sv_active (send_report n s) = sv_active s"
  "sv_threads (send_report n s) = sv_threads s"
  by (simp_all add: send_report_def)

lemma set_status_simps [simp]:
  "sv_cancelled (set_status i n st s) = sv_cancelled s" "sv_channel (set_status i n st s) = sv_channel s"
  "sv_phase (set_status i n st s) = sv_phase s" "sv_active (set_status i n st s) = sv_active s"
  "sv_threads (set_status i n st s) = (sv_threads s)[i := (n, st)]"
  by (simp_all add: set_status_def)

lemmas sup_step_defs = startup_do_def receive_do_def restart_do_def Let_def receiver_gone_def

text \<open>What an event of a thread can be: it moves on, keeping or giving up its token, or it sends it.\<close>

lemma worker_do_moves:
  assumes "worker_do e i n st s = Some t"
  shows "\<exists>st'. t = set_status i n st' s \<and> (live_status st' \<longrightarrow> live_status st) \<or>
    t = send_report n (set_status i n st' s) \<and> live_status st \<and> \<not> live_status st'"
  using assms by (rule worker_do.elims) (force split: if_splits)+

lemma live_set_status:
  assumes "i < length (sv_threads s)" "fst (sv_threads s ! i) = n"
  shows "live m (set_status i n st' s) + (if m = n \<and> live_status (snd (sv_threads s ! i)) then 1 else 0) =
    live m s + (if m = n \<and> live_status st' then 1 else 0)"
  using length_filter_update [OF assms(1), of "\<lambda>(k, st). k = m \<and> live_status st" "(n, st')"] assms(2)
  by (cases "sv_threads s ! i") (auto simp: live_def)

lemma spawned_set_status:
  assumes "i < length (sv_threads s)" "fst (sv_threads s ! i) = n"
  shows "spawned m (set_status i n st' s) = spawned m s"
  using length_filter_update [OF assms(1), of "\<lambda>(k, st). k = m" "(n, st')"] assms(2)
  by (cases "sv_threads s ! i") (auto simp: spawned_def split: if_splits)

lemma live_send_report [simp]: "live m (send_report n s) = live m s" "spawned m (send_report n s) = spawned m s"
  by (simp_all add: live_def spawned_def)

lemma live_spawn_thread [simp]:
  "live m (spawn_thread n s) = live m s + (if m = n then 1 else 0)"
  "spawned m (spawn_thread n s) = spawned m s + (if m = n then 1 else 0)"
  by (simp_all add: live_def spawned_def)

lemma live_cong: "sv_threads s = sv_threads t \<Longrightarrow> live m s = live m t \<and> spawned m s = spawned m t"
  by (simp add: live_def spawned_def)

lemma tokens_worker:
  assumes "i < length (sv_threads s)"
    and "worker_do e i (fst (sv_threads s ! i)) (snd (sv_threads s ! i)) s = Some t"
  shows "tokens m t \<le> tokens m s \<and> spawned m t = spawned m s"
proof -
  let ?n = "fst (sv_threads s ! i)" and ?st = "snd (sv_threads s ! i)"
  from worker_do_moves [OF assms(2)] obtain st' where
    t: "t = set_status i ?n st' s \<and> (live_status st' \<longrightarrow> live_status ?st) \<or>
      t = send_report ?n (set_status i ?n st' s) \<and> live_status ?st \<and> \<not> live_status st'" by blast
  have counts: "live m (set_status i ?n st' s) + (if m = ?n \<and> live_status ?st then 1 else 0) =
      live m s + (if m = ?n \<and> live_status st' then 1 else 0)"
    "spawned m (set_status i ?n st' s) = spawned m s"
    using live_set_status [OF assms(1) refl] spawned_set_status [OF assms(1) refl] by auto
  from t show ?thesis
    using counts by (elim disjE conjE) (auto simp: tokens_def split: if_splits)
qed

text \<open>A new thread takes its token from the list of the workers to build or from the restart.\<close>

lemma tokens_sup:
  assumes "sup_do names e s = Some t"
  shows "tokens m t \<le> tokens m s \<and> (spawned m t = spawned m s \<or> tokens m s \<noteq> 0)"
  using assms live_cong [of t s m]
  by (cases e; cases "sv_phase s")
    (auto simp: tokens_def sup_step_defs live_def spawned_def split: if_splits list.splits option.splits)

lemma tokens_step:
  assumes "event_do names e s = Some t"
  shows "tokens m t \<le> tokens m s \<and> (spawned m t = spawned m s \<or> tokens m s \<noteq> 0)"
  using assms tokens_sup tokens_worker live_cong [of t s m]
  by (cases e) (force simp: tokens_def split: if_splits)+

lemma tokens_steps:
  "sup_steps names k s t \<Longrightarrow> tokens m t \<le> tokens m s \<and> (spawned m t = spawned m s \<or> tokens m s \<noteq> 0)"
proof (induction rule: sup_steps.induct)
  case (more k s t e u)
  then show ?case using tokens_step [OF more.hyps(2), of m] by force
qed simp

subsection \<open>Invariant\<close>

definition thread_of :: "supervision \<Rightarrow> worker_name \<Rightarrow> nat \<Rightarrow> bool" where
  "thread_of s n i \<longleftrightarrow> i < length (sv_threads s) \<and> fst (sv_threads s ! i) = n"

text \<open>Every name in use is that of a builder.\<close>

definition names_ok :: "worker_name list \<Rightarrow> supervision \<Rightarrow> bool" where
  "names_ok names s \<longleftrightarrow>
     set (sv_channel s) \<subseteq> set names \<and> list_all (\<lambda>(n, st). n \<in> set names) (sv_threads s) \<and>
     (case sv_phase s of Startup ns \<Rightarrow> set ns \<subseteq> set names | Restarting n \<Rightarrow> n \<in> set names
        | Panicked \<Rightarrow> False | _ \<Rightarrow> True)"

definition joining_ok :: "supervision \<Rightarrow> bool" where
  "joining_ok s \<longleftrightarrow>
     (case sv_phase s of
        Joining n old new \<Rightarrow> thread_of s n old \<and> thread_of s n new \<and> \<not> live_status (snd (sv_threads s ! old))
      | _ \<Rightarrow> True)"

definition handles_ok :: "supervision \<Rightarrow> bool" where
  "handles_ok s \<longleftrightarrow> (\<forall>n i. sv_active s n = Some i \<longrightarrow> thread_of s n i)"

definition sup_ok :: "worker_name list \<Rightarrow> supervision \<Rightarrow> bool" where
  "sup_ok names s \<longleftrightarrow> names_ok names s \<and> handles_ok s \<and> joining_ok s \<and> (\<forall>n. tokens n s \<le> 1)"

lemma live_pos:
  assumes "thread_of s n i" "live_status (snd (sv_threads s ! i))"
  shows "live n s > 0"
proof -
  have "sv_threads s ! i \<in> set (filter (\<lambda>(m, st). m = n \<and> live_status st) (sv_threads s))"
    using assms by (cases "sv_threads s ! i") (auto simp: thread_of_def dest: nth_mem)
  then show ?thesis
    unfolding live_def by (metis length_greater_0_conv length_pos_if_in_set)
qed

lemma thread_of_spawn [simp]: "thread_of s n i \<Longrightarrow> thread_of (spawn_thread m s) n i"
  by (simp add: thread_of_def nth_append)

lemma thread_of_new [simp]: "thread_of (spawn_thread n s) n (length (sv_threads s))"
  by (simp add: thread_of_def)

lemma thread_of_cong: "sv_threads s = sv_threads t \<Longrightarrow> thread_of s n i = thread_of t n i"
  by (simp add: thread_of_def)

text \<open>An event of a thread changes the status of that thread and at most adds its own report.\<close>

lemma worker_do_frame:
  assumes "worker_do e i n st s = Some t"
  shows "sv_phase t = sv_phase s" "sv_active t = sv_active s" "sv_cancelled t = sv_cancelled s"
    "sv_channel t = sv_channel s \<or> sv_channel t = sv_channel s @ [n]"
    "\<exists>st'. sv_threads t = (sv_threads s)[i := (n, st')] \<and> (live_status st' \<longrightarrow> live_status st)"
  using worker_do_moves [OF assms] by auto


lemma names_ok_thread:
  assumes "worker_do e i (fst (sv_threads s ! i)) (snd (sv_threads s ! i)) s = Some t"
    and "i < length (sv_threads s)" "names_ok names s"
  shows "names_ok names t"
proof -
  obtain st' where th: "sv_threads t = (sv_threads s)[i := (fst (sv_threads s ! i), st')]"
    using worker_do_frame(5) [OF assms(1)] by blast
  have all: "list_all (\<lambda>(n, st). n \<in> set names) (sv_threads s)"
    using assms(3) by (simp add: names_ok_def)
  then have n: "fst (sv_threads s ! i) \<in> set names"
    using assms(2) by (cases "sv_threads s ! i") (fastforce simp: list_all_length)
  have "list_all (\<lambda>(n, st). n \<in> set names) (sv_threads t)"
    using all n unfolding th list_all_iff
    by (auto dest!: set_update_subset_insert [THEN subsetD])
  with worker_do_frame(1,4) [OF assms(1)] n assms(3) show ?thesis
    by (auto simp: names_ok_def split: sup_phase.splits)
qed

lemma names_ok_sup: "sup_do names e s = Some t \<Longrightarrow> names_ok names s \<Longrightarrow> names_ok names t"
  by (cases e; cases "sv_phase s")
    (auto simp: names_ok_def sup_step_defs split: if_splits list.splits option.splits)

lemma handles_ok_sup: "sup_do names e s = Some t \<Longrightarrow> handles_ok s \<Longrightarrow> joining_ok s \<Longrightarrow> handles_ok t"
  by (cases e; cases "sv_phase s")
    (auto simp: handles_ok_def joining_ok_def sup_step_defs thread_of_def nth_append less_Suc_eq
       split: if_splits list.splits option.splits)

lemma joining_ok_sup:
  assumes "sup_do names e s = Some t" "handles_ok s" "joining_ok s" "\<forall>n. tokens n s \<le> 1"
  shows "joining_ok t"
proof -
  have idle: "\<not> live_status (snd (sv_threads s ! i))" if "sv_phase s = Restarting n" "thread_of s n i" for n i
    using live_pos [OF that(2)] assms(4) [rule_format, of n] that(1) by (auto simp: tokens_def)
  with assms show ?thesis
    by (cases e; cases "sv_phase s")
      (auto simp: joining_ok_def handles_ok_def sup_step_defs thread_of_def nth_append less_Suc_eq
         split: if_splits list.splits option.splits)
qed

lemma thread_of_update [simp]:
  assumes "sv_threads t = (sv_threads s)[i := (fst (sv_threads s ! i), st')]"
  shows "thread_of t m j = thread_of s m j"
  using assms by (cases "i = j") (auto simp: thread_of_def)

lemma update_stays_dead:
  "j < length xs \<Longrightarrow> live_status st' \<longrightarrow> live_status (snd (xs ! i)) \<Longrightarrow> \<not> live_status (snd (xs ! j)) \<Longrightarrow>
     \<not> live_status (snd (xs[i := (n, st')] ! j))"
  by (cases "i = j") auto

lemma joining_ok_thread:
  assumes "worker_do e i (fst (sv_threads s ! i)) (snd (sv_threads s ! i)) s = Some t"
    and "joining_ok s"
  shows "joining_ok t"
proof -
  obtain st' where th: "sv_threads t = (sv_threads s)[i := (fst (sv_threads s ! i), st')]"
    and dead: "live_status st' \<longrightarrow> live_status (snd (sv_threads s ! i))"
    using worker_do_frame(5) [OF assms(1)] by blast
  show ?thesis
    using assms(2) worker_do_frame(1) [OF assms(1)] dead
    by (auto simp: joining_ok_def thread_of_update [OF th] split: sup_phase.splits)
      (use update_stays_dead [OF _ dead] in \<open>auto simp: th thread_of_def\<close>)
qed

lemma sup_ok_step:
  assumes "event_do names e s = Some t" "sup_ok names s"
  shows "sup_ok names t"
proof -
  have "tokens n t \<le> 1" for n
    using tokens_step [OF assms(1), of n] assms(2) le_trans unfolding sup_ok_def by blast
  moreover have "names_ok names t \<and> handles_ok t \<and> joining_ok t"
  proof (cases e)
    case (Sup e')
    with assms show ?thesis
      using names_ok_sup handles_ok_sup joining_ok_sup unfolding sup_ok_def by auto
  next
    case (Thread i e')
    with assms(1) have i: "i < length (sv_threads s)"
      and run: "worker_do e' i (fst (sv_threads s ! i)) (snd (sv_threads s ! i)) s = Some t"
      by (auto split: if_splits)
    obtain st' where th: "sv_threads t = (sv_threads s)[i := (fst (sv_threads s ! i), st')]"
      using worker_do_frame(5) [OF run] by blast
    show ?thesis
      using names_ok_thread [OF run i] joining_ok_thread [OF run] assms(2) worker_do_frame(2) [OF run]
      by (auto simp: sup_ok_def handles_ok_def thread_of_update [OF th])
  next
    case Cancel
    with assms show ?thesis
      by (auto simp: sup_ok_def names_ok_def handles_ok_def joining_ok_def thread_of_def
          split: if_splits sup_phase.splits)
  qed
  ultimately show ?thesis by (simp add: sup_ok_def)
qed

lemma count_list_distinct: "distinct xs \<Longrightarrow> count_list xs x \<le> 1"
  by (induction xs) (auto simp: count_list_0_iff)

lemma sup_ok_start: "distinct names \<Longrightarrow> sup_ok names (supervision_start names)"
  by (auto simp: sup_ok_def supervision_start_def names_ok_def handles_ok_def joining_ok_def tokens_def
      live_def count_list_distinct [simplified])

lemma sup_ok_reachable:
  assumes "distinct names" "sup_steps names k (supervision_start names) s"
  shows "sup_ok names s"
  using assms(2,1) by (induction "supervision_start names" s rule: sup_steps.induct)
    (auto intro: sup_ok_start sup_ok_step)

subsection \<open>The end of a shutdown\<close>

text \<open>
  Once the token is cancelled, every event lowers this measure: a thread has at most six events
  left with its report counted, a worker still to be built brings a thread.
\<close>

fun status_weight :: "thread_status \<Rightarrow> nat" where
  "status_weight Starting = 6"
| "status_weight Running = 5"
| "status_weight (Ended e) = 4"
| "status_weight Reporting = 3"
| "status_weight Leaving = 1"
| "status_weight _ = 0"

fun phase_weight :: "sup_phase \<Rightarrow> nat" where
  "phase_weight (Startup ns) = 7 * length ns + 3"
| "phase_weight Loop = 2"
| "phase_weight (Restarting n) = 10"
| "phase_weight (Joining n old new) = 3"
| "phase_weight Draining = 1"
| "phase_weight _ = 0"

definition shutdown_measure :: "supervision \<Rightarrow> nat" where
  "shutdown_measure s =
     phase_weight (sv_phase s) + length (sv_channel s) + sum_list (map (\<lambda>(n, st). status_weight st) (sv_threads s))"

lemma worker_do_weight:
  assumes "worker_do e i n st s = Some t" "sv_cancelled s"
  shows "\<exists>st'. sv_threads t = (sv_threads s)[i := (n, st')] \<and>
    length (sv_channel t) + status_weight st' < length (sv_channel s) + status_weight st"
  by (insert assms(2); rule worker_do.elims [OF assms(1)]; (clarsimp split: if_splits)?;
      (intro exI conjI, rule refl, simp)?)

lemma shutdown_measure_decreases:
  assumes "event_do names e s = Some t" "sv_cancelled s"
  shows "shutdown_measure t < shutdown_measure s \<and> sv_cancelled t"
proof (cases e)
  case (Sup e')
  with assms show ?thesis
    by (cases e'; cases "sv_phase s")
      (auto simp: shutdown_measure_def sup_step_defs split: if_splits list.splits option.splits)
next
  case (Thread i e')
  with assms(1) have i: "i < length (sv_threads s)"
    and run: "worker_do e' i (fst (sv_threads s ! i)) (snd (sv_threads s ! i)) s = Some t"
    by (auto split: if_splits)
  obtain st' where th: "sv_threads t = (sv_threads s)[i := (fst (sv_threads s ! i), st')]"
    and less: "length (sv_channel t) + status_weight st' < length (sv_channel s) + status_weight (snd (sv_threads s ! i))"
    using worker_do_weight [OF run assms(2)] by blast
  show ?thesis
    using sum_list_update [OF i, of "\<lambda>(n, st). status_weight st" "(fst (sv_threads s ! i), st')"] less
      worker_do_frame(1,3) [OF run] assms(2)
    by (simp add: shutdown_measure_def th split_beta)
next
  case Cancel
  with assms show ?thesis by simp
qed

lemma shutdown_steps:
  "sup_steps names k s t \<Longrightarrow> sv_cancelled s \<Longrightarrow> k + shutdown_measure t \<le> shutdown_measure s \<and> sv_cancelled t"
proof (induction rule: sup_steps.induct)
  case (more k s t e u)
  then show ?case using shutdown_measure_decreases [OF more.hyps(2)] by force
qed simp

definition supervision_over :: "supervision \<Rightarrow> bool" where
  "supervision_over s \<longleftrightarrow>
     sv_phase s \<in> {Finished, Aborted} \<and> list_all (\<lambda>(n, st). st \<in> {Exited, Crashed}) (sv_threads s)"

text \<open>A thread that has not ended can move, whatever the supervisor does, once the token is cancelled.\<close>

lemma thread_can_move:
  assumes "sv_cancelled s" "i < length (sv_threads s)" "snd (sv_threads s ! i) \<notin> {Exited, Crashed}"
  shows "\<exists>e t. event_do names (Thread i e) s = Some t"
proof (cases "snd (sv_threads s ! i)")
  case Starting
  with assms show ?thesis by (intro exI [of _ RuntimeOk]) simp
next
  case Running
  with assms show ?thesis by (intro exI [of _ DoWorkFailed]) simp
next
  case (Ended r)
  with assms show ?thesis by (intro exI [of _ Check]) simp
next
  case Reporting
  with assms show ?thesis by (intro exI [of _ Report]) simp
next
  case Leaving
  with assms show ?thesis by (intro exI [of _ Leave]) simp
qed (use assms(3) in auto)

lemma supervisor_can_move:
  assumes "sup_ok names s" "sv_cancelled s" "sv_phase s \<notin> {Finished, Aborted}"
  shows "\<exists>e t. event_do names e s = Some t"
proof (cases "sv_phase s")
  case (Startup ns)
  then show ?thesis
    by (cases ns; intro exI [of _ "Sup (if ns = [] then Ready else BuildOk)"]) auto
next
  case Loop
  with assms show ?thesis by (intro exI [of _ "Sup Tick"]) simp
next
  case (Restarting n)
  then show ?thesis by (intro exI [of _ "Sup BuildOk"]) simp
next
  case (Joining n old new)
  show ?thesis
  proof (cases "snd (sv_threads s ! old) \<in> {Exited, Crashed}")
    case True
    with Joining show ?thesis by (intro exI [of _ "Sup Joined"]) auto
  next
    case False
    moreover have "old < length (sv_threads s)"
      using assms(1) Joining by (simp add: sup_ok_def joining_ok_def thread_of_def)
    ultimately show ?thesis
      using thread_can_move [OF assms(2), of old names] by blast
  qed
next
  case Draining
  then show ?thesis by (intro exI [of _ "Sup Grace"]) simp
next
  case Panicked
  with assms show ?thesis by (simp add: sup_ok_def names_ok_def)
qed (use assms in auto)

lemma shutdown_progress:
  assumes "sup_ok names s" "sv_cancelled s"
  shows "(\<exists>e t. event_do names e s = Some t) \<or> supervision_over s"
proof (cases "sv_phase s \<in> {Finished, Aborted}")
  case True
  show ?thesis
  proof (cases "\<exists>i < length (sv_threads s). snd (sv_threads s ! i) \<notin> {Exited, Crashed}")
    case False
    with True have "supervision_over s"
      by (auto simp: supervision_over_def list_all_length split_beta)
    then show ?thesis by simp
  qed (use thread_can_move [OF assms(2), of _ names] in blast)
qed (use supervisor_can_move [OF assms] in blast)

lemma sup_steps_events:
  "sup_steps names k r s \<Longrightarrow> events_do names es s = Some t \<Longrightarrow> sup_steps names (k + length es) r t"
proof (induction es arbitrary: k s)
  case (Cons e es)
  then obtain u where u: "event_do names e s = Some u" "events_do names es u = Some t"
    by (auto split: option.splits)
  from Cons.IH [OF sup_steps.more [OF Cons.prems(1) u(1)] u(2)] show ?case by simp
qed simp

lemma sup_ok_steps: "sup_steps names k s t \<Longrightarrow> sup_ok names s \<Longrightarrow> sup_ok names t"
  by (induction rule: sup_steps.induct) (auto intro: sup_ok_step)

subsection \<open>Properties\<close>

text \<open>C1: whatever the order of the events, a worker never has two threads in its loop or with
  a report still to make; the supervisor never meets a report without a builder
  (\<open>expect("builder should be present")\<close>); and when it joins the thread a restarted worker had
  before, that thread is already past its last action, so the join does not block the restarts
  of the other workers.\<close>

theorem one_thread_per_worker:
  assumes "distinct names" "sup_steps names k (supervision_start names) s"
  shows "live n s \<le> 1 \<and>
    (case sv_phase s of
       Panicked \<Rightarrow> False
     | Joining m old new \<Rightarrow> snd (sv_threads s ! old) \<in> {Leaving, Exited, Crashed}
     | _ \<Rightarrow> True)"
proof -
  have ok: "sup_ok names s" by (rule sup_ok_reachable [OF assms])
  then have "tokens n s \<le> 1" by (simp add: sup_ok_def)
  then have "live n s \<le> 1" by (simp add: tokens_def)
  moreover have "st \<in> {Leaving, Exited, Crashed}" if "\<not> live_status st" for st
    using that by (cases st) auto
  ultimately show ?thesis
    using ok by (auto simp: sup_ok_def names_ok_def joining_ok_def split: sup_phase.splits)
qed

text \<open>A run in which one worker cannot be built at first and the other one fails in its loop.\<close>

definition sup_example :: "worker_name list" where
  "sup_example = [''ingester'', ''subscriber'']"

definition crash_events :: "event list" where
  "crash_events =
     [Sup BuildOk, Sup BuildFailed, Sup Ready, Thread 0 RuntimeOk, Sup Receive, Sup BuildOk, Thread 0 DoWorkFailed]"

definition crash_state :: supervision where
  "crash_state =
     \<lparr>sv_cancelled = False, sv_channel = [], sv_phase = Loop,
      sv_threads = [(''ingester'', Ended WorkError), (''subscriber'', Starting)],
      sv_active = [''ingester'' \<mapsto> 0, ''subscriber'' \<mapsto> 1]\<rparr>"

lemmas sup_example_defs = sup_example_def crash_events_def crash_state_def supervision_start_def
  spawn_thread_def send_report_def set_status_def sup_step_defs

lemma crash_run: "events_do sup_example crash_events (supervision_start sup_example) = Some crash_state"
  by (simp add: sup_example_defs fun_eq_iff)

lemma crash_steps: "sup_steps sup_example 7 (supervision_start sup_example) crash_state"
  using sup_steps_events [OF sup_steps.none crash_run] by (simp add: crash_events_def eval_nat_numeral)

lemma sup_example_distinct: "distinct sup_example"
  by (simp add: sup_example_def)

theorem one_thread_per_worker_witness:
  "live ''ingester'' crash_state \<le> 1 \<and> sv_phase crash_state = Loop"
  using one_thread_per_worker [OF sup_example_distinct crash_steps, of "''ingester''"]
  by (simp add: crash_state_def)

text \<open>C2: once the token is cancelled, the supervision ends: from any state that can be
  reached, at most \<open>shutdown_measure\<close> further events are possible, and as long as the
  supervisor's thread is not done or a thread of a worker has not ended, one of them is.\<close>

theorem shutdown_completes:
  assumes "distinct names" "sup_steps names k (supervision_start names) s" "sv_cancelled s"
    and "sup_steps names j s t"
  shows "j \<le> shutdown_measure s \<and> ((\<exists>e u. event_do names e t = Some u) \<or> supervision_over t)"
proof -
  have "sup_ok names t"
    by (rule sup_ok_steps [OF assms(4) sup_ok_reachable [OF assms(1,2)]])
  then show ?thesis
    using shutdown_steps [OF assms(4,3)] shutdown_progress [of names t] by simp
qed

definition cancel_state :: supervision where
  "cancel_state = crash_state\<lparr>sv_cancelled := True\<rparr>"

lemma cancel_steps: "sup_steps sup_example 8 (supervision_start sup_example) cancel_state"
  using sup_steps.more [OF crash_steps, of Cancel cancel_state]
  by (simp add: crash_state_def cancel_state_def eval_nat_numeral)

theorem shutdown_completes_witness:
  "shutdown_measure cancel_state = 12 \<and>
   ((\<exists>e u. event_do sup_example e cancel_state = Some u) \<or> supervision_over cancel_state)"
  using shutdown_completes [OF sup_example_distinct cancel_steps _ sup_steps.none]
  by (simp add: cancel_state_def crash_state_def shutdown_measure_def)

text \<open>C3: A worker whose loop ends, by an error or by a panic, while the token is not cancelled
  is never run again: whatever happens afterwards, no thread of it is live and none is
  spawned.  The report that would have it restarted is sent only under a cancelled token, where
  the supervisor drops it.\<close>

theorem crashed_worker_stays_down:
  assumes "distinct names" "sup_steps names k (supervision_start names) s"
    and "i < length (sv_threads s)" "sv_threads s ! i = (n, Ended e)" "\<not> sv_cancelled s"
    and "event_do names (Thread i Check) s = Some t" "sup_steps names j t u"
  shows "live n u = 0 \<and> spawned n u = spawned n s"
proof -
  have t: "t = set_status i n Leaving s"
    using assms(3-6) by simp
  have one: "tokens n s \<le> 1"
    using sup_ok_reachable [OF assms(1,2)] by (simp add: sup_ok_def)
  have "live n t + 1 = live n s" "spawned n t = spawned n s"
    using live_set_status [of i s n n Leaving] spawned_set_status [of i s n n Leaving] assms(3,4)
    by (auto simp: t)
  with one have "tokens n t = 0"
    by (simp add: tokens_def t)
  with tokens_steps [OF assms(7), of n] \<open>spawned n t = spawned n s\<close> show ?thesis
    by (simp add: tokens_def)
qed

definition after_crash :: supervision where
  "after_crash = set_status 0 ''ingester'' Leaving crash_state"

theorem crashed_worker_stays_down_witness:
  "sup_steps sup_example 1 after_crash (set_status 0 ''ingester'' Exited crash_state) \<and>
   live ''ingester'' (set_status 0 ''ingester'' Exited crash_state) = 0 \<and>
   spawned ''ingester'' (set_status 0 ''ingester'' Exited crash_state) = 1"
proof -
  have check: "event_do sup_example (Thread 0 Check) crash_state = Some after_crash"
    by (simp add: crash_state_def after_crash_def)
  have leave: "sup_steps sup_example 1 after_crash (set_status 0 ''ingester'' Exited crash_state)"
    using sup_steps.more [OF sup_steps.none, of sup_example "Thread 0 Leave" after_crash]
    by (simp add: after_crash_def crash_state_def set_status_def)
  have "spawned ''ingester'' crash_state = 1"
    by (simp add: crash_state_def spawned_def)
  with leave crashed_worker_stays_down [OF sup_example_distinct crash_steps _ _ _ check leave, of "''ingester''" WorkError]
  show ?thesis by (simp add: crash_state_def)
qed

end
