(* ===== verification/Api_Client.thy ===== *)
theory Api_Client
  imports Queue_Interfaces
begin

text \<open>
  The HTTP client of the crate \<open>amplifier-api\<close>: \<open>client.rs\<close>, \<open>client/requests.rs\<close>,
  \<open>error.rs\<close>.

  \<open>url\<close>, \<open>simd_json\<close> and \<open>reqwest\<close> are not in the repository; their calls are the fields of
  \<open>http_env\<close>: \<open>'u\<close> is the type of URLs, \<open>'c\<close> of HTTP clients, \<open>'r\<close> of raw responses, and the
  requests act on a world \<open>'w\<close>.  A JSON reader of a type is a field or an argument of the
  operation that uses it.
\<close>

datatype amplifier_api_error =
    ReqwestWithMiddleware ext_error
  | Reqwest ext_error
  | UrlParse ext_error
  | Json ext_error

datatype http_method = GET | POST

datatype ('i, 't) tls_type = Certificate 'i | CustomProvider 't

record ('i, 't) client_config =
  hc_tls :: "('i, 't) tls_type"
  hc_headers :: "(string \<times> string) list"
  hc_http2_keep_alive_interval :: duration
  hc_http2_keep_alive_while_idle :: bool
  hc_otel_name :: string

record ('u, 'c) http_request =
  hr_client :: 'c
  hr_method :: http_method
  hr_url :: 'u
  hr_body :: bytes

record ('w, 'u, 'c, 'r, 'i, 't) http_env =
  url_join :: "'u \<Rightarrow> string \<Rightarrow> ext_error + 'u"
  query_pairs_mut :: "'u \<Rightarrow> 'u"
  append_pair :: "'u \<Rightarrow> string \<Rightarrow> string \<Rightarrow> 'u"
  uuid_hyphenated :: "uuid \<Rightarrow> string"
  json_unit :: "ext_error + bytes"
  json_events_request :: "publish_events_request \<Rightarrow> ext_error + bytes"
  json_tasks_result :: "bytes \<Rightarrow> ext_error + get_tasks_result"
  json_events_result :: "bytes \<Rightarrow> ext_error + publish_events_result"
  json_error_response :: "bytes \<Rightarrow> ext_error + error_response"
  client_build :: "('i, 't) client_config \<Rightarrow> ext_error + 'c"
  http_execute :: "('u, 'c) http_request \<Rightarrow> ('w, amplifier_api_error, 'r) io"
  response_status :: "'r \<Rightarrow> nat"
  response_status_error :: "'r \<Rightarrow> ext_error"
  response_bytes :: "'r \<Rightarrow> ('w, ext_error, bytes) io"

subsection \<open>Requests\<close>

datatype with_trailing_slash = WithTrailingSlash string

definition with_trailing_slash_new :: "string \<Rightarrow> with_trailing_slash" where
  "with_trailing_slash_new base = WithTrailingSlash (base @ ''/'')"

fun slashed :: "with_trailing_slash \<Rightarrow> string" where
  "slashed (WithTrailingSlash s) = s"

text \<open>
  \<open>AmplifierApiRequest\<close> as a dictionary of a request: its method, its path from the base URL
  and its payload as JSON.
\<close>

record 'u api_request =
  rq_method :: http_method
  rq_path :: "'u \<Rightarrow> amplifier_api_error + 'u"
  rq_payload :: "ext_error + bytes"

definition health_check_request :: "('w, 'u, 'c, 'r, 'i, 't) http_env \<Rightarrow> 'u api_request" where
  "health_check_request E =
     \<lparr>rq_method = GET,
      rq_path = (\<lambda>base_url. map_err UrlParse (url_join E base_url ''health'')),
      rq_payload = json_unit E\<rparr>"

record get_chains =
  gc_chain :: with_trailing_slash
  gc_after :: "task_item_id option"
  gc_before :: "task_item_id option"
  gc_limit :: "u8 option"

definition append_opt ::
  "('w, 'u, 'c, 'r, 'i, 't) http_env \<Rightarrow> string \<Rightarrow> ('a \<Rightarrow> string) \<Rightarrow> 'a option \<Rightarrow> 'u \<Rightarrow> 'u" where
  "append_opt E key sh v url = (case v of None \<Rightarrow> url | Some a \<Rightarrow> append_pair E url key (sh a))"

definition get_chains_path ::
  "('w, 'u, 'c, 'r, 'i, 't) http_env \<Rightarrow> get_chains \<Rightarrow> 'u \<Rightarrow> amplifier_api_error + 'u" where
  "get_chains_path E g base_url =
     res_bind (map_err UrlParse (url_join E base_url ''chains/'')) (\<lambda>url.
     res_bind (map_err UrlParse (url_join E url (slashed (gc_chain g)))) (\<lambda>url.
     res_bind (map_err UrlParse (url_join E url ''tasks'')) (\<lambda>url.
       let url = query_pairs_mut E url;
           url = append_opt E ''after'' (\<lambda>i. uuid_hyphenated E (task_item_uuid i)) (gc_after g) url;
           url = append_opt E ''before'' (\<lambda>i. uuid_hyphenated E (task_item_uuid i)) (gc_before g) url;
           url = append_opt E ''limit'' (\<lambda>n. dec_nat (unat n)) (gc_limit g) url
       in Inr url)))"

definition get_chains_request ::
  "('w, 'u, 'c, 'r, 'i, 't) http_env \<Rightarrow> get_chains \<Rightarrow> 'u api_request" where
  "get_chains_request E g =
     \<lparr>rq_method = GET, rq_path = get_chains_path E g, rq_payload = json_unit E\<rparr>"

record post_events =
  pe_chain :: with_trailing_slash
  pe_payload :: publish_events_request

definition post_events_path ::
  "('w, 'u, 'c, 'r, 'i, 't) http_env \<Rightarrow> post_events \<Rightarrow> 'u \<Rightarrow> amplifier_api_error + 'u" where
  "post_events_path E p base_url =
     res_bind (map_err UrlParse (url_join E base_url ''chains/'')) (\<lambda>url.
     res_bind (map_err UrlParse (url_join E url (slashed (pe_chain p)))) (\<lambda>url.
       map_err UrlParse (url_join E url ''events'')))"

definition post_events_request ::
  "('w, 'u, 'c, 'r, 'i, 't) http_env \<Rightarrow> post_events \<Rightarrow> 'u api_request" where
  "post_events_request E p =
     \<lparr>rq_method = POST, rq_path = post_events_path E p,
      rq_payload = json_events_request E (pe_payload p)\<rparr>"

subsection \<open>The identity\<close>

text \<open>
  A certificate with its key, kept as a secret: it is read from a PEM by \<open>reqwest\<close> (\<open>from_pem\<close>), and
  its contents cannot be seen, so that all identities count as equal.
\<close>

datatype 'i identity = Identity 'i

definition identity_new :: "'i \<Rightarrow> 'i identity" where
  "identity_new identity = Identity identity"

definition identity_eq :: "'i identity \<Rightarrow> 'i identity \<Rightarrow> bool" where
  "identity_eq a other \<longleftrightarrow> True"

definition identity_new_from_pem_bytes :: "(bytes \<Rightarrow> ext_error + 'i) \<Rightarrow> bytes \<Rightarrow> ext_error + 'i identity" where
  "identity_new_from_pem_bytes from_pem identity = res_bind (from_pem identity) (\<lambda>identity. Inr (identity_new identity))"

definition deserialize_identity ::
  "('d \<Rightarrow> 'e + string) \<Rightarrow> (ext_error \<Rightarrow> 'e) \<Rightarrow> (string \<Rightarrow> bytes) \<Rightarrow> (bytes \<Rightarrow> ext_error + 'i) \<Rightarrow> 'd \<Rightarrow> 'e + 'i" where
  "deserialize_identity string_deserialize custom as_bytes from_pem deserializer =
     res_bind (string_deserialize deserializer) (\<lambda>raw_string. map_err custom (from_pem (as_bytes raw_string)))"

text \<open>The two ways to an identity read the same PEM.\<close>

lemma deserialize_identity_from_pem:
  assumes "string_deserialize d = Inr text"
  shows "map_err custom (identity_new_from_pem_bytes from_pem (as_bytes text)) =
    res_bind (deserialize_identity string_deserialize custom as_bytes from_pem d) (\<lambda>i. Inr (Identity i))"
  using assms
  by (cases "from_pem (as_bytes text)")
    (simp_all add: deserialize_identity_def identity_new_from_pem_bytes_def identity_new_def res_bind_def map_err_def)

subsection \<open>The client\<close>

record ('u, 'c) amplifier_api_client =
  ac_inner :: 'c
  ac_url :: 'u

definition keep_alive_interval :: duration where
  "keep_alive_interval = from_secs 15"

definition authenticated_client ::
  "('w, 'u, 'c, 'r, 'i, 't) http_env \<Rightarrow> ('i, 't) tls_type \<Rightarrow> amplifier_api_error + 'c" where
  "authenticated_client E tls_type =
     (let headers = [(''Accept'', ''application/json''), (''Accept-Encoding'', ''gzip, deflate''),
                     (''Content-Type'', ''application/json'')]
      in map_err Reqwest (client_build E
           \<lparr>hc_tls = tls_type, hc_headers = headers,
            hc_http2_keep_alive_interval = keep_alive_interval,
            hc_http2_keep_alive_while_idle = True, hc_otel_name = ''amplifier-api-client''\<rparr>))"

definition amplifier_client_new ::
  "('w, 'u, 'c, 'r, 'i, 't) http_env \<Rightarrow> 'u \<Rightarrow> ('i, 't) tls_type \<Rightarrow>
     amplifier_api_error + ('u, 'c) amplifier_api_client" where
  "amplifier_client_new E url tls_type =
     res_bind (authenticated_client E tls_type) (\<lambda>client. Inr \<lparr>ac_inner = client, ac_url = url\<rparr>)"

definition build_request ::
  "('u, 'c) amplifier_api_client \<Rightarrow> 'u api_request \<Rightarrow> amplifier_api_error + ('u, 'c) http_request" where
  "build_request A request =
     res_bind (rq_path request (ac_url A)) (\<lambda>endpoint.
       res_bind (map_err Json (rq_payload request)) (\<lambda>payload.
         Inr \<lparr>hr_client = ac_inner A, hr_method = rq_method request, hr_url = endpoint, hr_body = payload\<rparr>))"

definition execute ::
  "('w, 'u, 'c, 'r, 'i, 't) http_env \<Rightarrow> ('u, 'c) http_request \<Rightarrow> ('w, amplifier_api_error, 'r) io" where
  "execute E request = http_execute E request"

subsection \<open>Responses\<close>

text \<open>\<open>StatusCode::is_success\<close>, and the statuses \<open>error_for_status\<close> turns into an error.\<close>

definition is_success :: "nat \<Rightarrow> bool" where
  "is_success status \<longleftrightarrow> 200 \<le> status \<and> status < 300"

definition is_error_status :: "nat \<Rightarrow> bool" where
  "is_error_status status \<longleftrightarrow> 400 \<le> status \<and> status < 600"

definition response_ok ::
  "('w, 'u, 'c, 'r, 'i, 't) http_env \<Rightarrow> 'r \<Rightarrow> amplifier_api_error + unit" where
  "response_ok E r =
     (if is_error_status (response_status E r) then Inl (Reqwest (response_status_error E r)) else Inr ())"

definition parse_amplifier_error ::
  "(bytes \<Rightarrow> ext_error + 'err) \<Rightarrow> bytes \<Rightarrow> amplifier_api_error + 'err" where
  "parse_amplifier_error parse_err body = map_err Json (parse_err body)"

definition response_json_err ::
  "('w, 'u, 'c, 'r, 'i, 't) http_env \<Rightarrow> (bytes \<Rightarrow> ext_error + 'err) \<Rightarrow> 'r \<Rightarrow>
     ('w, amplifier_api_error, 'err + unit) io" where
  "response_json_err E parse_err r =
     (if is_success (response_status E r) then io_ok (Inr ())
      else
        io_bind (io_map_err Reqwest (response_bytes E r)) (\<lambda>body.
          io_bind (io_lift (parse_amplifier_error parse_err body)) (\<lambda>res. io_ok (Inl res))))"

definition response_json ::
  "('w, 'u, 'c, 'r, 'i, 't) http_env \<Rightarrow> (bytes \<Rightarrow> ext_error + 'res) \<Rightarrow> (bytes \<Rightarrow> ext_error + 'err) \<Rightarrow> 'r \<Rightarrow>
     ('w, amplifier_api_error, 'err + 'res) io" where
  "response_json E parse parse_err r =
     io_bind (io_map_err Reqwest (response_bytes E r)) (\<lambda>body.
       if is_success (response_status E r) then
         io_bind (io_lift (map_err Json (parse body))) (\<lambda>result. io_ok (Inr result))
       else
         io_bind (io_lift (parse_amplifier_error parse_err body)) (\<lambda>res. io_ok (Inl res)))"

text \<open>How a parsed response can have come about.\<close>

lemma response_json_cases:
  assumes "response_json E parse parse_err r w = (x, w')"
  obtains (unread) e where "response_bytes E r w = (Inl e, w')" "x = Inl (Reqwest e)"
  | (unparsed) body e where "response_bytes E r w = (Inr body, w')" "x = Inl (Json e)"
      "if is_success (response_status E r) then parse body = Inl e else parse_err body = Inl e"
  | (success) body v where "response_bytes E r w = (Inr body, w')" "x = Inr (Inr v)"
      "is_success (response_status E r)" "parse body = Inr v"
  | (refusal) body v where "response_bytes E r w = (Inr body, w')" "x = Inr (Inl v)"
      "\<not> is_success (response_status E r)" "parse_err body = Inr v"
proof -
  obtain b w1 where b: "response_bytes E r w = (b, w1)" by force
  show ?thesis
  proof (cases b)
    case (Inl e)
    with assms b have "x = Inl (Reqwest e)" "w' = w1"
      by (simp_all add: response_json_def io_bind_def io_map_err_def)
    with b Inl show ?thesis by (intro unread) simp_all
  next
    case (Inr body)
    note inner = assms [unfolded response_json_def io_bind_def io_map_err_def b Inr, simplified]
    show ?thesis
    proof (cases "is_success (response_status E r)")
      case True
      with inner b Inr show ?thesis
        by (cases "parse body") (auto simp: io_lift_def io_ok_def intro: unparsed success)
    next
      case False
      with inner b Inr show ?thesis
        by (cases "parse_err body")
          (auto simp: io_lift_def io_ok_def parse_amplifier_error_def intro: unparsed refusal)
    qed
  qed
qed

subsection \<open>Paths\<close>

text \<open>
  What is relied on of \<open>Url::join\<close>: a reference made of plain segments replaces what follows
  the last slash of the path (RFC 3986), and query pairs leave the path alone.
\<close>

definition plain_segment :: "string \<Rightarrow> bool" where
  "plain_segment s \<longleftrightarrow> s \<noteq> [] \<and>
     list_all (\<lambda>c. c \<in> set ''abcdefghijklmnopqrstuvwxyzABCDEFGHIJKLMNOPQRSTUVWXYZ0123456789-_'') s"

definition url_ok :: "('w, 'u, 'c, 'r, 'i, 't) http_env \<Rightarrow> ('u \<Rightarrow> string list) \<Rightarrow> bool" where
  "url_ok E segments \<longleftrightarrow>
     (\<forall>u s. plain_segment s \<longrightarrow>
        (\<exists>u'. url_join E u s = Inr u' \<and> segments u' = butlast (segments u) @ [s])) \<and>
     (\<forall>u s. plain_segment s \<longrightarrow>
        (\<exists>u'. url_join E u (s @ ''/'') = Inr u' \<and> segments u' = butlast (segments u) @ [s, []])) \<and>
     (\<forall>u. segments (query_pairs_mut E u) = segments u) \<and>
     (\<forall>u k v. segments (append_pair E u k v) = segments u)"

lemma plain_segments [simp]:
  "plain_segment ''chains''" "plain_segment ''tasks''" "plain_segment ''events''" "plain_segment ''health''"
  by (simp_all add: plain_segment_def)

lemma join_plain:
  assumes "url_ok E segments" "plain_segment s"
  obtains u' where "url_join E u s = Inr u'" "segments u' = butlast (segments u) @ [s]"
  using assms unfolding url_ok_def by meson

lemma join_slashed:
  assumes "url_ok E segments" "plain_segment s"
  obtains u' where "url_join E u (s @ ''/'') = Inr u'" "segments u' = butlast (segments u) @ [s, []]"
  using assms unfolding url_ok_def by meson

lemma append_opt_segments: "url_ok E segments \<Longrightarrow> segments (append_opt E k sh v u) = segments u"
  by (simp add: append_opt_def url_ok_def split: option.split)

lemma chain_path:
  assumes "url_ok E segments" "plain_segment chain"
  obtains u1 u2 where "url_join E base ''chains/'' = Inr u1" "url_join E u1 (chain @ ''/'') = Inr u2"
    "segments u2 = butlast (segments base) @ [''chains'', chain, []]"
proof -
  obtain u1 where u1: "url_join E base (''chains'' @ ''/'') = Inr u1"
    "segments u1 = butlast (segments base) @ [''chains'', []]"
    by (rule join_slashed [OF assms(1), of "''chains''"]) simp
  obtain u2 where "url_join E u1 (chain @ ''/'') = Inr u2" "segments u2 = butlast (segments u1) @ [chain, []]"
    by (rule join_slashed [OF assms])
  with u1 that show ?thesis by (simp add: butlast_append)
qed

subsection \<open>An API in memory\<close>

text \<open>
  A small API on which the properties are applied: a URL is its path segments with its query
  pairs, a response a status with a body, and the world the requests seen and the responses
  still to come.  A body lists one task or one result per byte; a task of byte \<open>n\<close> has the id
  and the timestamp \<open>n\<close>, an odd byte is a result with an error.
\<close>

type_synonym memory_url = "string list \<times> (string \<times> string) list"

record memory_api =
  ma_seen :: "(memory_url, unit) http_request list"
  ma_replies :: "(nat \<times> bytes) list"

definition memory_task_item :: "u8 \<Rightarrow> task_item" where
  "memory_task_item n =
     \<lparr>ti_id = TaskItemId (ucast n), ti_timestamp = DateTime (ucast n) 0,
      ti_task = GatewayTx \<lparr>gt_execute_data = [n]\<rparr>\<rparr>"

definition memory_result_item :: "u8 \<Rightarrow> publish_event_result_item" where
  "memory_result_item n =
     (if odd n then ResultError \<lparr>er_base = \<lparr>ri_index = 0\<rparr>, er_error = ''try again'', er_retriable = True\<rparr>
      else Accepted \<lparr>ar_base = \<lparr>ri_index = 0\<rparr>\<rparr>)"

definition memory_http :: "(memory_api, memory_url, unit, nat \<times> bytes, unit, unit) http_env" where
  "memory_http =
     \<lparr>url_join = (\<lambda>(path, q) s. Inr (butlast path @
         (if s \<noteq> [] \<and> last s = CHR ''/'' then [butlast s, []] else [s]), [])),
      query_pairs_mut = (\<lambda>u. u),
      append_pair = (\<lambda>(path, q) k v. (path, q @ [(k, v)])),
      uuid_hyphenated = (\<lambda>u. dec_nat (unat u)),
      json_unit = Inr [],
      json_events_request = (\<lambda>p. Inr (replicate (length (pr_events p)) 0)),
      json_tasks_result = (\<lambda>body. Inr \<lparr>gt_tasks = map memory_task_item body\<rparr>),
      json_events_result = (\<lambda>body. Inr \<lparr>ps_results = map memory_result_item body\<rparr>),
      json_error_response = (\<lambda>body. Inr \<lparr>ep_error = ''refused'', ep_request_id = None\<rparr>),
      client_build = (\<lambda>cfg. Inr ()),
      http_execute = (\<lambda>r w. case ma_replies w of
          [] \<Rightarrow> (Inl (ReqwestWithMiddleware (ExtError ''no connection'')), w)
        | reply # rest \<Rightarrow> (Inr reply, w\<lparr>ma_seen := ma_seen w @ [r], ma_replies := rest\<rparr>)),
      response_status = fst,
      response_status_error = (\<lambda>r. ExtError ''status''),
      response_bytes = (\<lambda>r. io_ok (snd r))\<rparr>"

lemma memory_url_ok: "url_ok memory_http fst"
proof -
  have "s \<noteq> [] \<and> last s \<noteq> CHR ''/''" if "plain_segment s" for s
  proof -
    from that have "s \<noteq> []" "last s \<in> set s" by (auto simp: plain_segment_def)
    with that have "last s \<in> set ''abcdefghijklmnopqrstuvwxyzABCDEFGHIJKLMNOPQRSTUVWXYZ0123456789-_''"
      by (auto simp: plain_segment_def list_all_iff)
    then have "last s \<noteq> CHR ''/''" by auto
    with \<open>s \<noteq> []\<close> show ?thesis by simp
  qed
  then show ?thesis
    by (auto simp: url_ok_def memory_http_def)
qed

subsection \<open>Properties\<close>

text \<open>For a chain name made of plain characters, the tasks and the events of a chain are
  requested from \<open>chains/<chain>/tasks\<close> and \<open>chains/<chain>/events\<close> below the base URL, whose
  own last segment (what follows its last slash) is replaced.\<close>

theorem request_paths:
  assumes "url_ok E segments" "plain_segment chain" "gc_chain g = with_trailing_slash_new chain"
    and "pe_chain p = with_trailing_slash_new chain"
  shows "\<exists>u v. get_chains_path E g base = Inr u \<and> post_events_path E p base = Inr v \<and>
    segments u = butlast (segments base) @ [''chains'', chain, ''tasks''] \<and>
    segments v = butlast (segments base) @ [''chains'', chain, ''events'']"
proof -
  obtain u1 u2 where chain: "url_join E base ''chains/'' = Inr u1" "url_join E u1 (chain @ ''/'') = Inr u2"
    "segments u2 = butlast (segments base) @ [''chains'', chain, []]"
    by (rule chain_path [OF assms(1,2)])
  obtain u3 where tasks: "url_join E u2 ''tasks'' = Inr u3" "segments u3 = butlast (segments u2) @ [''tasks'']"
    by (rule join_plain [OF assms(1), of "''tasks''"]) simp
  obtain v3 where events: "url_join E u2 ''events'' = Inr v3" "segments v3 = butlast (segments u2) @ [''events'']"
    by (rule join_plain [OF assms(1), of "''events''"]) simp
  have "segments (query_pairs_mut E u3) = segments u3"
    using assms(1) by (simp add: url_ok_def)
  then show ?thesis
    using chain tasks events assms(3,4)
    by (simp add: get_chains_path_def post_events_path_def with_trailing_slash_new_def
        append_opt_segments [OF assms(1)] butlast_append Let_def)
qed

theorem request_paths_witness:
  "\<exists>u. get_chains_path memory_http
      \<lparr>gc_chain = with_trailing_slash_new ''solana-devnet'', gc_after = None, gc_before = None, gc_limit = Some 4\<rparr>
      ([''v1'', []], []) = Inr u \<and> fst u = [''v1'', ''chains'', ''solana-devnet'', ''tasks'']"
proof -
  have "plain_segment ''solana-devnet''" by (simp add: plain_segment_def)
  from request_paths [OF memory_url_ok this, of
      "\<lparr>gc_chain = with_trailing_slash_new ''solana-devnet'', gc_after = None, gc_before = None, gc_limit = Some 4\<rparr>"
      "\<lparr>pe_chain = with_trailing_slash_new ''solana-devnet'', pe_payload = \<lparr>pr_events = []\<rparr>\<rparr>" "([''v1'', []], [])"]
  show ?thesis by auto
qed

text \<open>What the parsed response of the API stands for: a value means a status 2xx with a
  body that parses as the result, an API error a status outside 2xx with a body that parses as
  the error, and the call itself fails only when the body cannot be read or parsed; so a
  refusal whose body is not JSON is reported as a JSON error.\<close>

theorem response_json_classified:
  "case fst (response_json E parse parse_err r w) of
     Inr (Inr v) \<Rightarrow> 200 \<le> response_status E r \<and> response_status E r < 300 \<and>
       (\<exists>body. fst (response_bytes E r w) = Inr body \<and> parse body = Inr v)
   | Inr (Inl v) \<Rightarrow> (response_status E r < 200 \<or> 300 \<le> response_status E r) \<and>
       (\<exists>body. fst (response_bytes E r w) = Inr body \<and> parse_err body = Inr v)
   | Inl (Reqwest e) \<Rightarrow> fst (response_bytes E r w) = Inl e
   | Inl (Json e) \<Rightarrow> (\<exists>body. fst (response_bytes E r w) = Inr body \<and>
       (if is_success (response_status E r) then parse body = Inl e else parse_err body = Inl e))
   | Inl _ \<Rightarrow> False"
proof -
  obtain x w' where run: "response_json E parse parse_err r w = (x, w')" by force
  then show ?thesis
    by (cases rule: response_json_cases) (auto simp: run is_success_def)
qed

text \<open>The two checks that do not parse a result disagree outside 2xx, 4xx and 5xx: \<open>ok\<close>
  accepts every status that is not 4xx or 5xx, \<open>json_err\<close> only 2xx.\<close>

theorem response_checks:
  "(response_ok E r = Inr () \<longleftrightarrow> response_status E r < 400 \<or> 600 \<le> response_status E r) \<and>
   (fst (response_json_err E parse_err r w) = Inr (Inr ()) \<longleftrightarrow>
      200 \<le> response_status E r \<and> response_status E r < 300)"
  by (auto simp: response_ok_def is_error_status_def response_json_err_def is_success_def io_bind_def
      io_map_err_def io_lift_def io_ok_def split: prod.splits sum.splits)

end
