(* ===== verification/Bin_Util.thy ===== *)
theory Bin_Util
  imports Queue_Interfaces
begin

text \<open>
  The crate \<open>bin-util\<close>: the metric counters of the services, the loading and validation of
  configurations, the health-check endpoints, the Ctrl+C handler, default values and names.

  The crate \<open>config\<close> is not in the repository: \<open>config_env\<close> holds its building of sources and
  its deserialization.  A counter is the number of times \<open>add(1)\<close> was called on it.
\<close>

subsection \<open>Metrics\<close>

record simple_metrics =
  sm_name :: string
  sm_errors :: nat
  sm_skipped :: nat
  sm_attributes :: "(string \<times> string) list"

definition simple_metrics_new :: "string \<Rightarrow> (string \<times> string) list \<Rightarrow> simple_metrics" where
  "simple_metrics_new name attributes =
     \<lparr>sm_name = name, sm_errors = 0, sm_skipped = 0, sm_attributes = attributes\<rparr>"

definition sm_record_error :: "simple_metrics \<Rightarrow> simple_metrics" where
  "sm_record_error m = m\<lparr>sm_errors := sm_errors m + 1\<rparr>"

definition sm_record_skipped :: "simple_metrics \<Rightarrow> simple_metrics" where
  "sm_record_skipped m = m\<lparr>sm_skipped := sm_skipped m + 1\<rparr>"

record blockchain_ingester_metrics =
  bm_name :: string
  gateway_tx_received_task :: nat
  execute_received_task :: nat
  verify_received_task :: nat
  refund_received_task :: nat
  construct_proof_received_task :: nat
  gateway_tx_approved_task :: nat
  executed_task :: nat
  verified_stak :: nat
  refunded_task :: nat
  constructed_proof_task :: nat
  bm_error_raised :: nat
  skipped_task :: nat
  bm_attributes :: "(string \<times> string) list"

definition blockchain_ingester_metrics_new ::
  "string \<Rightarrow> (string \<times> string) list \<Rightarrow> blockchain_ingester_metrics" where
  "blockchain_ingester_metrics_new name attributes =
     \<lparr>bm_name = name, gateway_tx_received_task = 0, execute_received_task = 0, verify_received_task = 0,
      refund_received_task = 0, construct_proof_received_task = 0, gateway_tx_approved_task = 0,
      executed_task = 0, verified_stak = 0, refunded_task = 0, constructed_proof_task = 0,
      bm_error_raised = 0, skipped_task = 0, bm_attributes = attributes\<rparr>"

definition record_gateway_tx_received :: "blockchain_ingester_metrics \<Rightarrow> blockchain_ingester_metrics" where
  "record_gateway_tx_received m = m\<lparr>gateway_tx_received_task := gateway_tx_received_task m + 1\<rparr>"

definition record_execute_received :: "blockchain_ingester_metrics \<Rightarrow> blockchain_ingester_metrics" where
  "record_execute_received m = m\<lparr>execute_received_task := execute_received_task m + 1\<rparr>"

definition record_verify_received :: "blockchain_ingester_metrics \<Rightarrow> blockchain_ingester_metrics" where
  "record_verify_received m = m\<lparr>verify_received_task := verify_received_task m + 1\<rparr>"

definition record_refund_received :: "blockchain_ingester_metrics \<Rightarrow> blockchain_ingester_metrics" where
  "record_refund_received m = m\<lparr>refund_received_task := refund_received_task m + 1\<rparr>"

definition record_construct_proof_received :: "blockchain_ingester_metrics \<Rightarrow> blockchain_ingester_metrics" where
  "record_construct_proof_received m =
     m\<lparr>construct_proof_received_task := construct_proof_received_task m + 1\<rparr>"

definition record_gateway_tx_approved :: "blockchain_ingester_metrics \<Rightarrow> blockchain_ingester_metrics" where
  "record_gateway_tx_approved m = m\<lparr>gateway_tx_approved_task := gateway_tx_approved_task m + 1\<rparr>"

definition record_executed :: "blockchain_ingester_metrics \<Rightarrow> blockchain_ingester_metrics" where
  "record_executed m = m\<lparr>executed_task := executed_task m + 1\<rparr>"

definition record_verified :: "blockchain_ingester_metrics \<Rightarrow> blockchain_ingester_metrics" where
  "record_verified m = m\<lparr>verified_stak := verified_stak m + 1\<rparr>"

definition record_refunded :: "blockchain_ingester_metrics \<Rightarrow> blockchain_ingester_metrics" where
  "record_refunded m = m\<lparr>refunded_task := refunded_task m + 1\<rparr>"

definition record_constructed_proof :: "blockchain_ingester_metrics \<Rightarrow> blockchain_ingester_metrics" where
  "record_constructed_proof m = m\<lparr>constructed_proof_task := constructed_proof_task m + 1\<rparr>"

definition bm_record_error :: "blockchain_ingester_metrics \<Rightarrow> blockchain_ingester_metrics" where
  "bm_record_error m = m\<lparr>bm_error_raised := bm_error_raised m + 1\<rparr>"

definition bm_record_skipped :: "blockchain_ingester_metrics \<Rightarrow> blockchain_ingester_metrics" where
  "bm_record_skipped m = m\<lparr>skipped_task := skipped_task m + 1\<rparr>"

subsection \<open>Configuration\<close>

definition env_app_prefix :: string where "env_app_prefix = ''RELAYER''"
definition env_separator :: string where "env_separator = ''_''"

datatype config_source =
    FileSource (fs_name: string) (fs_required: bool)
  | EnvironmentSource (es_prefix: string) (es_separator: string)

record 'c config_env =
  cfg_build :: "config_source list \<Rightarrow> ext_error + 'c"

datatype config_error =
    CouldNotLoad ext_error
  | CouldNotParse ext_error
  | InvalidConfig string

text \<open>\<open>ValidateConfig::validate\<close> of the target type is the argument \<open>validate\<close>.\<close>

definition try_deserialize ::
  "'c config_env \<Rightarrow> ('c \<Rightarrow> ext_error + 't) \<Rightarrow> ('t \<Rightarrow> string + unit) \<Rightarrow> string \<Rightarrow> config_error + 't" where
  "try_deserialize F deserialize validate config_path =
     res_bind (map_err CouldNotLoad (cfg_build F
         [FileSource config_path False, EnvironmentSource env_app_prefix env_separator])) (\<lambda>cfg.
       res_bind (map_err CouldNotParse (deserialize cfg)) (\<lambda>config.
         res_bind (map_err InvalidConfig (validate config)) (\<lambda>_. Inr config)))"

text \<open>\<open>ensure!\<close>: the message of the first check that fails.\<close>

definition ensure :: "bool \<Rightarrow> string \<Rightarrow> string + unit" where
  "ensure b msg = (if b then Inr () else Inl msg)"

lemma ensure_eq_Inr [simp]: "ensure b msg = Inr u \<longleftrightarrow> b"
  by (simp add: ensure_def)

text \<open>The number is read by serde; the conversions of \<open>deserialize_duration_from_secs\<close> and of
  \<open>common-serde-utils\<close>.\<close>

definition deserialize_duration_from_secs :: "ext_error + u64 \<Rightarrow> ext_error + duration" where
  "deserialize_duration_from_secs number = res_bind number (\<lambda>seconds. Inr (from_secs seconds))"

definition duration_ms_decode :: "ext_error + u64 \<Rightarrow> ext_error + duration" where
  "duration_ms_decode number = res_bind number (\<lambda>raw_number. Inr (from_millis raw_number))"

definition default_max_bundle_size :: u64 where "default_max_bundle_size = 100"
definition default_concurrent_queue_items :: u64 where "default_concurrent_queue_items = 50"
definition default_worker_count :: u64 where "default_worker_count = 50"
definition default_max_errors :: u32 where "default_max_errors = 20"
definition default_limit_per_request :: u8 where "default_limit_per_request = 100"

definition events_stream :: string where "events_stream = ''AMPLIFIER_EVENTS''"
definition events_publish_subject :: string where "events_publish_subject = ''amplifier.event.new''"
definition events_consume_group :: string where "events_consume_group = ''amplifier-ingesters''"
definition tasks_stream :: string where "tasks_stream = ''AMPLIFIER_TASKS''"
definition tasks_publish_subject :: string where "tasks_publish_subject = ''amplifier.tasks.new''"

subsection \<open>Telemetry exporters\<close>

datatype telemetry_transport = Http | Grpc

record telemetry_config =
  otlp_endpoint :: string
  otlp_transport :: telemetry_transport

datatype exporter_protocol = HttpBinary | GrpcProtocol

record exporter_config =
  ex_protocol :: exporter_protocol
  ex_endpoint :: string

text \<open>\<open>get_exporters\<close>; \<open>build_span\<close> and \<open>build_metric\<close> are the builders of the OTLP crate.\<close>

definition get_exporters ::
  "(exporter_config \<Rightarrow> ext_error + 's) \<Rightarrow> (exporter_config \<Rightarrow> ext_error + 'm) \<Rightarrow> telemetry_config \<Rightarrow>
     (string \<times> ext_error) + 's \<times> 'm" where
  "get_exporters build_span build_metric config =
     (case otlp_transport config of
        Http \<Rightarrow>
          res_bind (map_err (Pair ''set up http trace exporter'')
            (build_span \<lparr>ex_protocol = HttpBinary, ex_endpoint = otlp_endpoint config @ ''/v1/traces''\<rparr>))
          (\<lambda>span_exporter.
            res_bind (map_err (Pair ''set up http metric exporter'')
              (build_metric \<lparr>ex_protocol = HttpBinary, ex_endpoint = otlp_endpoint config @ ''/v1/metrics''\<rparr>))
            (\<lambda>metric_exporter. Inr (span_exporter, metric_exporter)))
      | Grpc \<Rightarrow>
          res_bind (map_err (Pair ''set up grpc trace exporter'')
            (build_span \<lparr>ex_protocol = GrpcProtocol, ex_endpoint = otlp_endpoint config\<rparr>))
          (\<lambda>span_exporter.
            res_bind (map_err (Pair ''set up grcp metric exporter'')
              (build_metric \<lparr>ex_protocol = GrpcProtocol, ex_endpoint = otlp_endpoint config\<rparr>))
            (\<lambda>metric_exporter. Inr (span_exporter, metric_exporter))))"

subsection \<open>Ctrl+C\<close>

text \<open>One call of the handler: the token, and whether the process exits at once.\<close>

definition ctrlc_handler :: "bool \<Rightarrow> bool \<times> nat option" where
  "ctrlc_handler cancelled = (if cancelled then (cancelled, Some 1) else (True, None))"

fun ctrlc_presses :: "nat \<Rightarrow> bool \<Rightarrow> bool \<times> nat option" where
  "ctrlc_presses 0 cancelled = (cancelled, None)"
| "ctrlc_presses (Suc n) cancelled =
     (case ctrlc_handler cancelled of
        (cancelled', Some code) \<Rightarrow> (cancelled', Some code)
      | (cancelled', None) \<Rightarrow> ctrlc_presses n cancelled')"

subsection \<open>Health-check server\<close>

record health_config =
  health_check_port :: "16 word"

definition validate_health_config :: "health_config \<Rightarrow> string + unit" where
  "validate_health_config c = ensure (health_check_port c > 0) ''specific port expected for health check''"

record http_reply =
  reply_status :: nat
  reply_text :: string

definition handle_healthz :: "('w, 'e, unit) io \<Rightarrow> 'w \<Rightarrow> http_reply \<times> 'w" where
  "handle_healthz check_health w =
     (case check_health w of
        (Inr _, w') \<Rightarrow> (\<lparr>reply_status = 200, reply_text = ''HEALTHY''\<rparr>, w')
      | (Inl err, w') \<Rightarrow> (\<lparr>reply_status = 503, reply_text = ''UNHEALTHY''\<rparr>, w'))"

definition handle_readyz :: "('w, 'e, unit) io \<Rightarrow> 'w \<Rightarrow> http_reply \<times> 'w" where
  "handle_readyz check_health w =
     (case check_health w of
        (Inr _, w') \<Rightarrow> (\<lparr>reply_status = 200, reply_text = ''READY''\<rparr>, w')
      | (Inl err, w') \<Rightarrow> (\<lparr>reply_status = 503, reply_text = ''UNREADY''\<rparr>, w'))"

record ('w, 'e) health_server =
  hs_port :: "16 word"
  hs_checker :: "('w, 'e, unit) io"

definition health_server_new :: "16 word \<Rightarrow> ('w, 'e, unit) io \<Rightarrow> ('w, 'e) health_server" where
  "health_server_new port checker = \<lparr>hs_port = port, hs_checker = checker\<rparr>"

text \<open>The routes of the running server: the answer to a GET of a path, \<open>None\<close> where no route is.\<close>

definition health_server_get :: "('w, 'e) health_server \<Rightarrow> string \<Rightarrow> 'w \<Rightarrow> http_reply option \<times> 'w" where
  "health_server_get S path w =
     (if path = ''/healthz'' then (let (r, w') = handle_healthz (hs_checker S) w in (Some r, w'))
      else if path = ''/readyz'' then (let (r, w') = handle_readyz (hs_checker S) w in (Some r, w'))
      else (None, w))"

text \<open>The server serves its requests until the token is cancelled; here one request per entry.\<close>

fun health_server_run :: "('w, 'e) health_server \<Rightarrow> string list \<Rightarrow> 'w \<Rightarrow> http_reply option list \<times> 'w" where
  "health_server_run S [] w = ([], w)"
| "health_server_run S (path # paths) w =
     (let (r, w1) = health_server_get S path w; (rs, w2) = health_server_run S paths w1 in (r # rs, w2))"

definition run_health_check_server ::
  "'c config_env \<Rightarrow> ('c \<Rightarrow> ext_error + health_config) \<Rightarrow> string \<Rightarrow> ('w, 'e, unit) io \<Rightarrow>
     config_error + ('w, 'e) health_server" where
  "run_health_check_server F deserialize config_path service =
     res_bind (try_deserialize F deserialize validate_health_config config_path)
       (\<lambda>config. Inr (health_server_new (health_check_port config) service))"

subsection \<open>Facts\<close>

lemma try_deserialize_eq_Inr:
  "try_deserialize F d v path = Inr c \<longleftrightarrow>
     (\<exists>cfg. cfg_build F [FileSource path False, EnvironmentSource env_app_prefix env_separator] = Inr cfg \<and>
        d cfg = Inr c \<and> v c = Inr ())"
  by (auto simp: try_deserialize_def res_bind_eq_Inr)

lemma try_deserialize_valid: "try_deserialize F d v path = Inr c \<Longrightarrow> v c = Inr ()"
  by (auto simp: try_deserialize_eq_Inr)

text \<open>Both handlers, by the result of the check.\<close>

lemma handle_healthz_eq:
  "c w = (r, w') \<Longrightarrow> handle_healthz c w =
     (if isl r then \<lparr>reply_status = 503, reply_text = ''UNHEALTHY''\<rparr>
      else \<lparr>reply_status = 200, reply_text = ''HEALTHY''\<rparr>, w')"
  by (cases r) (simp_all add: handle_healthz_def)

lemma handle_readyz_eq:
  "c w = (r, w') \<Longrightarrow> handle_readyz c w =
     (if isl r then \<lparr>reply_status = 503, reply_text = ''UNREADY''\<rparr>
      else \<lparr>reply_status = 200, reply_text = ''READY''\<rparr>, w')"
  by (cases r) (simp_all add: handle_readyz_def)

subsection \<open>Properties\<close>

text \<open>Both probes answer with the state of the service at the time of the request: status
  200 exactly when the health check succeeds and 503 otherwise, each with its own text; no
  other path is served, and each probe runs the check once.\<close>

theorem health_probes:
  "case check w of (r, w') \<Rightarrow>
     health_server_get (health_server_new port check) ''/healthz'' w =
       (Some (if isl r then \<lparr>reply_status = 503, reply_text = ''UNHEALTHY''\<rparr>
              else \<lparr>reply_status = 200, reply_text = ''HEALTHY''\<rparr>), w') \<and>
     health_server_get (health_server_new port check) ''/readyz'' w =
       (Some (if isl r then \<lparr>reply_status = 503, reply_text = ''UNREADY''\<rparr>
              else \<lparr>reply_status = 200, reply_text = ''READY''\<rparr>), w') \<and>
     health_server_get (health_server_new port check) ''/'' w = (None, w)"
proof -
  obtain r w' where run: "check w = (r, w')" by force
  have "hs_checker (health_server_new port check) = check" by (simp add: health_server_new_def)
  then show ?thesis
    using handle_healthz_eq [of check w r w', OF run] handle_readyz_eq [of check w r w', OF run]
    by (simp add: run health_server_get_def)
qed

text \<open>The first Ctrl+C cancels the token and leaves the process running; any further one
  ends the process with exit code 1.\<close>

theorem ctrlc_twice_exits:
  "ctrlc_presses n False = (n > 0, if n \<ge> 2 then Some 1 else None)"
proof -
  have "ctrlc_presses (Suc k) True = (True, Some 1)" for k
    by (simp add: ctrlc_handler_def)
  then show ?thesis
    by (cases n; cases "n - 1") (simp_all add: ctrlc_handler_def)
qed

end
