(* ===== verification/Nats_Backend.thy ===== *)
theory Nats_Backend
  imports Queue_Interfaces
begin

text \<open>
  The NATS JetStream back end of the crate \<open>infrastructure\<close> (\<open>nats.rs\<close> and \<open>nats/\<close>): the
  builder and the connectors, the publisher, the consumer with its messages and the key-value
  store.

  The library \<open>async_nats\<close> is not in the repository: its calls are the fields of \<open>nats_env\<close>,
  acting on a world \<open>'w\<close>.  \<open>'x\<close> is the type of the library's own objects (a client or
  context, a stream, a consumer, a store, a message, a pending acknowledgement).  What is
  relied on is \<open>jetstream_ok\<close> and \<open>kv_ok\<close>, stated over a view of what the server stores.
\<close>

subsection \<open>Errors\<close>

datatype nats_error =
    Connect ext_error
  | CreateKeyValue ext_error
  | Put ext_error
  | Deserialize io_error
  | Serialize io_error
  | Update ext_error
  | Entry ext_error
  | CreateStream ext_error
  | Publish ext_error
  | CreateConsumer ext_error
  | MessagesStream ext_error
  | Messages ext_error
  | ConsumerInfo ext_error
  | PublisherInfo ext_error
  | DirectGet ext_error
  | AckError ext_error

subsection \<open>Configurations the code builds\<close>

record stream_args =
  sa_name :: string
  sa_subject :: string
  sa_description :: string

datatype discard_policy = DiscardOld | DiscardNew
datatype retention_policy = RetentionLimits | RetentionInterest | RetentionWorkQueue

record stream_config =
  sc_name :: string
  sc_discard :: discard_policy
  sc_subjects :: "string list"
  sc_retention :: retention_policy
  sc_duplicate_window :: duration
  sc_description :: "string option"
  sc_allow_rollup :: bool
  sc_deny_delete :: bool
  sc_allow_direct :: bool

datatype deliver_policy = DeliverAll | DeliverLast | DeliverNew
datatype ack_policy = AckNone | AckAll | AckExplicit
datatype replay_policy = ReplayInstant | ReplayOriginal

record push_config =
  pc_deliver_subject :: string
  pc_name :: "string option"
  pc_deliver_group :: "string option"
  pc_description :: "string option"
  pc_deliver_policy :: deliver_policy
  pc_ack_policy :: ack_policy
  pc_ack_wait :: duration
  pc_max_deliver :: i64
  pc_replay_policy :: replay_policy
  pc_sample_frequency :: u8
  pc_max_ack_pending :: i64
  pc_flow_control :: bool
  pc_idle_heartbeat :: duration
  pc_inactive_threshold :: duration

record kv_config =
  kc_bucket :: string
  kc_description :: string

datatype jetstream_ack_kind = JsAck | JsNak "duration option" | JsProgress

record publish_ack =
  pa_sequence :: u64
  pa_duplicate :: bool

record kv_entry =
  ke_value :: bytes
  ke_revision :: u64

record ('w, 'x) nats_env =
  connect_with_options :: "string list \<Rightarrow> bool \<Rightarrow> ('w, ext_error, 'x) io"
  new_inbox :: "'x \<Rightarrow> 'w \<Rightarrow> string \<times> 'w"
  new_uuid :: "'w \<Rightarrow> string \<times> 'w"
  get_or_create_stream :: "'x \<Rightarrow> stream_config \<Rightarrow> ('w, ext_error, 'x) io"
  create_consumer :: "'x \<Rightarrow> push_config \<Rightarrow> ('w, ext_error, 'x) io"
  create_key_value :: "'x \<Rightarrow> kv_config \<Rightarrow> ('w, ext_error, 'x) io"
  publish_with_headers ::
    "'x \<Rightarrow> string \<Rightarrow> (string \<times> string) list \<Rightarrow> bytes \<Rightarrow> ('w, ext_error, 'x) io"
  await_publish_ack :: "'x \<Rightarrow> ('w, ext_error, publish_ack) io"
  get_info :: "'x \<Rightarrow> ('w, ext_error, u64) io"
  stream_info :: "'x \<Rightarrow> ('w, ext_error, u64) io"
  direct_get :: "'x \<Rightarrow> u64 \<Rightarrow> ('w, ext_error, bytes) io"
  consumer_messages :: "'x \<Rightarrow> ('w, ext_error, (ext_error + 'x) list) io"
  consumer_info :: "'x \<Rightarrow> ('w, ext_error, unit) io"
  message_payload :: "'x \<Rightarrow> bytes"
  ack_with :: "'x \<Rightarrow> jetstream_ack_kind \<Rightarrow> ('w, ext_error, unit) io"
  store_update :: "'x \<Rightarrow> string \<Rightarrow> bytes \<Rightarrow> u64 \<Rightarrow> ('w, ext_error, u64) io"
  store_put :: "'x \<Rightarrow> string \<Rightarrow> bytes \<Rightarrow> ('w, ext_error, u64) io"
  store_entry :: "'x \<Rightarrow> string \<Rightarrow> ('w, ext_error, kv_entry option) io"

subsection \<open>Publisher\<close>

definition nats_msg_id_header :: string where
  "nats_msg_id_header = ''Nats-Msg-Id''"

record 'x nats_publisher =
  np_context :: 'x
  np_stream :: 'x
  np_subject :: string

definition nats_publisher_new :: "'x \<Rightarrow> 'x \<Rightarrow> string \<Rightarrow> 'x nats_publisher" where
  "nats_publisher_new ctx stream subject =
     \<lparr>np_context = ctx, np_stream = stream, np_subject = subject\<rparr>"

definition nats_publish ::
  "('w, 'x) nats_env \<Rightarrow> 'm borsh_type \<Rightarrow> 'x nats_publisher \<Rightarrow> 'm publish_message \<Rightarrow>
     ('w, nats_error, publish_ack) io" where
  "nats_publish N C P msg =
     (let headers = [(nats_msg_id_header, deduplication_id msg)]
      in io_bind (io_lift (map_err Serialize (to_vec C (pm_data msg)))) (\<lambda>data.
         io_bind (io_map_err Publish (publish_with_headers N (np_context P) (np_subject P) headers data))
           (\<lambda>pending. io_map_err Publish (await_publish_ack N pending))))"

fun nats_publish_batch ::
  "('w, 'x) nats_env \<Rightarrow> 'm borsh_type \<Rightarrow> 'x nats_publisher \<Rightarrow> 'm publish_message list \<Rightarrow>
     ('w, nats_error, publish_ack list) io" where
  "nats_publish_batch N C P [] = io_ok []"
| "nats_publish_batch N C P (msg # batch) =
     io_bind (nats_publish N C P msg) (\<lambda>res.
       io_bind (nats_publish_batch N C P batch) (\<lambda>output. io_ok (res # output)))"

definition nats_publisher_check_health ::
  "('w, 'x) nats_env \<Rightarrow> 'x nats_publisher \<Rightarrow> ('w, nats_error, unit) io" where
  "nats_publisher_check_health N P =
     io_bind (io_map_err PublisherInfo (get_info N (np_stream P))) (\<lambda>_. io_ok ())"

definition nats_peek_last ::
  "('w, 'x) nats_env \<Rightarrow> 'm borsh_type \<Rightarrow> ('m \<Rightarrow> 'id) \<Rightarrow> 'x nats_publisher \<Rightarrow>
     ('w, nats_error, 'id option) io" where
  "nats_peek_last N C msg_id P =
     io_bind (io_map_err PublisherInfo (stream_info N (np_stream P))) (\<lambda>last_sequence.
       if last_sequence = 0 then io_ok None
       else
         io_bind (io_map_err DirectGet (direct_get N (np_stream P) last_sequence)) (\<lambda>payload.
           io_bind (io_lift (map_err Deserialize (from_slice C payload))) (\<lambda>msg.
             io_ok (Some (msg_id msg)))))"

subsection \<open>Consumer\<close>

fun jetstream_ack_kind_from :: "ack_kind \<Rightarrow> jetstream_ack_kind" where
  "jetstream_ack_kind_from Ack = JsAck"
| "jetstream_ack_kind_from Nak = JsNak None"
| "jetstream_ack_kind_from Progress = JsProgress"

record ('x, 'm) nats_message =
  nm_decoded :: 'm
  nm_msg :: 'x

definition nats_message_decode ::
  "('w, 'x) nats_env \<Rightarrow> 'm borsh_type \<Rightarrow> 'x \<Rightarrow> nats_error + ('x, 'm) nats_message" where
  "nats_message_decode N C msg =
     res_bind (map_err Deserialize (from_slice C (message_payload N msg)))
       (\<lambda>decoded. Inr \<lparr>nm_decoded = decoded, nm_msg = msg\<rparr>)"

definition nats_message_ack ::
  "('w, 'x) nats_env \<Rightarrow> ack_kind \<Rightarrow> ('x, 'm) nats_message \<Rightarrow> ('w, nats_error, unit) io" where
  "nats_message_ack N kind m =
     io_bind (io_map_err AckError (ack_with N (nm_msg m) (jetstream_ack_kind_from kind)))
       (\<lambda>_. io_ok ())"

record 'x nats_consumer =
  consumer_inner :: 'x

definition nats_consumer_new :: "'x \<Rightarrow> 'x nats_consumer" where
  "nats_consumer_new consumer = \<lparr>consumer_inner = consumer\<rparr>"

definition nats_messages ::
  "('w, 'x) nats_env \<Rightarrow> 'm borsh_type \<Rightarrow> 'x nats_consumer \<Rightarrow>
     ('w, nats_error, (nats_error + ('x, 'm) nats_message) list) io" where
  "nats_messages N C K =
     io_bind (io_map_err MessagesStream (consumer_messages N (consumer_inner K))) (\<lambda>stream.
       io_ok (map (\<lambda>msg_result.
         case msg_result of
           Inr msg \<Rightarrow> nats_message_decode N C msg
         | Inl err \<Rightarrow> Inl (Messages err)) stream))"

definition nats_consumer_check_health ::
  "('w, 'x) nats_env \<Rightarrow> 'x nats_consumer \<Rightarrow> ('w, nats_error, unit) io" where
  "nats_consumer_check_health N K w =
     (case consumer_info N (consumer_inner K) w of
        (Inl err, w') \<Rightarrow> (Inr (), w')
      | (Inr _, w') \<Rightarrow> (Inr (), w'))"

subsection \<open>Key-value store\<close>

record 'x nats_kv_store =
  nk_bucket :: string
  nk_store :: 'x

definition nats_kv_store_new :: "string \<Rightarrow> 'x \<Rightarrow> 'x nats_kv_store" where
  "nats_kv_store_new bucket store = \<lparr>nk_bucket = bucket, nk_store = store\<rparr>"

definition nats_kv_update ::
  "('w, 'x) nats_env \<Rightarrow> 'a borsh_type \<Rightarrow> 'x nats_kv_store \<Rightarrow> 'a with_revision \<Rightarrow>
     ('w, nats_error, u64) io" where
  "nats_kv_update N C K d =
     io_bind (io_lift (map_err Serialize (to_vec C (wr_value d)))) (\<lambda>value_bytes.
       io_map_err Update (store_update N (nk_store K) (nk_bucket K) value_bytes (wr_revision d)))"

definition nats_kv_put ::
  "('w, 'x) nats_env \<Rightarrow> 'a borsh_type \<Rightarrow> 'x nats_kv_store \<Rightarrow> 'a \<Rightarrow> ('w, nats_error, u64) io" where
  "nats_kv_put N C K v =
     io_bind (io_lift (map_err Serialize (to_vec C v))) (\<lambda>value_bytes.
       io_map_err Put (store_put N (nk_store K) (nk_bucket K) value_bytes))"

definition nats_kv_get ::
  "('w, 'x) nats_env \<Rightarrow> 'a borsh_type \<Rightarrow> 'x nats_kv_store \<Rightarrow>
     ('w, nats_error, 'a with_revision option) io" where
  "nats_kv_get N C K =
     io_bind (io_map_err Entry (store_entry N (nk_store K) (nk_bucket K))) (\<lambda>entry.
       case entry of
         None \<Rightarrow> io_ok None
       | Some e \<Rightarrow>
           io_bind (io_lift (map_err Deserialize (from_slice C (ke_value e)))) (\<lambda>value.
             io_ok (Some \<lparr>wr_value = value, wr_revision = ke_revision e\<rparr>)))"

subsection \<open>Builder and connectors\<close>

record 'x nats_builder =
  nb_inbox :: string
  nb_context :: 'x

record 'x configured_stream =
  cs_inbox :: string
  cs_context :: 'x
  cs_stream :: 'x

definition connect_to_nats ::
  "('w, 'x) nats_env \<Rightarrow> string list \<Rightarrow> ('w, nats_error, 'x nats_builder) io" where
  "connect_to_nats N urls =
     io_bind (io_map_err Connect (connect_with_options N urls True)) (\<lambda>client w.
       let (inbox, w') = new_inbox N client w
       in io_ok \<lparr>nb_inbox = inbox, nb_context = client\<rparr> w')"

definition stream_config_of :: "stream_args \<Rightarrow> stream_config" where
  "stream_config_of args =
     \<lparr>sc_name = sa_name args, sc_discard = DiscardOld, sc_subjects = [sa_subject args],
      sc_retention = RetentionLimits, sc_duplicate_window = from_secs (60 * 5),
      sc_description = Some (sa_description args), sc_allow_rollup = True,
      sc_deny_delete = True, sc_allow_direct = True\<rparr>"

definition builder_stream ::
  "('w, 'x) nats_env \<Rightarrow> 'x nats_builder \<Rightarrow> stream_args \<Rightarrow> ('w, nats_error, 'x configured_stream) io" where
  "builder_stream N B args =
     io_bind (io_map_err CreateStream (get_or_create_stream N (nb_context B) (stream_config_of args)))
       (\<lambda>stream. io_ok \<lparr>cs_inbox = nb_inbox B, cs_context = nb_context B, cs_stream = stream\<rparr>)"

definition configured_publisher :: "'x configured_stream \<Rightarrow> string \<Rightarrow> 'x nats_publisher" where
  "configured_publisher S subject = nats_publisher_new (cs_context S) (cs_stream S) subject"

definition consumer_config_of :: "string \<Rightarrow> string \<Rightarrow> string \<Rightarrow> string \<Rightarrow> push_config" where
  "consumer_config_of inbox uuid description deliver_group =
     \<lparr>pc_deliver_subject = inbox, pc_name = Some uuid, pc_deliver_group = Some deliver_group,
      pc_description = Some description, pc_deliver_policy = DeliverNew,
      pc_ack_policy = AckExplicit, pc_ack_wait = from_secs 10, pc_max_deliver = 10,
      pc_replay_policy = ReplayInstant, pc_sample_frequency = 10, pc_max_ack_pending = 100,
      pc_flow_control = True, pc_idle_heartbeat = from_secs 10,
      pc_inactive_threshold = from_secs 15\<rparr>"

definition configured_consumer ::
  "('w, 'x) nats_env \<Rightarrow> 'x configured_stream \<Rightarrow> string \<Rightarrow> string \<Rightarrow>
     ('w, nats_error, 'x nats_consumer) io" where
  "configured_consumer N S description deliver_group w =
     (let (uuid, w') = new_uuid N w;
          config = consumer_config_of (cs_inbox S) uuid description deliver_group
      in io_bind (io_map_err CreateConsumer (create_consumer N (cs_stream S) config))
           (\<lambda>consumer. io_ok (nats_consumer_new consumer)) w')"

definition nats_connect_consumer ::
  "('w, 'x) nats_env \<Rightarrow> string list \<Rightarrow> stream_args \<Rightarrow> string \<Rightarrow> string \<Rightarrow>
     ('w, nats_error, 'x nats_consumer) io" where
  "nats_connect_consumer N urls stream consumer_desc deliver_group =
     io_bind (connect_to_nats N urls) (\<lambda>B.
       io_bind (builder_stream N B stream) (\<lambda>S.
         configured_consumer N S consumer_desc deliver_group))"

definition nats_connect_publisher ::
  "('w, 'x) nats_env \<Rightarrow> string list \<Rightarrow> stream_args \<Rightarrow> string \<Rightarrow>
     ('w, nats_error, 'x nats_publisher) io" where
  "nats_connect_publisher N urls stream subject =
     io_bind (connect_to_nats N urls) (\<lambda>B.
       io_bind (builder_stream N B stream) (\<lambda>S. io_ok (configured_publisher S subject)))"

definition nats_connect_kv_store ::
  "('w, 'x) nats_env \<Rightarrow> string list \<Rightarrow> string \<Rightarrow> string \<Rightarrow> ('w, nats_error, 'x nats_kv_store) io" where
  "nats_connect_kv_store N urls bucket description =
     io_bind (io_map_err Connect (connect_with_options N urls True)) (\<lambda>client.
       io_bind (io_map_err CreateKeyValue
           (create_key_value N client \<lparr>kc_bucket = bucket, kc_description = description\<rparr>))
         (\<lambda>store. io_ok (nats_kv_store_new bucket store)))"

subsection \<open>What is relied on of JetStream\<close>

text \<open>
  A view of the server: the last sequence of a stream, the payload stored at a sequence, the
  entry of a key with its revision, and which answers to a message have been taken note of.
  The publisher is the only one that writes to its stream between two of its calls.
\<close>

record ('w, 'x) jetstream_view =
  jv_last :: "'x \<Rightarrow> 'w \<Rightarrow> u64"
  jv_payload :: "'x \<Rightarrow> 'w \<Rightarrow> u64 \<Rightarrow> bytes option"
  jv_entry :: "'x \<Rightarrow> string \<Rightarrow> 'w \<Rightarrow> kv_entry option"
  jv_answered :: "'x \<Rightarrow> jetstream_ack_kind \<Rightarrow> 'w \<Rightarrow> bool"

definition jetstream_ok :: "('w, 'x) nats_env \<Rightarrow> ('w, 'x) jetstream_view \<Rightarrow> 'x nats_publisher \<Rightarrow> bool" where
  "jetstream_ok N V P \<longleftrightarrow>
     (\<forall>headers data w h w1 a w2.
        publish_with_headers N (np_context P) (np_subject P) headers data w = (Inr h, w1) \<longrightarrow>
        await_publish_ack N h w1 = (Inr a, w2) \<longrightarrow> \<not> pa_duplicate a \<longrightarrow>
        jv_last V (np_stream P) w2 \<noteq> 0 \<and>
        jv_payload V (np_stream P) w2 (jv_last V (np_stream P) w2) = Some data) \<and>
     (\<forall>w n w'. stream_info N (np_stream P) w = (Inr n, w') \<longrightarrow>
        n = jv_last V (np_stream P) w \<and> jv_last V (np_stream P) w' = jv_last V (np_stream P) w \<and>
        jv_payload V (np_stream P) w' = jv_payload V (np_stream P) w) \<and>
     (\<forall>w n payload w'. direct_get N (np_stream P) n w = (Inr payload, w') \<longrightarrow>
        jv_payload V (np_stream P) w n = Some payload \<and>
        jv_last V (np_stream P) w' = jv_last V (np_stream P) w \<and>
        jv_payload V (np_stream P) w' = jv_payload V (np_stream P) w)"

text \<open>An update succeeds only on the current revision, and every write gets a new one.\<close>

definition kv_ok :: "('w, 'x) nats_env \<Rightarrow> ('w, 'x) jetstream_view \<Rightarrow> 'x nats_kv_store \<Rightarrow> bool" where
  "kv_ok N V K \<longleftrightarrow>
     (\<forall>data rev w r w'. store_update N (nk_store K) (nk_bucket K) data rev w = (Inr r, w') \<longrightarrow>
        (case jv_entry V (nk_store K) (nk_bucket K) w of
           None \<Rightarrow> rev = 0 | Some e \<Rightarrow> ke_revision e = rev) \<and> r > rev \<and>
        jv_entry V (nk_store K) (nk_bucket K) w' = Some \<lparr>ke_value = data, ke_revision = r\<rparr>) \<and>
     (\<forall>data w r w'. store_put N (nk_store K) (nk_bucket K) data w = (Inr r, w') \<longrightarrow>
        jv_entry V (nk_store K) (nk_bucket K) w' = Some \<lparr>ke_value = data, ke_revision = r\<rparr>) \<and>
     (\<forall>w e w'. store_entry N (nk_store K) (nk_bucket K) w = (Inr e, w') \<longrightarrow>
        e = jv_entry V (nk_store K) (nk_bucket K) w \<and>
        jv_entry V (nk_store K) (nk_bucket K) w' = jv_entry V (nk_store K) (nk_bucket K) w)"

definition ack_ok :: "('w, 'x) nats_env \<Rightarrow> ('w, 'x) jetstream_view \<Rightarrow> bool" where
  "ack_ok N V \<longleftrightarrow> (\<forall>m k w w'. ack_with N m k w = (Inr (), w') \<longrightarrow> jv_answered V m k w')"

subsection \<open>The publisher provides the peekable-publisher interface\<close>

record ('w, 'x, 'm, 'id) nats_peekable =
  ny_env :: "('w, 'x) nats_env"
  ny_view :: "('w, 'x) jetstream_view"
  ny_codec :: "'m borsh_type"
  ny_id :: "'m \<Rightarrow> 'id"
  ny_publisher :: "'x nats_publisher"

definition nats_peekable_ok :: "('w, 'x, 'm, 'id) nats_peekable \<Rightarrow> bool" where
  "nats_peekable_ok Y \<longleftrightarrow>
     jetstream_ok (ny_env Y) (ny_view Y) (ny_publisher Y) \<and> borsh_type_ok (ny_codec Y)"

definition nats_latest :: "('w, 'x, 'm, 'id) nats_peekable \<Rightarrow> 'w \<Rightarrow> 'id option \<Rightarrow> bool" where
  "nats_latest Y w v \<longleftrightarrow>
     (let stream = np_stream (ny_publisher Y); n = jv_last (ny_view Y) stream w
      in case v of
           None \<Rightarrow> n = 0
         | Some i \<Rightarrow> n \<noteq> 0 \<and> (\<exists>payload m. jv_payload (ny_view Y) stream w n = Some payload \<and>
             from_slice (ny_codec Y) payload = Inr m \<and> ny_id Y m = i))"

text \<open>The last acknowledgement was not that of a duplicate.\<close>

definition last_not_duplicate :: "publish_ack list \<Rightarrow> bool" where
  "last_not_duplicate rs \<longleftrightarrow> rs \<noteq> [] \<and> \<not> pa_duplicate (last rs)"

lemma nats_publish_ok:
  "nats_publish N C P msg w = (Inr a, w2) \<longleftrightarrow>
     (\<exists>data h w1. to_vec C (pm_data msg) = Inr data \<and>
        publish_with_headers N (np_context P) (np_subject P)
          [(nats_msg_id_header, deduplication_id msg)] data w = (Inr h, w1) \<and>
        await_publish_ack N h w1 = (Inr a, w2))"
  by (auto simp: nats_publish_def Let_def io_cases)

lemma nats_publish_batch_ok:
  "nats_publish_batch N C P batch w = (Inr rs, w') \<Longrightarrow> length rs = length batch \<and>
     (batch \<noteq> [] \<longrightarrow> (\<exists>w1. nats_publish N C P (last batch) w1 = (Inr (last rs), w')))"
proof (induction batch arbitrary: w rs)
  case (Cons msg batch)
  then obtain a w1 rest where here: "nats_publish N C P msg w = (Inr a, w1)"
    and rest: "nats_publish_batch N C P batch w1 = (Inr rest, w')" "rs = a # rest"
    by (auto simp: io_cases)
  show ?case
  proof (cases batch)
    case Nil
    with here rest show ?thesis by (auto simp: io_cases)
  next
    case (Cons m ms)
    with Cons.IH [OF rest(1)] rest(2) show ?thesis by auto
  qed
qed (simp add: io_cases)

lemma nats_publish_latest:
  assumes "nats_peekable_ok Y"
    and "nats_publish (ny_env Y) (ny_codec Y) (ny_publisher Y) msg w = (Inr a, w')"
    and "\<not> pa_duplicate a"
  shows "nats_latest Y w' (Some (ny_id Y (pm_data msg)))"
  using assms unfolding nats_publish_ok nats_peekable_ok_def jetstream_ok_def nats_latest_def Let_def
  using borsh_type_okD by fastforce

lemma nats_peek_latest:
  assumes "nats_peekable_ok Y" "nats_latest Y w v"
    and "nats_peek_last (ny_env Y) (ny_codec Y) (ny_id Y) (ny_publisher Y) w = (Inr x, w')"
  shows "x = v \<and> nats_latest Y w' v"
proof -
  let ?s = "np_stream (ny_publisher Y)"
  let ?same = "\<lambda>w1 w2. jv_last (ny_view Y) ?s w2 = jv_last (ny_view Y) ?s w1 \<and>
    jv_payload (ny_view Y) ?s w2 = jv_payload (ny_view Y) ?s w1"
  have info: "n = jv_last (ny_view Y) ?s w1 \<and> ?same w1 w2"
    if "stream_info (ny_env Y) ?s w1 = (Inr n, w2)" for n w1 w2
    using assms(1) that unfolding nats_peekable_ok_def jetstream_ok_def by blast
  have got: "jv_payload (ny_view Y) ?s w1 n = Some pl \<and> ?same w1 w2"
    if "direct_get (ny_env Y) ?s n w1 = (Inr pl, w2)" for n pl w1 w2
    using assms(1) that unfolding nats_peekable_ok_def jetstream_ok_def by blast
  obtain n w1 where step: "stream_info (ny_env Y) ?s w = (Inr n, w1)"
    and rest: "(if n = 0 then io_ok None else
      io_bind (io_map_err DirectGet (direct_get (ny_env Y) ?s n)) (\<lambda>payload.
        io_bind (io_lift (map_err Deserialize (from_slice (ny_codec Y) payload))) (\<lambda>msg.
          io_ok (Some (ny_id Y msg))))) w1 = (Inr x, w')"
    using assms(3) by (auto simp: nats_peek_last_def io_cases)
  note here = info [OF step]
  show ?thesis
  proof (cases "n = 0")
    case True
    with rest here assms(2) show ?thesis
      by (auto simp: io_cases nats_latest_def Let_def split: option.splits)
  next
    case False
    with rest obtain pl m where pl: "direct_get (ny_env Y) ?s n w1 = (Inr pl, w')"
      and m: "from_slice (ny_codec Y) pl = Inr m" "x = Some (ny_id Y m)"
      by (auto simp: io_cases)
    from got [OF pl] here have "jv_payload (ny_view Y) ?s w n = Some pl" "?same w w'" by simp_all
    with assms(2) here m False show ?thesis
      by (auto simp: nats_latest_def Let_def split: option.splits)
  qed
qed

interpretation nats_peekable: peek_publisher nats_peekable_ok ny_id nats_latest last_not_duplicate
  "\<lambda>Y. nats_publish_batch (ny_env Y) (ny_codec Y) (ny_publisher Y)"
  "\<lambda>Y. nats_peek_last (ny_env Y) (ny_codec Y) (ny_id Y) (ny_publisher Y)"
proof (unfold_locales, goal_cases)
  case (1 Y b w rs w')
  with nats_publish_batch_ok [OF 1(3)] nats_publish_latest [of Y "last b" _ "last rs" w']
  show ?case by (auto simp: last_not_duplicate_def)
next
  case (2 b Y w rs w')
  then show ?case by (intro nats_publish_batch_ok [THEN conjunct1])
next
  case (3 Y w v x w')
  then show ?case by (rule nats_peek_latest)
qed

subsection \<open>The key-value store provides the store interface\<close>

record ('w, 'x, 'a) nats_kv_client =
  nz_env :: "('w, 'x) nats_env"
  nz_view :: "('w, 'x) jetstream_view"
  nz_codec :: "'a borsh_type"
  nz_store :: "'x nats_kv_store"

definition nats_kv_client_ok :: "('w, 'x, 'a) nats_kv_client \<Rightarrow> bool" where
  "nats_kv_client_ok Z \<longleftrightarrow> kv_ok (nz_env Z) (nz_view Z) (nz_store Z) \<and> borsh_type_ok (nz_codec Z)"

definition nats_kv_entry :: "('w, 'x, 'a) nats_kv_client \<Rightarrow> 'w \<Rightarrow> kv_entry option" where
  "nats_kv_entry Z w = jv_entry (nz_view Z) (nk_store (nz_store Z)) (nk_bucket (nz_store Z)) w"

definition nats_kv_holds :: "('w, 'x, 'a) nats_kv_client \<Rightarrow> 'w \<Rightarrow> 'a option \<Rightarrow> bool" where
  "nats_kv_holds Z w v \<longleftrightarrow>
     (case v of
        None \<Rightarrow> nats_kv_entry Z w = None
      | Some a \<Rightarrow> \<exists>e. nats_kv_entry Z w = Some e \<and> from_slice (nz_codec Z) (ke_value e) = Inr a)"

lemma nats_kv_update_ok:
  assumes "nats_kv_client_ok Z"
    and "nats_kv_update (nz_env Z) (nz_codec Z) (nz_store Z) d w = (Inr r, w')"
  obtains bs where "to_vec (nz_codec Z) (wr_value d) = Inr bs" "r > wr_revision d"
    "case nats_kv_entry Z w of None \<Rightarrow> wr_revision d = 0 | Some e \<Rightarrow> ke_revision e = wr_revision d"
    "nats_kv_entry Z w' = Some \<lparr>ke_value = bs, ke_revision = r\<rparr>"
  using assms unfolding nats_kv_client_ok_def kv_ok_def nats_kv_update_def nats_kv_entry_def
  by (auto simp: io_cases)

lemma nats_kv_put_ok:
  assumes "nats_kv_client_ok Z"
    and "nats_kv_put (nz_env Z) (nz_codec Z) (nz_store Z) v w = (Inr r, w')"
  obtains bs where "to_vec (nz_codec Z) v = Inr bs"
    "nats_kv_entry Z w' = Some \<lparr>ke_value = bs, ke_revision = r\<rparr>"
  using assms unfolding nats_kv_client_ok_def kv_ok_def nats_kv_put_def nats_kv_entry_def
  by (auto simp: io_cases)

lemma nats_kv_get_ok:
  assumes "nats_kv_client_ok Z"
    and "nats_kv_get (nz_env Z) (nz_codec Z) (nz_store Z) w = (Inr x, w')"
  shows "nats_kv_entry Z w' = nats_kv_entry Z w \<and>
    (case nats_kv_entry Z w of
       None \<Rightarrow> x = None
     | Some e \<Rightarrow> \<exists>a. from_slice (nz_codec Z) (ke_value e) = Inr a \<and>
         x = Some \<lparr>wr_value = a, wr_revision = ke_revision e\<rparr>)"
proof -
  obtain entry w1 where got: "store_entry (nz_env Z) (nk_store (nz_store Z)) (nk_bucket (nz_store Z)) w = (Inr entry, w1)"
    and rest: "(case entry of
         None \<Rightarrow> io_ok None
       | Some e \<Rightarrow>
           io_bind (io_lift (map_err Deserialize (from_slice (nz_codec Z) (ke_value e)))) (\<lambda>value.
             io_ok (Some \<lparr>wr_value = value, wr_revision = ke_revision e\<rparr>))) w1 = (Inr x, w')"
    using assms(2) by (auto simp: nats_kv_get_def io_cases)
  have "entry = nats_kv_entry Z w \<and> nats_kv_entry Z w1 = nats_kv_entry Z w"
    using assms(1) got unfolding nats_kv_client_ok_def kv_ok_def nats_kv_entry_def by blast
  with rest show ?thesis
    by (auto simp: io_cases split: option.splits)
qed

lemma nats_kv_holdsI:
  assumes "nats_kv_client_ok Z" "to_vec (nz_codec Z) v = Inr bs"
    and "nats_kv_entry Z w = Some \<lparr>ke_value = bs, ke_revision = r\<rparr>"
  shows "nats_kv_holds Z w (Some v)"
  using assms borsh_type_okD [of "nz_codec Z" v bs] by (simp add: nats_kv_client_ok_def nats_kv_holds_def)

interpretation nats_kv: kv_store nats_kv_client_ok nats_kv_holds
  "\<lambda>Z. nats_kv_update (nz_env Z) (nz_codec Z) (nz_store Z)"
  "\<lambda>Z. nats_kv_put (nz_env Z) (nz_codec Z) (nz_store Z)"
  "\<lambda>Z. nats_kv_get (nz_env Z) (nz_codec Z) (nz_store Z)"
proof (unfold_locales, goal_cases)
  case (1 Z d w r w')
  from nats_kv_update_ok [OF this] nats_kv_holdsI [OF 1(1)] show ?case by metis
next
  case (2 Z v w r w')
  from nats_kv_put_ok [OF this] nats_kv_holdsI [OF 2(1)] show ?case by metis
next
  case (3 Z w known x w')
  from nats_kv_get_ok [OF 3(1,3)] 3(2) show ?case
    by (auto simp: nats_kv_holds_def split: option.splits)
qed

subsection \<open>Its messages provide the message interface\<close>

record ('w, 'x) nats_ack_client =
  na_env :: "('w, 'x) nats_env"
  na_view :: "('w, 'x) jetstream_view"

definition nats_ack_ok :: "('w, 'x) nats_ack_client \<Rightarrow> bool" where
  "nats_ack_ok A \<longleftrightarrow> ack_ok (na_env A) (na_view A)"

definition nats_settled :: "('w, 'x) nats_ack_client \<Rightarrow> 'w \<Rightarrow> ('x, 'm) nats_message \<Rightarrow> ack_kind \<Rightarrow> bool" where
  "nats_settled A w m k = jv_answered (na_view A) (nm_msg m) (jetstream_ack_kind_from k) w"

text \<open>The message itself is left as it is by \<open>ack\<close>.\<close>

definition nats_ack_step ::
  "('w, 'x) nats_ack_client \<Rightarrow> ack_kind \<Rightarrow> ('x, 'm) nats_message \<Rightarrow> 'w \<Rightarrow>
     (nats_error + unit) \<times> ('x, 'm) nats_message \<times> 'w" where
  "nats_ack_step A k m w = (let (r, w') = nats_message_ack (na_env A) k m w in (r, m, w'))"

interpretation nats_msg: queue_message nats_ack_ok nm_decoded nats_settled nats_ack_step
proof (unfold_locales, goal_cases)
  case (1 A k m w m' w')
  then show ?case
    by (auto simp: nats_ack_step_def nats_message_ack_def nats_ack_ok_def ack_ok_def nats_settled_def
        io_cases split: prod.splits)
next
  case (2 A k m w r m' w')
  then show ?case by (simp add: nats_ack_step_def split: prod.splits)
qed

subsection \<open>A server in memory\<close>

text \<open>
  A small server on which the properties are applied: one stream that keeps its last message,
  one key, and a log of the answers.  It refuses to go past the largest sequence or revision.
\<close>

record memory_server =
  ms_sequence :: u64
  ms_last :: "bytes option"
  ms_entry :: "kv_entry option"
  ms_answers :: "(u64 \<times> jetstream_ack_kind) list"

definition memory_nats :: "(memory_server, u64) nats_env" where
  "memory_nats =
     \<lparr>connect_with_options = (\<lambda>urls retry. io_ok 0),
      new_inbox = (\<lambda>client w. (''_INBOX'', w)),
      new_uuid = (\<lambda>w. (''uuid'', w)),
      get_or_create_stream = (\<lambda>ctx cfg. io_ok 1),
      create_consumer = (\<lambda>stream cfg. io_ok 2),
      create_key_value = (\<lambda>ctx cfg. io_ok 3),
      publish_with_headers = (\<lambda>ctx subject headers data w.
        if ms_sequence w = - 1 then (Inl (ExtError ''full''), w)
        else (Inr (ms_sequence w + 1), w\<lparr>ms_sequence := ms_sequence w + 1, ms_last := Some data\<rparr>)),
      await_publish_ack = (\<lambda>h. io_ok \<lparr>pa_sequence = h, pa_duplicate = False\<rparr>),
      get_info = (\<lambda>stream w. (Inr (ms_sequence w), w)),
      stream_info = (\<lambda>stream w. (Inr (ms_sequence w), w)),
      direct_get = (\<lambda>stream n w.
        if n = ms_sequence w then
          (case ms_last w of Some payload \<Rightarrow> (Inr payload, w) | None \<Rightarrow> (Inl (ExtError ''no message''), w))
        else (Inl (ExtError ''no message''), w)),
      consumer_messages = (\<lambda>consumer. io_ok []),
      consumer_info = (\<lambda>consumer. io_err (ExtError ''consumer not found'')),
      message_payload = (\<lambda>m. []),
      ack_with = (\<lambda>m k. io_do (\<lambda>w. w\<lparr>ms_answers := (m, k) # ms_answers w\<rparr>)),
      store_update = (\<lambda>store key data rev w.
        if rev = - 1 \<or> rev \<noteq> (case ms_entry w of None \<Rightarrow> 0 | Some e \<Rightarrow> ke_revision e)
        then (Inl (ExtError ''wrong last revision''), w)
        else (Inr (rev + 1), w\<lparr>ms_entry := Some \<lparr>ke_value = data, ke_revision = rev + 1\<rparr>\<rparr>)),
      store_put = (\<lambda>store key data w.
        let rev = (case ms_entry w of None \<Rightarrow> 0 | Some e \<Rightarrow> ke_revision e)
        in if rev = - 1 then (Inl (ExtError ''full''), w)
           else (Inr (rev + 1), w\<lparr>ms_entry := Some \<lparr>ke_value = data, ke_revision = rev + 1\<rparr>\<rparr>)),
      store_entry = (\<lambda>store key w. (Inr (ms_entry w), w))\<rparr>"

definition memory_view :: "(memory_server, u64) jetstream_view" where
  "memory_view =
     \<lparr>jv_last = (\<lambda>stream w. ms_sequence w),
      jv_payload = (\<lambda>stream w n. if n = ms_sequence w then ms_last w else None),
      jv_entry = (\<lambda>store key w. ms_entry w),
      jv_answered = (\<lambda>m k w. (m, k) \<in> set (ms_answers w))\<rparr>"

definition memory_start :: memory_server where
  "memory_start = \<lparr>ms_sequence = 0, ms_last = None, ms_entry = None, ms_answers = []\<rparr>"

definition raw_bytes :: "bytes borsh_type" where
  "raw_bytes = \<lparr>to_vec = Inr, from_slice = Inr\<rparr>"

definition memory_peekable :: "(memory_server, u64, bytes, bytes) nats_peekable" where
  "memory_peekable =
     \<lparr>ny_env = memory_nats, ny_view = memory_view, ny_codec = raw_bytes, ny_id = (\<lambda>m. m),
      ny_publisher = nats_publisher_new 0 1 ''events''\<rparr>"

definition memory_kv :: "(memory_server, u64, bytes) nats_kv_client" where
  "memory_kv =
     \<lparr>nz_env = memory_nats, nz_view = memory_view, nz_codec = raw_bytes,
      nz_store = nats_kv_store_new ''bucket'' 3\<rparr>"

lemmas memory_defs = memory_nats_def memory_view_def memory_start_def memory_peekable_def
  memory_kv_def raw_bytes_def

lemma memory_peekable_sel:
  "ny_env memory_peekable = memory_nats" "ny_codec memory_peekable = raw_bytes"
  "ny_id memory_peekable = (\<lambda>m. m)"
  by (simp_all add: memory_peekable_def)

lemma memory_kv_sel: "nz_env memory_kv = memory_nats" "nz_codec memory_kv = raw_bytes"
  by (simp_all add: memory_kv_def)

lemma memory_raw_bytes_ok [simp]: "borsh_type_ok raw_bytes"
  by (simp add: borsh_type_ok_def raw_bytes_def)

lemma word_plus_1_not_0: "(w :: 'a::len word) \<noteq> - 1 \<Longrightarrow> w + 1 \<noteq> 0"
  by (metis add_diff_cancel_right' diff_0)

lemma word_less_plus_1: "(w :: 'a::len word) \<noteq> - 1 \<Longrightarrow> w < w + 1"
proof -
  assume "w \<noteq> - 1"
  then have "unat w \<noteq> 2 ^ LENGTH('a) - 1"
    by (metis unat_max_word word_unat_eq_iff)
  then have "unat w + 1 < 2 ^ LENGTH('a)"
    using unsigned_less [of w, where ?'a = nat] by linarith
  then show "w < w + 1"
    by (simp add: word_less_nat_alt unat_word_ariths)
qed

lemma memory_peekable_ok: "nats_peekable_ok memory_peekable"
  by (auto simp: nats_peekable_ok_def jetstream_ok_def memory_defs io_defs word_plus_1_not_0
      split: if_splits option.splits simp flip: raw_bytes_def)

lemma memory_kv_ok: "nats_kv_client_ok memory_kv"
  by (auto simp: nats_kv_client_ok_def kv_ok_def memory_defs Let_def word_less_plus_1
      split: if_splits option.splits simp flip: raw_bytes_def)

subsection \<open>Properties\<close>

text \<open>C22: on NATS, after a successful \<open>publish_batch\<close> of a non-empty batch whose last message
  was not dropped as a duplicate, \<open>peek_last\<close>, when it succeeds, returns the id of the last
  message of the batch.\<close>

theorem nats_publish_then_peek:
  assumes "nats_peekable_ok Y" "batch \<noteq> []"
    and "nats_publish_batch (ny_env Y) (ny_codec Y) (ny_publisher Y) batch w = (Inr acks, w1)"
    and "last_not_duplicate acks"
    and "nats_peek_last (ny_env Y) (ny_codec Y) (ny_id Y) (ny_publisher Y) w1 = (Inr peeked, w2)"
  shows "peeked = Some (ny_id Y (pm_data (last batch))) \<and> length acks = length batch"
  using nats_peekable.batch_peek [OF assms] nats_peekable.batch_length [OF assms(2,1,3)] by simp

theorem nats_publish_then_peek_witness:
  "\<exists>w1 w2 acks. nats_publish_batch memory_nats raw_bytes (ny_publisher memory_peekable)
        [\<lparr>deduplication_id = ''a'', pm_data = [1]\<rparr>, \<lparr>deduplication_id = ''b'', pm_data = [2]\<rparr>] memory_start
        = (Inr acks, w1) \<and>
     nats_peek_last memory_nats raw_bytes (\<lambda>m. m) (ny_publisher memory_peekable) w1 = (Inr (Some [2]), w2) \<and>
     length acks = 2"
proof -
  let ?batch = "[\<lparr>deduplication_id = ''a'', pm_data = [1]\<rparr>, \<lparr>deduplication_id = ''b'', pm_data = [2]\<rparr>] :: bytes publish_message list"
  let ?w1 = "memory_start\<lparr>ms_sequence := 2, ms_last := Some [2]\<rparr>"
  let ?acks = "[\<lparr>pa_sequence = 1, pa_duplicate = False\<rparr>, \<lparr>pa_sequence = 2, pa_duplicate = False\<rparr>]"
  have batch: "nats_publish_batch (ny_env memory_peekable) (ny_codec memory_peekable)
      (ny_publisher memory_peekable) ?batch memory_start = (Inr ?acks, ?w1)"
    by (simp add: nats_publish_def memory_defs nats_publisher_new_def io_bind_def io_map_err_def io_defs)
  have peek: "nats_peek_last (ny_env memory_peekable) (ny_codec memory_peekable) (ny_id memory_peekable)
      (ny_publisher memory_peekable) ?w1 = (Inr (Some [2]), ?w1)"
    by (simp add: nats_peek_last_def memory_defs nats_publisher_new_def io_bind_def io_map_err_def io_defs)
  have "Some [2] = Some (ny_id memory_peekable (pm_data (last ?batch))) \<and> length ?acks = length ?batch"
    by (rule nats_publish_then_peek [OF memory_peekable_ok _ batch _ peek])
      (simp_all add: last_not_duplicate_def)
  from conjunct2 [OF this] have "length ?acks = 2"
    by (rule trans) simp
  with batch peek show ?thesis
    unfolding memory_peekable_sel by blast
qed

text \<open>C23: the NATS key-value store does not lose updates: of two updates made from the same
  revision, one after the other, only the first can succeed.\<close>

theorem nats_kv_no_lost_update:
  assumes "nats_kv_client_ok Z"
    and "nats_kv_update (nz_env Z) (nz_codec Z) (nz_store Z) d w = (Inr r, w1)"
    and "wr_revision d' = wr_revision d"
  shows "isl (fst (nats_kv_update (nz_env Z) (nz_codec Z) (nz_store Z) d' w1))"
proof (rule ccontr)
  assume "\<not> ?thesis"
  then obtain r' w2 where again: "nats_kv_update (nz_env Z) (nz_codec Z) (nz_store Z) d' w1 = (Inr r', w2)"
    by (cases "nats_kv_update (nz_env Z) (nz_codec Z) (nz_store Z) d' w1"; cases "fst (nats_kv_update (nz_env Z) (nz_codec Z) (nz_store Z) d' w1)") auto
  from nats_kv_update_ok [OF assms(1,2)] obtain bs where "r > wr_revision d"
    "nats_kv_entry Z w1 = Some \<lparr>ke_value = bs, ke_revision = r\<rparr>" by metis
  moreover from nats_kv_update_ok [OF assms(1) again]
  have "case nats_kv_entry Z w1 of None \<Rightarrow> wr_revision d' = 0 | Some e \<Rightarrow> ke_revision e = wr_revision d'"
    by metis
  ultimately show False using assms(3) by simp
qed

theorem nats_kv_no_lost_update_witness:
  "isl (fst (nats_kv_update memory_nats raw_bytes (nz_store memory_kv)
     \<lparr>wr_value = [8], wr_revision = 0\<rparr>
     (snd (nats_kv_update memory_nats raw_bytes (nz_store memory_kv)
       \<lparr>wr_value = [7], wr_revision = 0\<rparr> memory_start))))"
proof -
  have first: "nats_kv_update (nz_env memory_kv) (nz_codec memory_kv) (nz_store memory_kv)
      \<lparr>wr_value = [7], wr_revision = 0\<rparr> memory_start =
      (Inr 1, memory_start\<lparr>ms_entry := Some \<lparr>ke_value = [7], ke_revision = 1\<rparr>\<rparr>)"
    by (simp add: nats_kv_update_def memory_defs io_bind_def io_map_err_def io_defs)
  have "isl (fst (nats_kv_update (nz_env memory_kv) (nz_codec memory_kv) (nz_store memory_kv)
      \<lparr>wr_value = [8], wr_revision = 0\<rparr>
      (memory_start\<lparr>ms_entry := Some \<lparr>ke_value = [7], ke_revision = 1\<rparr>\<rparr>)))"
    by (rule nats_kv_no_lost_update [OF memory_kv_ok first]) simp
  with first show ?thesis
    unfolding memory_kv_sel by simp
qed

text \<open>The health check of the NATS consumer never reports a problem: it answers \<open>Ok\<close>
  also when the server refuses the consumer's information, against the contract of
  \<open>Consumer::check_health\<close>.\<close>

theorem nats_consumer_check_health_always_ok:
  "fst (nats_consumer_check_health N K w) = Inr () \<and>
   isl (fst (consumer_info memory_nats 2 memory_start))"
  by (auto simp: nats_consumer_check_health_def memory_nats_def io_defs split: prod.split sum.split)

end
