(* ===== verification/Service_Base.thy ===== *)
theory Service_Base
  imports Api_Client Bin_Util Nats_Backend Gcp_Common
begin

text \<open>
  What the two services, the amplifier ingester and the amplifier subscriber, share: the state
  they act on (the queue, the HTTP API and their own metrics), the configuration of the API
  client with its validation, the TLS client over Google KMS, and the construction of the API
  client.
\<close>

record ('q, 'w) service_state =
  ss_queue :: 'q
  ss_http :: 'w
  ss_metrics :: simple_metrics

definition on_queue :: "('q, 'e, 'a) io \<Rightarrow> (('q, 'w) service_state, 'e, 'a) io" where
  "on_queue m st = (let (r, q) = m (ss_queue st) in (r, st\<lparr>ss_queue := q\<rparr>))"

definition on_http :: "('w, 'e, 'a) io \<Rightarrow> (('q, 'w) service_state, 'e, 'a) io" where
  "on_http m st = (let (r, w) = m (ss_http st) in (r, st\<lparr>ss_http := w\<rparr>))"

definition service_record_error :: "('q, 'w) service_state \<Rightarrow> ('q, 'w) service_state" where
  "service_record_error st = st\<lparr>ss_metrics := sm_record_error (ss_metrics st)\<rparr>"

lemma on_queue_eq [io_cases]:
  "on_queue m st = (r, st') \<longleftrightarrow> (\<exists>q. m (ss_queue st) = (r, q) \<and> st' = st\<lparr>ss_queue := q\<rparr>)"
  by (auto simp: on_queue_def Let_def split: prod.splits)

lemma on_http_eq [io_cases]:
  "on_http m st = (r, st') \<longleftrightarrow> (\<exists>w. m (ss_http st) = (r, w) \<and> st' = st\<lparr>ss_http := w\<rparr>)"
  by (auto simp: on_http_def Let_def split: prod.splits)

lemma service_record_error_simps [simp]:
  "ss_queue (service_record_error st) = ss_queue st" "ss_http (service_record_error st) = ss_http st"
  "sm_errors (ss_metrics (service_record_error st)) = Suc (sm_errors (ss_metrics st))"
  by (simp_all add: service_record_error_def sm_record_error_def)

subsection \<open>Configuration of the API client\<close>

record ('u, 'i) amplifier_config =
  am_identity :: "'i option"
  am_tls_public_certificate :: "string option"
  am_url :: 'u
  am_chain :: string
  am_get_chains_limit :: u8

text \<open>\<open>str::trim\<close>, on the characters below 256.\<close>

definition is_whitespace :: "char \<Rightarrow> bool" where
  "is_whitespace c \<longleftrightarrow> (of_char c :: nat) \<in> {9, 10, 11, 12, 13, 32, 133, 160}"

definition trim :: "string \<Rightarrow> string" where
  "trim s = rev (dropWhile is_whitespace (rev (dropWhile is_whitespace s)))"

definition validate_chain :: "('u, 'i) amplifier_config \<Rightarrow> string + unit" where
  "validate_chain a = ensure (trim (am_chain a) \<noteq> []) ''chain could not be empty''"

lemma trim_eq_Nil: "trim s = [] \<longleftrightarrow> list_all is_whitespace s"
proof
  assume "trim s = []"
  then have *: "list_all is_whitespace (dropWhile is_whitespace s)"
    by (simp add: trim_def list_all_iff)
  show "list_all is_whitespace s"
  proof (cases "dropWhile is_whitespace s")
    case Nil
    then show ?thesis by (simp add: list_all_iff)
  next
    case (Cons c cs)
    then have "\<not> is_whitespace c"
      by (metis hd_dropWhile list.distinct(1) list.sel(1))
    with * Cons show ?thesis by simp
  qed
next
  assume "list_all is_whitespace s"
  then show "trim s = []"
    by (auto simp: trim_def list_all_iff dest: set_dropWhileD)
qed

subsection \<open>The TLS client over Google KMS\<close>

text \<open>\<open>'k\<close>: the KMS configuration, \<open>'x\<close>: objects of the KMS and TLS libraries, \<open>'t\<close>: a TLS
  client configuration.\<close>

record ('w, 'x, 'k, 't) kms_env =
  kms_config_with_auth :: "('w, ext_error, 'x) io"
  kms_client_new :: "'x \<Rightarrow> ('w, ext_error, 'x) io"
  kms_provider :: "'x \<Rightarrow> 'k \<Rightarrow> ('w, ext_error, 'x) io"
  cert_from_pem_slice :: "bytes \<Rightarrow> ext_error + 'x"
  tls_with_safe_versions :: "'x \<Rightarrow> ext_error + 'x"
  tls_with_client_auth_cert :: "'x \<Rightarrow> 'x list \<Rightarrow> ext_error + 't"
  kms_validate :: "'k \<Rightarrow> string + unit"
  string_into_bytes :: "string \<Rightarrow> bytes"

definition kms_tls_client_config ::
  "('w, 'x, 'k, 't) kms_env \<Rightarrow> bytes \<Rightarrow> 'k \<Rightarrow> (('w, 'z) gcp_state_scheme, gcp_error, 't) io" where
  "kms_tls_client_config K public_certificate kms_config =
     io_bind (io_map_err Auth (on_world (kms_config_with_auth K))) (\<lambda>config.
     io_bind (io_map_err KmsClient (on_world (kms_client_new K config))) (\<lambda>client.
     io_bind (io_map_err Kms (on_world (kms_provider K client kms_config))) (\<lambda>provider.
     io_bind (io_lift (map_err CertificateRead (cert_from_pem_slice K public_certificate))) (\<lambda>cert.
     io_bind (io_lift (map_err RustlsBuilder (tls_with_safe_versions K provider))) (\<lambda>builder.
       io_lift (map_err RustlsBuilder (tls_with_client_auth_cert K builder [cert])))))))"

subsection \<open>Construction of the services\<close>

datatype startup_error =
    BadConfig config_error
  | CertificateNotSet
  | IdentityNotSet
  | KmsFailed gcp_error
  | GcpConnect gcp_error
  | NatsConnect nats_error
  | ClientFailed amplifier_api_error

text \<open>\<open>amplifier_client\<close> of the GCP and of the NATS build of the ingester.\<close>

definition gcp_amplifier_client ::
  "('w, 'x, 'k, 't) kms_env \<Rightarrow> ('h, 'u, 'c, 'r, 'i, 't) http_env \<Rightarrow> ('u, 'i) amplifier_config \<Rightarrow> 'k \<Rightarrow>
     (('w, 'z) gcp_state_scheme, startup_error, ('u, 'c) amplifier_api_client) io" where
  "gcp_amplifier_client K E amplifier kms =
     io_bind (io_lift (ok_or CertificateNotSet (am_tls_public_certificate amplifier))) (\<lambda>certificate.
     io_bind (io_map_err KmsFailed (kms_tls_client_config K (string_into_bytes K certificate) kms)) (\<lambda>client_config.
       io_lift (map_err ClientFailed
         (amplifier_client_new E (am_url amplifier) (CustomProvider client_config)))))"

definition nats_amplifier_client ::
  "('h, 'u, 'c, 'r, 'i, 't) http_env \<Rightarrow> ('u, 'i) amplifier_config \<Rightarrow>
     startup_error + ('u, 'c) amplifier_api_client" where
  "nats_amplifier_client E amplifier =
     res_bind (ok_or IdentityNotSet (am_identity amplifier)) (\<lambda>identity.
       map_err ClientFailed (amplifier_client_new E (am_url amplifier) (Certificate identity)))"

text \<open>The configuration section of the NATS builds.\<close>

record nats_section =
  ns_urls :: "string list"

definition validate_nats_section :: "nats_section \<Rightarrow> string + unit" where
  "validate_nats_section c = ensure (ns_urls c \<noteq> []) ''nats urls should have at least one connection''"

end
