(* ===== verification/Gcp_Publisher.thy ===== *)
theory Gcp_Publisher
  imports Redis_Store
begin

text \<open>
  The Pub/Sub publishers of \<open>gcp/publisher.rs\<close>: \<open>GcpPublisher\<close>, and \<open>PeekableGcpPublisher\<close>,
  which keeps the id of the last published message in Redis.  A histogram observation of
  \<open>record_publish\<close> is kept as the elapsed time between two readings of the clock.

  In \<open>publish\<close> and \<open>publish_batch\<close> the body is a block whose value is inspected afterwards;
  the \<open>?\<close> inside the block leaves the whole function, so the inspection is \<open>finish\<close>, reached
  only with the value at the end of the block.
\<close>

record publisher_metrics =
  gm_published :: nat
  gm_durations :: "nat list"
  gm_errors :: nat
  gm_attributes :: "string \<times> string"

record 'w publisher_state = "'w kv_state" +
  pub_metrics :: publisher_metrics

definition publisher_metrics_new :: "string \<Rightarrow> publisher_metrics" where
  "publisher_metrics_new topic_name =
     \<lparr>gm_published = 0, gm_durations = [], gm_errors = 0,
      gm_attributes = (''topic.name'', topic_name)\<rparr>"

definition record_publish ::
  "('w, 'x) gcp_env \<Rightarrow> nat \<Rightarrow> ('w, 'z) publisher_state_scheme \<Rightarrow> ('w, 'z) publisher_state_scheme" where
  "record_publish G start_time st =
     st\<lparr>pub_metrics := (pub_metrics st)
          \<lparr>gm_published := gm_published (pub_metrics st) + 1,
           gm_durations := gm_durations (pub_metrics st) @ [instant_now G (gs_world st) - start_time]\<rparr>\<rparr>"

definition pub_record_error :: "('w, 'z) publisher_state_scheme \<Rightarrow> ('w, 'z) publisher_state_scheme" where
  "pub_record_error st =
     st\<lparr>pub_metrics := (pub_metrics st)\<lparr>gm_errors := gm_errors (pub_metrics st) + 1\<rparr>\<rparr>"

text \<open>\<open>if res.is_err() { record_error() }; res\<close>.\<close>

definition finish :: "'e + 'a \<Rightarrow> (('w, 'z) publisher_state_scheme, 'e, 'a) io" where
  "finish res = io_bind (io_do (if isl res then pub_record_error else (\<lambda>st. st))) (\<lambda>_. io_lift res)"

definition msg_id_attribute :: string where
  "msg_id_attribute = ''Msg-Id''"

subsection \<open>GcpPublisher\<close>

record 'x gcp_publisher =
  gp_publisher :: 'x

definition gcp_publisher_new ::
  "('w, 'x) gcp_env \<Rightarrow> 'x \<Rightarrow> string \<Rightarrow> u64 \<Rightarrow> u64 \<Rightarrow>
     (('w, 'z) publisher_state_scheme, gcp_error, 'x gcp_publisher) io" where
  "gcp_publisher_new G client topic_name worker_count max_bundle_size =
     io_bind (get_topic G client topic_name) (\<lambda>topic.
       let config = \<lparr>pb_workers = worker_count, pb_bundle_size = max_bundle_size, pb_default_retry = True\<rparr>;
           publisher = topic_new_publisher G client topic config
       in io_bind (io_do (\<lambda>st. st\<lparr>pub_metrics := publisher_metrics_new (topic_full_name G client topic)\<rparr>))
            (\<lambda>_. io_ok \<lparr>gp_publisher = publisher\<rparr>))"

text \<open>\<open>to_pubsub_message\<close>; the headers the propagator injects are those of the current world.\<close>

definition to_pubsub_message ::
  "('w, 'x) gcp_env \<Rightarrow> 'm message_content borsh_type \<Rightarrow> 'm publish_message \<Rightarrow> 'w \<Rightarrow>
     gcp_error + pubsub_message" where
  "to_pubsub_message G C msg w =
     (let dedup = deduplication_id msg;
          message = message_content_new (pm_data msg);
          message = inject_context (propagator_headers G w) message;
          message = header_set ''correlation-id'' dedup message
      in res_bind (map_err Serialize (to_vec C message)) (\<lambda>encoded.
           Inr \<lparr>ps_data = encoded, ps_attributes = [msg_id_attribute \<mapsto> dedup]\<rparr>))"

definition gcp_publish ::
  "('w, 'x) gcp_env \<Rightarrow> 'm message_content borsh_type \<Rightarrow> 'x gcp_publisher \<Rightarrow> 'm publish_message \<Rightarrow>
     (('w, 'z) publisher_state_scheme, gcp_error, string) io" where
  "gcp_publish G C P msg =
     io_bind (\<lambda>st. (to_pubsub_message G C msg (gs_world st), st)) (\<lambda>message st.
       let start_time = instant_now G (gs_world st);
           (awaiter, w') = pubsub_publish G (gp_publisher P) message (gs_world st)
       in io_bind (io_map_err Publish (on_world (awaiter_get G awaiter))) (\<lambda>result.
            io_bind (io_do (record_publish G start_time)) (\<lambda>_. finish (Inr result)))
            (st\<lparr>gs_world := w'\<rparr>))"

fun confirm_all ::
  "('w, 'x) gcp_env \<Rightarrow> nat \<Rightarrow> 'x list \<Rightarrow> (('w, 'z) publisher_state_scheme, gcp_error, string list) io" where
  "confirm_all G start_time [] = io_ok []"
| "confirm_all G start_time (handle # handles) =
     io_bind (io_map_err Publish (on_world (awaiter_get G handle))) (\<lambda>res.
       io_bind (io_do (record_publish G start_time)) (\<lambda>_.
         io_bind (confirm_all G start_time handles) (\<lambda>output. io_ok (res # output))))"

definition gcp_publish_batch ::
  "('w, 'x) gcp_env \<Rightarrow> 'm message_content borsh_type \<Rightarrow> 'x gcp_publisher \<Rightarrow> 'm publish_message list \<Rightarrow>
     (('w, 'z) publisher_state_scheme, gcp_error, string list) io" where
  "gcp_publish_batch G C P batch =
     (if batch = [] then io_ok []
      else
        io_bind (\<lambda>st. (collect_res (map (\<lambda>msg. to_pubsub_message G C msg (gs_world st)) batch), st))
          (\<lambda>bulk st.
             let start_time = instant_now G (gs_world st);
                 (handles, w') = pubsub_publish_bulk G (gp_publisher P) bulk (gs_world st)
             in io_bind (confirm_all G start_time handles) (\<lambda>output. finish (Inr output))
                  (st\<lparr>gs_world := w'\<rparr>)))"

definition gcp_publisher_check_health ::
  "'x gcp_publisher \<Rightarrow> (('w, 'z) publisher_state_scheme, gcp_error, unit) io" where
  "gcp_publisher_check_health P = io_ok ()"

subsection \<open>PeekableGcpPublisher\<close>

record 'x peekable_publisher =
  pk_publisher :: "'x gcp_publisher"
  pk_last_message_id_store :: "'x redis_client"

definition peekable_new ::
  "('w, 'x) gcp_env \<Rightarrow> 'x \<Rightarrow> string \<Rightarrow> 'x redis_client \<Rightarrow> u64 \<Rightarrow> u64 \<Rightarrow>
     (('w, 'z) publisher_state_scheme, gcp_error, 'x peekable_publisher) io" where
  "peekable_new G client topic store worker_count max_bundle_size =
     io_bind (gcp_publisher_new G client topic worker_count max_bundle_size) (\<lambda>publisher.
       io_ok \<lparr>pk_publisher = publisher, pk_last_message_id_store = store\<rparr>)"

text \<open>What the implementations know of the message type: its codec, its id and the id's codec.\<close>

record ('m, 'id) message_type =
  mt_codec :: "'m message_content borsh_type"
  mt_id :: "'m \<Rightarrow> 'id"
  mt_id_codec :: "'id borsh_type"
  mt_id_show :: "'id \<Rightarrow> string"

definition peekable_upsert ::
  "('w, 'x) gcp_env \<Rightarrow> ('m, 'id) message_type \<Rightarrow> 'x peekable_publisher \<Rightarrow> 'id \<Rightarrow>
     (('w, 'z) publisher_state_scheme, gcp_error, unit) io" where
  "peekable_upsert G M P i =
     redis_upsert G (mt_id_codec M) (mt_id_show M) (pk_last_message_id_store P) i"

definition peekable_publish ::
  "('w, 'x) gcp_env \<Rightarrow> ('m, 'id) message_type \<Rightarrow> 'x peekable_publisher \<Rightarrow> 'm publish_message \<Rightarrow>
     (('w, 'z) publisher_state_scheme, gcp_error, string) io" where
  "peekable_publish G M P msg =
     (let msg_id = mt_id M (pm_data msg)
      in io_bind (gcp_publish G (mt_codec M) (pk_publisher P) msg) (\<lambda>published.
           io_bind (peekable_upsert G M P msg_id) (\<lambda>_. finish (Inr published))))"

definition peekable_publish_batch ::
  "('w, 'x) gcp_env \<Rightarrow> ('m, 'id) message_type \<Rightarrow> 'x peekable_publisher \<Rightarrow> 'm publish_message list \<Rightarrow>
     (('w, 'z) publisher_state_scheme, gcp_error, string list) io" where
  "peekable_publish_batch G M P batch =
     (if batch = [] then io_err NoMsgToPublish
      else
        let last_msg_id = mt_id M (pm_data (last batch))
        in io_bind (gcp_publish_batch G (mt_codec M) (pk_publisher P) batch) (\<lambda>published.
             io_bind (peekable_upsert G M P last_msg_id) (\<lambda>_. finish (Inr published))))"

definition peekable_check_health ::
  "('w, 'x) gcp_env \<Rightarrow> 'x peekable_publisher \<Rightarrow> (('w, 'z) publisher_state_scheme, gcp_error, unit) io" where
  "peekable_check_health G P =
     io_bind (gcp_publisher_check_health (pk_publisher P)) (\<lambda>_ st.
       let (res, st') = io_map_err RedisPing (redis_client_ping G (pk_last_message_id_store P)) st
       in finish res st')"

definition peekable_peek_last ::
  "('w, 'x) gcp_env \<Rightarrow> ('m, 'id) message_type \<Rightarrow> 'x peekable_publisher \<Rightarrow>
     (('w, 'z) publisher_state_scheme, gcp_error, 'id option) io" where
  "peekable_peek_last G M P =
     io_bind (io_inspect_err pub_record_error
         (redis_client_get G (mt_id_codec M) (pk_last_message_id_store P)))
       (\<lambda>data. io_ok (map_option wr_value data))"

subsection \<open>Connectors\<close>

definition gcp_connect_publisher ::
  "('w, 'x) gcp_env \<Rightarrow> string \<Rightarrow> u64 \<Rightarrow> u64 \<Rightarrow>
     (('w, 'z) publisher_state_scheme, gcp_error, 'x gcp_publisher) io" where
  "gcp_connect_publisher G topic worker_count max_bundle_size =
     io_bind (connect_pubsub_client G) (\<lambda>client.
       gcp_publisher_new G client topic worker_count max_bundle_size)"

definition gcp_connect_peekable_publisher ::
  "('w, 'x) gcp_env \<Rightarrow> string \<Rightarrow> string \<Rightarrow> string \<Rightarrow> u64 \<Rightarrow> u64 \<Rightarrow>
     (('w, 'z) publisher_state_scheme, gcp_error, 'x peekable_publisher) io" where
  "gcp_connect_peekable_publisher G topic redis_connection redis_key worker_count max_bundle_size =
     io_bind (redis_connect G redis_key redis_connection) (\<lambda>store.
       io_bind (connect_pubsub_client G) (\<lambda>client.
         peekable_new G client topic store worker_count max_bundle_size))"

subsection \<open>The counters and the world\<close>

lemma record_publish_simps [simp]:
  "gs_world (record_publish G t st) = gs_world st" "gs_world (pub_record_error st) = gs_world st"
  "kv_metrics (record_publish G t st) = kv_metrics st" "kv_metrics (pub_record_error st) = kv_metrics st"
  by (simp_all add: record_publish_def pub_record_error_def)

lemma record_publish_counts [metric_simps]:
  "gm_errors (pub_metrics (record_publish G t st)) = gm_errors (pub_metrics st)"
  "gm_errors (pub_metrics (pub_record_error st)) = gm_errors (pub_metrics st) + 1"
  "gm_published (pub_metrics (record_publish G t st)) = gm_published (pub_metrics st) + 1"
  "gm_published (pub_metrics (pub_record_error st)) = gm_published (pub_metrics st)"
  by (simp_all add: record_publish_def pub_record_error_def)

lemma finish_Inr [simp]: "finish (Inr a) st = (Inr a, st)"
  by (simp add: finish_def io_bind_def io_defs)

lemma finish_Inl [simp]: "finish (Inl e) st = (Inl e, pub_record_error st)"
  by (simp add: finish_def io_bind_def io_defs)

lemma confirm_all_counts:
  "confirm_all G t hs st = (r, st') \<Longrightarrow>
     gm_errors (pub_metrics st') = gm_errors (pub_metrics st) \<and>
     (\<forall>out. r = Inr out \<longrightarrow> length out = length hs \<and>
        gm_published (pub_metrics st') = gm_published (pub_metrics st) + length hs)"
proof (induction hs arbitrary: st st' r)
  case (Cons h hs)
  show ?case
  proof (cases "awaiter_get G h (gs_world st)")
    case (Pair res w')
    show ?thesis
    proof (cases res)
      case (Inl e)
      with Pair Cons.prems show ?thesis
        by (auto simp: on_world_def io_bind_def io_map_err_def)
    next
      case (Inr i)
      let ?st = "record_publish G t (st\<lparr>gs_world := w'\<rparr>)"
      obtain r2 st2 where rest: "confirm_all G t hs ?st = (r2, st2)" by force
      with Pair Inr Cons.prems have "st' = st2" "r = (case r2 of Inl e \<Rightarrow> Inl e | Inr out \<Rightarrow> Inr (i # out))"
        by (auto simp: on_world_def io_bind_def io_map_err_def io_do_def io_ok_def split: sum.splits)
      with Cons.IH [OF rest] show ?thesis
        by (auto simp: metric_simps split: sum.splits)
    qed
  qed
qed (auto simp: io_ok_def)

lemma to_pubsub_all_length:
  "collect_res (map (\<lambda>msg. to_pubsub_message G C msg w) batch) = Inr bulk \<Longrightarrow> length bulk = length batch"
  using collect_res_eq_Inr by (metis length_map)

text \<open>How a batch can have ended: the messages could not be encoded, or they were handed over.\<close>

lemma gcp_publish_batch_cases:
  assumes "gcp_publish_batch G C P batch st = (r, st')" "batch \<noteq> []"
  obtains (unencoded) e where "r = Inl e" "st' = st"
  | (handed) bulk hs w1 where
      "collect_res (map (\<lambda>msg. to_pubsub_message G C msg (gs_world st)) batch) = Inr bulk"
      "pubsub_publish_bulk G (gp_publisher P) bulk (gs_world st) = (hs, w1)"
      "confirm_all G (instant_now G (gs_world st)) hs (st\<lparr>gs_world := w1\<rparr>) = (r, st')"
proof (cases "collect_res (map (\<lambda>msg. to_pubsub_message G C msg (gs_world st)) batch)")
  case (Inl e)
  with assms have "r = Inl e" "st' = st" by (simp_all add: gcp_publish_batch_def io_bind_def)
  with unencoded show ?thesis by blast
next
  case (Inr bulk)
  obtain hs w1 where bulk: "pubsub_publish_bulk G (gp_publisher P) bulk (gs_world st) = (hs, w1)" by force
  obtain r2 st2 where conf: "confirm_all G (instant_now G (gs_world st)) hs (st\<lparr>gs_world := w1\<rparr>) = (r2, st2)" by force
  have "r = r2 \<and> st' = st2"
    using assms Inr bulk conf by (auto simp: gcp_publish_batch_def io_bind_def Let_def split: sum.splits)
  with handed Inr bulk conf show ?thesis by blast
qed

subsection \<open>What is relied on of Pub/Sub\<close>

text \<open>Publishing does not touch Redis, and a bulk gives one handle per message.\<close>

definition pubsub_ok :: "('w, 'x) gcp_env \<Rightarrow> ('w \<Rightarrow> string \<rightharpoonup> bytes) \<Rightarrow> bool" where
  "pubsub_ok G V \<longleftrightarrow>
     (\<forall>p m w. V (snd (pubsub_publish G p m w)) = V w) \<and>
     (\<forall>p ms w. V (snd (pubsub_publish_bulk G p ms w)) = V w \<and>
        length (fst (pubsub_publish_bulk G p ms w)) = length ms) \<and>
     (\<forall>h w. V (snd (awaiter_get G h w)) = V w)"

lemma confirm_all_view:
  "pubsub_ok G V \<Longrightarrow> confirm_all G t hs st = (r, st') \<Longrightarrow> V (gs_world st') = V (gs_world st)"
proof (induction hs arbitrary: st st' r)
  case (Cons h hs)
  obtain res w' where got: "awaiter_get G h (gs_world st) = (res, w')" by force
  with Cons.prems(1) have w': "V w' = V (gs_world st)"
    unfolding pubsub_ok_def by (metis snd_conv)
  show ?case
  proof (cases res)
    case (Inl e)
    with got Cons.prems w' show ?thesis
      by (auto simp: on_world_def io_bind_def io_map_err_def)
  next
    case (Inr i)
    let ?st = "record_publish G t (st\<lparr>gs_world := w'\<rparr>)"
    obtain r2 st2 where rest: "confirm_all G t hs ?st = (r2, st2)" by force
    with got Inr Cons.prems have "st' = st2"
      by (auto simp: on_world_def io_bind_def io_map_err_def io_do_def io_ok_def split: sum.splits)
    with Cons.IH [OF Cons.prems(1) rest] w' show ?thesis by simp
  qed
qed (simp add: io_ok_def)

lemma gcp_publish_batch_view:
  assumes "pubsub_ok G V" "gcp_publish_batch G C P batch st = (r, st')"
  shows "V (gs_world st') = V (gs_world st)"
proof (cases "batch = []")
  case True
  with assms(2) show ?thesis by (simp add: gcp_publish_batch_def io_ok_def)
next
  case False
  with assms(2) show ?thesis
  proof (cases rule: gcp_publish_batch_cases)
    case (handed bulk hs w1)
    from confirm_all_view [OF assms(1) handed(3)] show ?thesis
      using assms(1) handed(2) unfolding pubsub_ok_def
      by (metis gcp_state.select_convs(1) gcp_state.surjective gcp_state.update_convs(1) snd_conv)
  qed simp
qed

lemma gcp_publish_batch_length:
  assumes "pubsub_ok G V" "gcp_publish_batch G C P batch st = (Inr out, st')" "batch \<noteq> []"
  shows "length out = length batch"
  using assms(2,3)
proof (cases rule: gcp_publish_batch_cases)
  case (handed bulk hs w1)
  have "length out = length hs" using confirm_all_counts [OF handed(3)] by simp
  also have "\<dots> = length bulk" using assms(1) handed(2) unfolding pubsub_ok_def by (metis fst_conv)
  finally show ?thesis using to_pubsub_all_length [OF handed(1)] by simp
qed simp

subsection \<open>The peekable publisher provides its interface\<close>

record ('w, 'x, 'm, 'id) gcp_peekable =
  gy_env :: "('w, 'x) gcp_env"
  gy_view :: "'w \<Rightarrow> string \<rightharpoonup> bytes"
  gy_type :: "('m, 'id) message_type"
  gy_publisher :: "'x peekable_publisher"

definition cursor_store :: "('w, 'x, 'm, 'id) gcp_peekable \<Rightarrow> ('w, 'x, 'id) redis_store" where
  "cursor_store Y =
     \<lparr>rs_env = gy_env Y, rs_view = gy_view Y, rs_codec = mt_id_codec (gy_type Y),
      rs_show = mt_id_show (gy_type Y), rs_client = pk_last_message_id_store (gy_publisher Y)\<rparr>"

definition gcp_peekable_ok :: "('w, 'x, 'm, 'id) gcp_peekable \<Rightarrow> bool" where
  "gcp_peekable_ok Y \<longleftrightarrow> redis_store_ok (cursor_store Y) \<and> pubsub_ok (gy_env Y) (gy_view Y)"

definition gcp_latest ::
  "('w, 'x, 'm, 'id) gcp_peekable \<Rightarrow> ('w, 'z) publisher_state_scheme \<Rightarrow> 'id option \<Rightarrow> bool" where
  "gcp_latest Y st v = redis_holds (cursor_store Y) st v"

lemma peekable_publish_batch_ok:
  "peekable_publish_batch G M P batch st = (Inr out, st') \<longleftrightarrow>
     batch \<noteq> [] \<and> (\<exists>st1. gcp_publish_batch G (mt_codec M) (pk_publisher P) batch st = (Inr out, st1) \<and>
       peekable_upsert G M P (mt_id M (pm_data (last batch))) st1 = (Inr (), st'))"
  by (auto simp: peekable_publish_batch_def io_cases Let_def)

lemma peekable_upsert_holds:
  assumes "gcp_peekable_ok Y" "peekable_upsert (gy_env Y) (gy_type Y) (gy_publisher Y) i st = (Inr (), st')"
  shows "gcp_latest Y st' (Some i)"
  using redis_upsert_holds [of "cursor_store Y" i st st'] assms
  by (simp add: gcp_latest_def gcp_peekable_ok_def peekable_upsert_def cursor_store_def)

lemma gcp_latest_record_error [simp]: "gcp_latest Y (pub_record_error st) v = gcp_latest Y st v"
  by (simp add: gcp_latest_def redis_holds_def split: option.split)

interpretation gcp_peekable: peek_publisher gcp_peekable_ok "\<lambda>Y. mt_id (gy_type Y)" gcp_latest "\<lambda>_. True"
  "\<lambda>Y. peekable_publish_batch (gy_env Y) (gy_type Y) (gy_publisher Y)"
  "\<lambda>Y. peekable_peek_last (gy_env Y) (gy_type Y) (gy_publisher Y)"
proof (unfold_locales, goal_cases)
  case (1 Y b st out st')
  from 1(3) obtain st1 where
    "peekable_upsert (gy_env Y) (gy_type Y) (gy_publisher Y) (mt_id (gy_type Y) (pm_data (last b))) st1 = (Inr (), st')"
    unfolding peekable_publish_batch_ok by blast
  with 1(1) show ?case by (rule peekable_upsert_holds)
next
  case (2 b Y st out st')
  then show ?case unfolding peekable_publish_batch_ok gcp_peekable_ok_def
    using gcp_publish_batch_length by blast
next
  case (3 Y st v x st')
  then obtain got where "redis_client_get (gy_env Y) (mt_id_codec (gy_type Y))
      (pk_last_message_id_store (gy_publisher Y)) st = (Inr got, st')" "x = map_option wr_value got"
    by (auto simp: peekable_peek_last_def io_cases)
  with 3 redis_client_get_holds [of "cursor_store Y" st v got st'] show ?case
    by (simp add: gcp_latest_def gcp_peekable_ok_def cursor_store_def)
qed

lemma gcp_publish_errors:
  "gm_errors (pub_metrics (snd (gcp_publish G C P msg st))) = gm_errors (pub_metrics st)"
  by (auto simp: gcp_publish_def io_bind_def io_map_err_def on_world_def Let_def io_do_def metric_simps
      split: sum.split prod.split)

lemma gcp_publish_batch_errors:
  "gm_errors (pub_metrics (snd (gcp_publish_batch G C P batch st))) = gm_errors (pub_metrics st)"
proof (cases "batch = []")
  case True
  then show ?thesis by (simp add: gcp_publish_batch_def io_ok_def)
next
  case False
  obtain r st' where run: "gcp_publish_batch G C P batch st = (r, st')" by force
  from run False show ?thesis
  proof (cases rule: gcp_publish_batch_cases)
    case (handed bulk hs w1)
    from confirm_all_counts [OF handed(3)] run show ?thesis by simp
  qed (simp add: run)
qed

lemma redis_upsert_pub_metrics:
  "pub_metrics (snd (redis_upsert G C sh R v st)) = pub_metrics st"
  by (auto simp: redis_upsert_def io_bind_def io_map_err_def on_world_def Let_def io_defs kv_record_write_def
      split: sum.split prod.split)

lemma peekable_publish_batch_errors:
  "gm_errors (pub_metrics (snd (peekable_publish_batch G M P batch st))) = gm_errors (pub_metrics st)"
proof (cases "batch = []")
  case False
  obtain r1 st1 where one: "gcp_publish_batch G (mt_codec M) (pk_publisher P) batch st = (r1, st1)" by force
  obtain r2 st2 where two: "peekable_upsert G M P (mt_id M (pm_data (last batch))) st1 = (r2, st2)" by force
  have "gm_errors (pub_metrics st1) = gm_errors (pub_metrics st)"
    using gcp_publish_batch_errors one by (metis snd_conv)
  moreover have "pub_metrics st2 = pub_metrics st1"
    using redis_upsert_pub_metrics two unfolding peekable_upsert_def by (metis snd_conv)
  ultimately show ?thesis
    using one two False by (auto simp: peekable_publish_batch_def io_bind_def Let_def split: sum.split)
qed (simp add: peekable_publish_batch_def io_err_def)

lemma redis_upsert_world_on_error:
  assumes "redis_upsert G C sh R v st = (Inl e, st')" "\<And>k. e \<noteq> RedisSave k"
  shows "st' = st"
  using assms by (auto simp: redis_upsert_def io_cases)

subsection \<open>A publisher in memory\<close>

definition memory_message_type :: "(bytes, bytes) message_type" where
  "memory_message_type =
     \<lparr>mt_codec = \<lparr>to_vec = (\<lambda>m. Inr (mc_data m)), from_slice = (\<lambda>bs. Inr (message_content_new bs))\<rparr>,
      mt_id = take 1, mt_id_codec = \<lparr>to_vec = Inr, from_slice = Inr\<rparr>, mt_id_show = (\<lambda>i. ''id'')\<rparr>"

definition memory_gcp_peekable :: "(memory_services, nat, bytes, bytes) gcp_peekable" where
  "memory_gcp_peekable =
     \<lparr>gy_env = memory_gcp, gy_view = mg_keys, gy_type = memory_message_type,
      gy_publisher = \<lparr>pk_publisher = \<lparr>gp_publisher = 0\<rparr>,
        pk_last_message_id_store = \<lparr>rc_key = ''last'', rc_connection = 0\<rparr>\<rparr>\<rparr>"

definition memory_publisher_state :: "memory_services publisher_state" where
  "memory_publisher_state =
     \<lparr>gs_world = memory_services_start, kv_metrics = kv_metrics_new ''last'',
      pub_metrics = publisher_metrics_new ''tasks''\<rparr>"

lemma memory_gcp_peekable_ok: "gcp_peekable_ok memory_gcp_peekable"
  by (auto simp: gcp_peekable_ok_def redis_store_ok_def redis_ok_def pubsub_ok_def cursor_store_def
      memory_gcp_peekable_def memory_gcp_def memory_message_type_def borsh_type_ok_def io_defs)

subsection \<open>Properties\<close>

text \<open>C20: on Google Pub/Sub, after a successful \<open>publish_batch\<close>, \<open>peek_last\<close>, when it succeeds,
  returns the id of the last message of the batch, and the batch gave one server id per message.\<close>

theorem gcp_publish_then_peek:
  assumes "gcp_peekable_ok Y" "batch \<noteq> []"
    and "peekable_publish_batch (gy_env Y) (gy_type Y) (gy_publisher Y) batch st = (Inr ids, st1)"
    and "peekable_peek_last (gy_env Y) (gy_type Y) (gy_publisher Y) st1 = (Inr peeked, st2)"
  shows "peeked = Some (mt_id (gy_type Y) (pm_data (last batch))) \<and> length ids = length batch"
  using gcp_peekable.batch_peek [OF assms(1-3) TrueI assms(4)]
    gcp_peekable.batch_length [OF assms(2,1,3)] by simp

theorem gcp_publish_then_peek_witness:
  "\<exists>st1 st2 ids. peekable_publish_batch memory_gcp memory_message_type (gy_publisher memory_gcp_peekable)
       [\<lparr>deduplication_id = ''a'', pm_data = [1]\<rparr>, \<lparr>deduplication_id = ''b'', pm_data = [2, 9]\<rparr>]
       memory_publisher_state = (Inr ids, st1) \<and>
     peekable_peek_last memory_gcp memory_message_type (gy_publisher memory_gcp_peekable) st1 = (Inr (Some [2]), st2)"
proof -
  let ?batch = "[\<lparr>deduplication_id = ''a'', pm_data = [1]\<rparr>, \<lparr>deduplication_id = ''b'', pm_data = [2, 9]\<rparr>] :: bytes publish_message list"
  let ?P = "gy_publisher memory_gcp_peekable"
  let ?publish = "peekable_publish_batch (gy_env memory_gcp_peekable) (gy_type memory_gcp_peekable) ?P ?batch"
  let ?peek = "peekable_peek_last (gy_env memory_gcp_peekable) (gy_type memory_gcp_peekable) ?P"
  have "isl (fst (?publish memory_publisher_state)) = False"
    by (simp add: peekable_publish_batch_def gcp_publish_batch_def peekable_upsert_def redis_upsert_def
        to_pubsub_message_def memory_gcp_peekable_def memory_message_type_def memory_gcp_def
        io_bind_def io_map_err_def on_world_def Let_def io_defs upt_rec)
  then obtain ids st1 where one: "?publish memory_publisher_state = (Inr ids, st1)"
    by (cases "?publish memory_publisher_state"; cases "fst (?publish memory_publisher_state)") auto
  have "isl (fst (?peek st1)) = False"
    by (simp add: peekable_peek_last_def redis_client_get_def memory_gcp_peekable_def memory_message_type_def
        memory_gcp_def io_bind_def io_inspect_err_def on_world_def Let_def io_defs split: option.split)
  then obtain peeked st2 where two: "?peek st1 = (Inr peeked, st2)"
    by (cases "?peek st1"; cases "fst (?peek st1)") auto
  have "peeked = Some (mt_id (gy_type memory_gcp_peekable) (pm_data (last ?batch))) \<and> length ids = length ?batch"
    by (rule gcp_publish_then_peek [OF memory_gcp_peekable_ok _ one two]) simp
  then have "peeked = Some [2]"
    by (simp add: memory_gcp_peekable_def memory_message_type_def)
  with one two show ?thesis
    by (auto simp: memory_gcp_peekable_def)
qed

text \<open>A batch that fails before the id of its last message is saved leaves the cursor where
  it was: a later peek reports the message it would have reported before, so the batch is
  fetched and published again.\<close>

theorem gcp_failed_batch_keeps_cursor:
  assumes "gcp_peekable_ok Y" "gcp_latest Y st v"
    and "peekable_publish_batch (gy_env Y) (gy_type Y) (gy_publisher Y) batch st = (Inl e, st')"
    and "case e of RedisSave _ \<Rightarrow> False | _ \<Rightarrow> True"
  shows "gcp_latest Y st' v"
proof (cases "batch = []")
  case True
  with assms show ?thesis by (simp add: peekable_publish_batch_def io_err_def)
next
  case False
  have same: "gcp_latest Y st1 v"
    if "gcp_publish_batch (gy_env Y) C P batch st = (r, st1)" for C P r st1
  proof -
    have "gy_view Y (gs_world st1) = gy_view Y (gs_world st)"
      using gcp_publish_batch_view [OF _ that] assms(1) by (simp add: gcp_peekable_ok_def)
    with assms(2) show ?thesis
      by (cases v) (simp_all add: gcp_latest_def redis_holds_def cursor_store_def)
  qed
  have "e \<noteq> RedisSave k" for k
    using assms(4) by (cases e) auto
  let ?G = "gy_env Y" and ?M = "gy_type Y" and ?P = "gy_publisher Y"
  have "gcp_publish_batch ?G (mt_codec ?M) (pk_publisher ?P) batch st = (Inl e, st') \<or>
    (\<exists>out st1. gcp_publish_batch ?G (mt_codec ?M) (pk_publisher ?P) batch st = (Inr out, st1) \<and>
       peekable_upsert ?G ?M ?P (mt_id ?M (pm_data (last batch))) st1 = (Inl e, st'))"
    using assms(3) False unfolding peekable_publish_batch_def Let_def by (auto simp: io_bind_eq_Inl)
  then show ?thesis
  proof (elim disjE exE conjE)
    fix out st1
    assume one: "gcp_publish_batch ?G (mt_codec ?M) (pk_publisher ?P) batch st = (Inr out, st1)"
      and two: "peekable_upsert ?G ?M ?P (mt_id ?M (pm_data (last batch))) st1 = (Inl e, st')"
    from two have "st' = st1"
      unfolding peekable_upsert_def by (rule redis_upsert_world_on_error) (use \<open>\<And>k. e \<noteq> RedisSave k\<close> in simp)
    with same [OF one] show ?thesis by simp
  qed (rule same)
qed

definition memory_unencodable :: "(memory_services, nat, bytes, bytes) gcp_peekable" where
  "memory_unencodable =
     memory_gcp_peekable\<lparr>gy_type := memory_message_type
       \<lparr>mt_codec := \<lparr>to_vec = (\<lambda>m. Inl (OtherIo ''too large'')),
         from_slice = (\<lambda>bs. Inr (message_content_new bs))\<rparr>\<rparr>\<rparr>"

theorem gcp_failed_batch_keeps_cursor_witness:
  "gcp_latest memory_unencodable
     (snd (peekable_publish_batch (gy_env memory_unencodable) (gy_type memory_unencodable)
       (gy_publisher memory_unencodable) [\<lparr>deduplication_id = ''a'', pm_data = [1]\<rparr>]
       memory_publisher_state)) None"
proof -
  let ?publish = "peekable_publish_batch (gy_env memory_unencodable) (gy_type memory_unencodable)
    (gy_publisher memory_unencodable) [\<lparr>deduplication_id = ''a'', pm_data = [1]\<rparr>] memory_publisher_state"
  have ok: "gcp_peekable_ok memory_unencodable"
    using memory_gcp_peekable_ok
    by (simp add: gcp_peekable_ok_def cursor_store_def memory_unencodable_def memory_gcp_peekable_def)
  have empty: "gcp_latest memory_unencodable memory_publisher_state None"
    by (simp add: gcp_latest_def redis_holds_def cursor_store_def memory_unencodable_def
        memory_gcp_peekable_def memory_publisher_state_def memory_services_start_def)
  have "fst ?publish = Inl (Serialize (OtherIo ''too large''))"
    by (simp add: peekable_publish_batch_def gcp_publish_batch_def to_pubsub_message_def
        memory_unencodable_def memory_gcp_peekable_def io_bind_def Let_def)
  then have run: "?publish = (Inl (Serialize (OtherIo ''too large'')), snd ?publish)"
    by (metis prod.collapse)
  show ?thesis
    by (rule gcp_failed_batch_keeps_cursor [OF ok empty run]) simp
qed

text \<open>The error counter of the Pub/Sub publishers is out of reach of \<open>publish\<close> and
  \<open>publish_batch\<close>: whatever fails, it does not move.\<close>

theorem gcp_publish_errors_not_counted:
  "gm_errors (pub_metrics (snd (gcp_publish G C P msg st))) = gm_errors (pub_metrics st) \<and>
   gm_errors (pub_metrics (snd (gcp_publish_batch G C P batch st))) = gm_errors (pub_metrics st) \<and>
   gm_errors (pub_metrics (snd (peekable_publish_batch G M PP batch st))) = gm_errors (pub_metrics st)"
  by (simp add: gcp_publish_errors gcp_publish_batch_errors peekable_publish_batch_errors)

end
