(* ===== verification/Subscriber.thy ===== *)
theory Subscriber
  imports Service_Base Gcp_Publisher "HOL-Library.Multiset"
begin

text \<open>
  The amplifier subscriber (crate \<open>amplifier-subscriber\<close>): it asks the Amplifier API for the
  tasks after the last one it published, sorts them by time and publishes them to the task
  queue.

  The publisher is used through its two traits, as a record of operations; the properties
  instantiate it with the NATS and the Google back end through the locale of peekable
  publishers.  \<open>sort_unstable_by_key\<close> is an argument: any sort is allowed that permutes
  its input into the order of the time stamps.
\<close>

subsection \<open>Configuration\<close>

record ('u, 'i) subscriber_config =
  sbc_amplifier :: "('u, 'i) amplifier_config"
  sbc_tickrate :: duration
  sbc_telemetry :: "telemetry_config option"
  sbc_max_errors :: u32
  sbc_limit_per_request :: u8

definition validate_subscriber_config :: "('u, 'i) subscriber_config \<Rightarrow> string + unit" where
  "validate_subscriber_config c = validate_chain (sbc_amplifier c)"

definition task_key :: string where "task_key = ''last-task''"

record 'k subscriber_gcp_section =
  sgc_redis_connection :: string
  sgc_tasks_topic :: string
  sgc_nak_deadline_secs :: i32
  sgc_worker_count :: u64
  sgc_max_bundle_size :: u64
  sgc_kms :: 'k

definition validate_subscriber_gcp_section ::
  "('k \<Rightarrow> string + unit) \<Rightarrow> 'k subscriber_gcp_section \<Rightarrow> string + unit" where
  "validate_subscriber_gcp_section validate_kms c =
     res_bind (validate_kms (sgc_kms c)) (\<lambda>_.
     res_bind (ensure (sgc_redis_connection c \<noteq> []) ''gcp redis_connection should be set'') (\<lambda>_.
     res_bind (ensure (sgc_tasks_topic c \<noteq> []) ''gcp tasks_topic should be set'') (\<lambda>_.
     res_bind (ensure (sint (sgc_nak_deadline_secs c) > 0) ''gcp nak_deadline_secs should be positive set'')
       (\<lambda>_. Inr ()))))"

subsection \<open>The subscriber\<close>

record ('u, 'c) subscriber =
  sb_client :: "('u, 'c) amplifier_api_client"
  sb_chain :: string
  sb_limit_items :: u8

record ('q, 'e, 'r) task_publisher =
  tp_peek_last :: "('q, 'e, task_item_id option) io"
  tp_publish_batch :: "task_item publish_message list \<Rightarrow> ('q, 'e, 'r list) io"
  tp_check_health :: "('q, 'e, unit) io"

text \<open>\<open>Subscriber::new\<close>; its metrics start in the state.\<close>

definition subscriber_new ::
  "('u, 'c) amplifier_api_client \<Rightarrow> u8 \<Rightarrow> string \<Rightarrow> ('u, 'c) subscriber \<times> simple_metrics" where
  "subscriber_new amplifier_client limit_items chain =
     (\<lparr>sb_client = amplifier_client, sb_chain = chain, sb_limit_items = limit_items\<rparr>,
      simple_metrics_new ''amplifier-subscriber'' [])"

datatype 'e subscribe_error =
    PeekFailed 'e
  | BuildFailed amplifier_api_error
  | SendFailed amplifier_api_error
  | ApiFailed amplifier_api_error
  | ApiRefused error_response
  | PublishFailed 'e
  | QueueUnhealthy 'e
  | ApiUnhealthy amplifier_api_error

text \<open>The query: the tasks of the chain after the last task, at most \<open>limit\<close> of them.\<close>

definition tasks_query :: "('u, 'c) subscriber \<Rightarrow> task_item_id option \<Rightarrow> get_chains" where
  "tasks_query S last_task_id =
     \<lparr>gc_chain = with_trailing_slash_new (sb_chain S), gc_after = last_task_id, gc_before = None,
      gc_limit = Some (sb_limit_items S)\<rparr>"

text \<open>\<open>subscribe\<close>, up to the tasks of the response.\<close>

definition fetch_tasks ::
  "('w, 'u, 'c, 'x, 'i, 't) http_env \<Rightarrow> ('q, 'e, 'r) task_publisher \<Rightarrow> ('u, 'c) subscriber \<Rightarrow>
     (('q, 'w) service_state, 'e subscribe_error, task_item list) io" where
  "fetch_tasks E P S =
     io_bind (io_map_err PeekFailed (on_queue (tp_peek_last P))) (\<lambda>last_task_id.
     io_bind (io_lift (map_err BuildFailed
         (build_request (sb_client S) (get_chains_request E (tasks_query S last_task_id))))) (\<lambda>request.
     io_bind (io_map_err SendFailed (on_http (execute E request))) (\<lambda>response.
     io_bind (io_map_err ApiFailed
         (on_http (response_json E (json_tasks_result E) (json_error_response E) response))) (\<lambda>result.
     io_bind (io_lift (map_err ApiRefused result)) (\<lambda>response.
       io_ok (gt_tasks response))))))"

definition task_batch ::
  "('w, 'u, 'c, 'x, 'i, 't) http_env \<Rightarrow> task_item list \<Rightarrow> task_item publish_message list" where
  "task_batch E tasks =
     map (publish_message_from task_msg_id (task_item_id_display (uuid_hyphenated E))) tasks"

text \<open>\<open>if res.is_err() { record_error() }; res\<close>, reached with the value of the block only.\<close>

definition finish_subscribe ::
  "'e subscribe_error + unit \<Rightarrow> (('q, 'w) service_state, 'e subscribe_error, unit) io" where
  "finish_subscribe res =
     io_bind (io_do (if isl res then service_record_error else (\<lambda>st. st))) (\<lambda>_. io_lift res)"

definition subscribe ::
  "('w, 'u, 'c, 'x, 'i, 't) http_env \<Rightarrow> (task_item list \<Rightarrow> task_item list) \<Rightarrow> ('q, 'e, 'r) task_publisher \<Rightarrow>
     ('u, 'c) subscriber \<Rightarrow> (('q, 'w) service_state, 'e subscribe_error, unit) io" where
  "subscribe E usort P S =
     io_bind (fetch_tasks E P S) (\<lambda>response_tasks.
       let tasks = usort response_tasks
       in if tasks = [] then io_ok ()
          else
            io_bind (io_map_err PublishFailed (on_queue (tp_publish_batch P (task_batch E tasks))))
              (\<lambda>_. finish_subscribe (Inr ())))"

definition subscriber_check_health ::
  "('w, 'u, 'c, 'x, 'i, 't) http_env \<Rightarrow> ('q, 'e, 'r) task_publisher \<Rightarrow> ('u, 'c) subscriber \<Rightarrow>
     (('q, 'w) service_state, 'e subscribe_error, unit) io" where
  "subscriber_check_health E P S =
     io_bind (io_inspect_err service_record_error (io_map_err QueueUnhealthy (on_queue (tp_check_health P)))) (\<lambda>_.
     io_bind (io_lift (map_err BuildFailed (build_request (sb_client S) (health_check_request E)))) (\<lambda>request.
     io_bind (io_inspect_err service_record_error (io_map_err ApiUnhealthy (on_http (execute E request))))
       (\<lambda>_. io_ok ())))"

text \<open>\<open>do_work\<close> of the supervised build.\<close>

definition subscriber_do_work ::
  "('w, 'u, 'c, 'x, 'i, 't) http_env \<Rightarrow> (task_item list \<Rightarrow> task_item list) \<Rightarrow> ('q, 'e, 'r) task_publisher \<Rightarrow>
     ('u, 'c) subscriber \<Rightarrow> (('q, 'w) service_state, 'e subscribe_error, unit) io" where
  "subscriber_do_work E usort P S = subscribe E usort P S"

subsection \<open>Construction\<close>

text \<open>\<open>amplifier_client\<close> of the GCP and of the NATS build of the subscriber.\<close>

definition subscriber_amplifier_client_gcp ::
  "('w, 'x, 'k, 't) kms_env \<Rightarrow> ('h, 'u, 'c, 'y, 'i, 't) http_env \<Rightarrow> ('u, 'i) subscriber_config \<Rightarrow>
     'k subscriber_gcp_section \<Rightarrow> (('w, 'z) gcp_state_scheme, startup_error, ('u, 'c) amplifier_api_client) io" where
  "subscriber_amplifier_client_gcp K E config infra =
     io_bind (io_lift (ok_or CertificateNotSet (am_tls_public_certificate (sbc_amplifier config)))) (\<lambda>certificate.
     io_bind (io_map_err KmsFailed
         (kms_tls_client_config K (string_into_bytes K certificate) (sgc_kms infra))) (\<lambda>client_config.
       io_lift (map_err ClientFailed
         (amplifier_client_new E (am_url (sbc_amplifier config)) (CustomProvider client_config)))))"

definition subscriber_amplifier_client_nats ::
  "('h, 'u, 'c, 'y, 'i, 't) http_env \<Rightarrow> ('u, 'i) subscriber_config \<Rightarrow>
     startup_error + ('u, 'c) amplifier_api_client" where
  "subscriber_amplifier_client_nats E config =
     res_bind (ok_or IdentityNotSet (am_identity (sbc_amplifier config))) (\<lambda>identity.
       map_err ClientFailed (amplifier_client_new E (am_url (sbc_amplifier config)) (Certificate identity)))"

definition new_amplifier_subscriber_gcp ::
  "'f config_env \<Rightarrow> ('f \<Rightarrow> ext_error + ('u, 'i) subscriber_config) \<Rightarrow>
     ('f \<Rightarrow> ext_error + 'k subscriber_gcp_section) \<Rightarrow> ('w, 'x) gcp_env \<Rightarrow> ('w, 'x, 'k, 't) kms_env \<Rightarrow>
     ('h, 'u, 'c, 'y, 'i, 't) http_env \<Rightarrow> string \<Rightarrow>
     (('w, 'z) publisher_state_scheme, startup_error,
      'x peekable_publisher \<times> ('u, 'c) subscriber \<times> simple_metrics) io" where
  "new_amplifier_subscriber_gcp F d_config d_section G K E config_path =
     io_bind (io_lift (map_err BadConfig
         (try_deserialize F d_config validate_subscriber_config config_path))) (\<lambda>config.
     io_bind (io_lift (map_err BadConfig
         (try_deserialize F d_section (validate_subscriber_gcp_section (kms_validate K)) config_path))) (\<lambda>infra.
     io_bind (io_map_err GcpConnect (gcp_connect_peekable_publisher G (sgc_tasks_topic infra)
         (sgc_redis_connection infra) task_key (sgc_worker_count infra) (sgc_max_bundle_size infra))) (\<lambda>publisher.
     io_bind (subscriber_amplifier_client_gcp K E config infra) (\<lambda>amplifier_client.
       io_ok (publisher, subscriber_new amplifier_client (sbc_limit_per_request config)
         (am_chain (sbc_amplifier config)))))))"

definition new_amplifier_subscriber_nats ::
  "'f config_env \<Rightarrow> ('f \<Rightarrow> ext_error + ('u, 'i) subscriber_config) \<Rightarrow>
     ('f \<Rightarrow> ext_error + nats_section) \<Rightarrow> ('w, 'x) nats_env \<Rightarrow> ('h, 'u, 'c, 'y, 'i, 't) http_env \<Rightarrow> string \<Rightarrow>
     ('w, startup_error, 'x nats_publisher \<times> ('u, 'c) subscriber \<times> simple_metrics) io" where
  "new_amplifier_subscriber_nats F d_config d_section N E config_path =
     io_bind (io_lift (map_err BadConfig
         (try_deserialize F d_config validate_subscriber_config config_path))) (\<lambda>config.
     io_bind (io_lift (map_err BadConfig
         (try_deserialize F d_section validate_nats_section config_path))) (\<lambda>section.
     io_bind (io_lift (subscriber_amplifier_client_nats E config)) (\<lambda>amplifier_client.
     io_bind (io_map_err NatsConnect (nats_connect_publisher N (ns_urls section)
         \<lparr>sa_name = tasks_stream, sa_subject = tasks_publish_subject,
          sa_description = ''amplifier tasks for blockchain ingester''\<rparr> tasks_publish_subject)) (\<lambda>publisher.
       io_ok (publisher, subscriber_new amplifier_client (sbc_limit_per_request config)
         (am_chain (sbc_amplifier config)))))))"

subsection \<open>Runs of subscribe\<close>

definition usort_ok :: "(task_item list \<Rightarrow> task_item list) \<Rightarrow> bool" where
  "usort_ok usort \<longleftrightarrow> (\<forall>ts. mset (usort ts) = mset ts \<and> sorted (map ti_timestamp (usort ts)))"

lemma usort_okD:
  assumes "usort_ok usort"
  shows "mset (usort ts) = mset ts" "set (usort ts) = set ts" "usort ts = [] \<longleftrightarrow> ts = []"
    "sorted (map ti_timestamp (usort ts))"
proof -
  show m: "mset (usort ts) = mset ts" and "sorted (map ti_timestamp (usort ts))"
    using assms by (auto simp: usort_ok_def)
  show "set (usort ts) = set ts"
    using m by (rule mset_eq_setD)
  show "usort ts = [] \<longleftrightarrow> ts = []"
    using m by (metis mset_zero_iff)
qed

lemma sorted_last: "sorted (map f xs) \<Longrightarrow> x \<in> set xs \<Longrightarrow> f x \<le> f (last xs)" for f :: "'a \<Rightarrow> 'b::linorder"
proof (induction xs)
  case (Cons y ys)
  then show ?case by (cases ys) auto
qed simp

lemma usort_last:
  assumes "usort_ok usort" "ts \<noteq> []"
  shows "last (usort ts) \<in> set ts \<and> list_all (\<lambda>t. ti_timestamp t \<le> ti_timestamp (last (usort ts))) ts"
proof -
  have "usort ts \<noteq> []" using usort_okD(3) [OF assms(1)] assms(2) by simp
  then have "last (usort ts) \<in> set ts"
    using usort_okD(2) [OF assms(1), of ts] last_in_set by blast
  moreover have "ti_timestamp t \<le> ti_timestamp (last (usort ts))" if "t \<in> set ts" for t
    using sorted_last [OF usort_okD(4) [OF assms(1)]] usort_okD(2) [OF assms(1), of ts] that by simp
  ultimately show ?thesis by (simp add: list_all_iff)
qed

lemma finish_subscribe_Inr [simp]: "finish_subscribe (Inr ()) st = (Inr (), st)"
  by (simp add: finish_subscribe_def io_bind_def io_defs)

text \<open>A run of \<open>subscribe\<close> after the tasks have been fetched.\<close>

lemma subscribe_after_fetch:
  assumes "fetch_tasks E P S st = (Inr tasks, st1)"
  shows "subscribe E usort P S st =
    (if usort tasks = [] then (Inr (), st1)
     else case tp_publish_batch P (task_batch E (usort tasks)) (ss_queue st1) of
       (Inr rs, q) \<Rightarrow> (Inr (), st1\<lparr>ss_queue := q\<rparr>)
     | (Inl e, q) \<Rightarrow> (Inl (PublishFailed e), st1\<lparr>ss_queue := q\<rparr>))"
  using assms
  by (auto simp: subscribe_def io_bind_def io_map_err_def on_queue_def Let_def io_ok_def
      split: prod.split sum.split)

lemma subscribe_fetch_failed:
  "fetch_tasks E P S st = (Inl e, st1) \<Longrightarrow> subscribe E usort P S st = (Inl e, st1)"
  by (simp add: subscribe_def io_bind_def)

lemma fetch_tasks_metrics: "ss_metrics (snd (fetch_tasks E P S st)) = ss_metrics st"
  by (auto simp: fetch_tasks_def io_bind_def io_map_err_def on_queue_def on_http_def io_lift_def io_ok_def
      split: prod.split sum.split)

lemma task_batch_last:
  "ts \<noteq> [] \<Longrightarrow> pm_data (last (task_batch E ts)) = last ts"
  by (simp add: task_batch_def publish_message_from_def last_map)

subsection \<open>With a peekable publisher\<close>

text \<open>The task queue a subscriber is generic over: a peekable publisher of tasks by their id.\<close>

locale task_queue =
  peek_publisher ok "\<lambda>_. task_msg_id" latest recorded publish_batch peek_last
  for ok :: "'p \<Rightarrow> bool"
    and latest :: "'p \<Rightarrow> 'st \<Rightarrow> task_item_id option \<Rightarrow> bool"
    and recorded :: "'r list \<Rightarrow> bool"
    and publish_batch :: "'p \<Rightarrow> task_item publish_message list \<Rightarrow> ('st, 'e, 'r list) io"
    and peek_last :: "'p \<Rightarrow> ('st, 'e, task_item_id option) io" +
  fixes publisher_of :: "'p \<Rightarrow> ('st, 'e, 'r) task_publisher"
  assumes publisher_of: "tp_peek_last (publisher_of p) = peek_last p"
    "tp_publish_batch (publisher_of p) = publish_batch p"
begin

text \<open>After a successful run that found tasks, the cursor is the newest of them.\<close>

lemma subscribe_latest:
  assumes ok: "ok p" and usort: "usort_ok usort"
    and fetched: "fetch_tasks E (publisher_of p) S st = (Inr tasks, st1)" "tasks \<noteq> []"
    and run: "subscribe E usort (publisher_of p) S st = (Inr (), st2)"
    and rec: "\<And>rs q. publish_batch p (task_batch E (usort tasks)) (ss_queue st1) = (Inr rs, q) \<Longrightarrow> recorded rs"
  shows "latest p (ss_queue st2) (Some (ti_id (last (usort tasks))))"
proof -
  have ne: "usort tasks \<noteq> []" "task_batch E (usort tasks) \<noteq> []"
    using usort_okD(3) [OF usort] fetched(2) by (simp_all add: task_batch_def)
  obtain rs q where batch: "publish_batch p (task_batch E (usort tasks)) (ss_queue st1) = (Inr rs, q)"
    and st2: "st2 = st1\<lparr>ss_queue := q\<rparr>"
    using run subscribe_after_fetch [OF fetched(1), of usort] ne(1)
    by (auto simp: publisher_of split: prod.splits sum.splits)
  from batch_latest [OF ok ne(2) batch rec [OF batch]] show ?thesis
    by (simp add: st2 task_batch_last [OF ne(1)] task_msg_id_def)
qed

text \<open>The next run asks for the tasks after that one.\<close>

lemma next_query:
  assumes "ok p" "latest p (ss_queue st) v" "on_queue (tp_peek_last (publisher_of p)) st = (Inr x, st')"
  shows "tasks_query S x = tasks_query S v"
proof -
  from assms(3) obtain q where "peek_last p (ss_queue st) = (Inr x, q)"
    by (auto simp: publisher_of io_cases)
  with peek_latest [OF assms(1,2)] show ?thesis by simp
qed

end

definition gcp_task_publisher ::
  "('w, 'x, task_item, task_item_id) gcp_peekable \<Rightarrow>
     (('w, 'z) publisher_state_scheme, gcp_error, string) task_publisher" where
  "gcp_task_publisher Y =
     \<lparr>tp_peek_last = peekable_peek_last (gy_env Y) (gy_type Y) (gy_publisher Y),
      tp_publish_batch = peekable_publish_batch (gy_env Y) (gy_type Y) (gy_publisher Y),
      tp_check_health = peekable_check_health (gy_env Y) (gy_publisher Y)\<rparr>"

definition nats_task_publisher ::
  "('w, 'x, task_item, task_item_id) nats_peekable \<Rightarrow> ('w, nats_error, publish_ack) task_publisher" where
  "nats_task_publisher Y =
     \<lparr>tp_peek_last = nats_peek_last (ny_env Y) (ny_codec Y) (ny_id Y) (ny_publisher Y),
      tp_publish_batch = nats_publish_batch (ny_env Y) (ny_codec Y) (ny_publisher Y),
      tp_check_health = nats_publisher_check_health (ny_env Y) (ny_publisher Y)\<rparr>"

definition gcp_task_queue_ok :: "('w, 'x, task_item, task_item_id) gcp_peekable \<Rightarrow> bool" where
  "gcp_task_queue_ok Y \<longleftrightarrow> gcp_peekable_ok Y \<and> mt_id (gy_type Y) = task_msg_id"

definition nats_task_queue_ok :: "('w, 'x, task_item, task_item_id) nats_peekable \<Rightarrow> bool" where
  "nats_task_queue_ok Y \<longleftrightarrow> nats_peekable_ok Y \<and> ny_id Y = task_msg_id"

interpretation gcp_tasks: task_queue gcp_task_queue_ok gcp_latest "\<lambda>_. True"
  "\<lambda>Y. peekable_publish_batch (gy_env Y) (gy_type Y) (gy_publisher Y)"
  "\<lambda>Y. peekable_peek_last (gy_env Y) (gy_type Y) (gy_publisher Y)" gcp_task_publisher
proof (unfold_locales, goal_cases)
  case (1 Y b st rs st')
  then show ?case
    using gcp_peekable.batch_latest [of Y b st rs st'] by (simp add: gcp_task_queue_ok_def)
next
  case (2 b Y st rs st')
  then show ?case
    using gcp_peekable.batch_length [of b Y st rs st'] by (simp add: gcp_task_queue_ok_def)
next
  case (3 Y st v x st')
  then show ?case
    using gcp_peekable.peek_latest [of Y st v x st'] by (simp add: gcp_task_queue_ok_def)
qed (simp_all add: gcp_task_publisher_def)

interpretation nats_tasks: task_queue nats_task_queue_ok nats_latest last_not_duplicate
  "\<lambda>Y. nats_publish_batch (ny_env Y) (ny_codec Y) (ny_publisher Y)"
  "\<lambda>Y. nats_peek_last (ny_env Y) (ny_codec Y) (ny_id Y) (ny_publisher Y)" nats_task_publisher
proof (unfold_locales, goal_cases)
  case (1 Y b st rs st')
  then show ?case
    using nats_peekable.batch_latest [of Y b st rs st'] by (simp add: nats_task_queue_ok_def)
next
  case (2 b Y st rs st')
  then show ?case
    using nats_peekable.batch_length [of b Y st rs st'] by (simp add: nats_task_queue_ok_def)
next
  case (3 Y st v x st')
  then show ?case
    using nats_peekable.peek_latest [of Y st v x st'] by (simp add: nats_task_queue_ok_def)
qed (simp_all add: nats_task_publisher_def)

lemma subscribe_metrics: "ss_metrics (snd (subscribe E usort P S st)) = ss_metrics st"
proof -
  obtain r st1 where run: "fetch_tasks E P S st = (r, st1)" by force
  then have m: "ss_metrics st1 = ss_metrics st"
    using fetch_tasks_metrics by (metis snd_conv)
  show ?thesis
  proof (cases r)
    case (Inl e)
    with run m show ?thesis by (simp add: subscribe_fetch_failed)
  next
    case (Inr tasks)
    with run m show ?thesis
      by (auto simp: subscribe_after_fetch split: prod.split sum.split)
  qed
qed

text \<open>How the tasks of a run have been obtained.\<close>

lemma fetch_tasks_ok:
  assumes "fetch_tasks E P S st = (Inr tasks, st1)"
  obtains x q url body resp w1 w2 v where
    "tp_peek_last P (ss_queue st) = (Inr x, q)"
    "get_chains_path E (tasks_query S x) (ac_url (sb_client S)) = Inr url" "json_unit E = Inr body"
    "http_execute E \<lparr>hr_client = ac_inner (sb_client S), hr_method = GET, hr_url = url, hr_body = body\<rparr>
       (ss_http st) = (Inr resp, w1)"
    "response_json E (json_tasks_result E) (json_error_response E) resp w1 = (Inr (Inr v), w2)"
    "tasks = gt_tasks v" "st1 = st\<lparr>ss_queue := q, ss_http := w2\<rparr>"
  using assms
  by (auto simp: fetch_tasks_def io_cases build_request_def get_chains_request_def execute_def res_bind_eq_Inr)

subsection \<open>A subscriber in memory\<close>

definition unary_id :: "task_item_id borsh_type" where
  "unary_id =
     \<lparr>to_vec = (\<lambda>i. Inr (replicate (unat (task_item_uuid i)) 0)),
      from_slice = (\<lambda>bs. Inr (TaskItemId (of_nat (length bs))))\<rparr>"

definition memory_task_type :: "(task_item, task_item_id) message_type" where
  "memory_task_type =
     \<lparr>mt_codec = \<lparr>to_vec = (\<lambda>m. Inr []), from_slice = (\<lambda>bs. Inl (OtherIo ''not read''))\<rparr>,
      mt_id = task_msg_id, mt_id_codec = unary_id, mt_id_show = (\<lambda>i. ''id'')\<rparr>"

definition memory_task_peekable :: "(memory_services, nat, task_item, task_item_id) gcp_peekable" where
  "memory_task_peekable =
     \<lparr>gy_env = memory_gcp, gy_view = mg_keys, gy_type = memory_task_type,
      gy_publisher = \<lparr>pk_publisher = \<lparr>gp_publisher = 0\<rparr>,
        pk_last_message_id_store = \<lparr>rc_key = task_key, rc_connection = 0\<rparr>\<rparr>\<rparr>"

definition memory_subscriber :: "(memory_url, unit) subscriber" where
  "memory_subscriber =
     \<lparr>sb_client = \<lparr>ac_inner = (), ac_url = ([''v1'', []], [])\<rparr>, sb_chain = ''solana'', sb_limit_items = 100\<rparr>"

definition memory_subscriber_state :: "(memory_services publisher_state, memory_api) service_state" where
  "memory_subscriber_state =
     \<lparr>ss_queue = memory_publisher_state, ss_http = \<lparr>ma_seen = [], ma_replies = [(200, [5, 2])]\<rparr>,
      ss_metrics = simple_metrics_new ''amplifier-subscriber'' []\<rparr>"

abbreviation memory_fetch where
  "memory_fetch \<equiv> fetch_tasks memory_http (gcp_task_publisher memory_task_peekable) memory_subscriber memory_subscriber_state"

abbreviation memory_subscribe where
  "memory_subscribe \<equiv> subscribe memory_http (sort_key ti_timestamp) (gcp_task_publisher memory_task_peekable)
     memory_subscriber memory_subscriber_state"

lemma sort_key_usort_ok: "usort_ok (sort_key ti_timestamp)"
  by (simp add: usort_ok_def)

lemma memory_task_queue_ok: "gcp_task_queue_ok memory_task_peekable"
  by (auto simp: gcp_task_queue_ok_def gcp_peekable_ok_def redis_store_ok_def redis_ok_def pubsub_ok_def
      cursor_store_def memory_task_peekable_def memory_gcp_def memory_task_type_def unary_id_def
      borsh_type_ok_def io_defs)

lemma memory_latest_None: "gcp_latest memory_task_peekable (ss_queue memory_subscriber_state) None"
  by (simp add: gcp_latest_def redis_holds_def cursor_store_def memory_task_peekable_def
      memory_subscriber_state_def memory_publisher_state_def memory_services_start_def)

lemma memory_fetch_run: "\<exists>st1. memory_fetch = (Inr (map memory_task_item [5, 2]), st1)"
  by (simp add: fetch_tasks_def gcp_task_publisher_def peekable_peek_last_def redis_client_get_def
      memory_task_peekable_def memory_gcp_def memory_subscriber_state_def memory_publisher_state_def
      memory_services_start_def memory_subscriber_def memory_http_def tasks_query_def get_chains_request_def
      get_chains_path_def build_request_def execute_def response_json_def with_trailing_slash_new_def
      is_success_def io_bind_def io_map_err_def io_inspect_err_def on_queue_def on_http_def on_world_def
      Let_def io_defs append_opt_def)

lemma memory_gcp_sel:
  "awaiter_get memory_gcp = (\<lambda>h. io_ok (dec_nat h))"
  "redis_set memory_gcp = (\<lambda>conn k v w. (Inr (), w\<lparr>mg_keys := (mg_keys w)(k \<mapsto> v)\<rparr>))"
  by (simp_all add: memory_gcp_def)

lemma memory_confirm_all: "\<exists>q'. confirm_all memory_gcp t hs q = (Inr (map dec_nat hs), q')"
  for q :: "memory_services publisher_state"
proof (induction hs arbitrary: q)
  case (Cons h hs)
  obtain q' where "confirm_all memory_gcp t hs (record_publish memory_gcp t q) = (Inr (map dec_nat hs), q')"
    using Cons.IH by blast
  then show ?case
    by (simp add: memory_gcp_sel io_bind_def io_map_err_def on_world_def io_defs)
qed (simp add: io_defs)

lemma memory_publish_run:
  fixes q :: "memory_services publisher_state"
  assumes "b \<noteq> []"
  shows "\<exists>ids q'. peekable_publish_batch memory_gcp memory_task_type (gy_publisher memory_task_peekable) b q = (Inr ids, q')"
proof -
  let ?P = "pk_publisher (gy_publisher memory_task_peekable)"
  have enc: "collect_res (map (\<lambda>msg. to_pubsub_message memory_gcp (mt_codec memory_task_type) msg (gs_world q)) b) =
      Inr (map (\<lambda>msg. \<lparr>ps_data = [], ps_attributes = [msg_id_attribute \<mapsto> deduplication_id msg]\<rparr>) b)"
    unfolding collect_res_eq_Inr by (simp add: to_pubsub_message_def memory_task_type_def Let_def)
  obtain hs w1 where bulk: "pubsub_publish_bulk memory_gcp (gp_publisher ?P)
      (map (\<lambda>msg. \<lparr>ps_data = [], ps_attributes = [msg_id_attribute \<mapsto> deduplication_id msg]\<rparr>) b) (gs_world q) = (hs, w1)"
    by force
  obtain q1 where conf: "confirm_all memory_gcp (instant_now memory_gcp (gs_world q)) hs (q\<lparr>gs_world := w1\<rparr>) =
      (Inr (map dec_nat hs), q1)"
    using memory_confirm_all by blast
  have "gcp_publish_batch memory_gcp (mt_codec memory_task_type) ?P b q = (Inr (map dec_nat hs), q1)"
    using assms by (simp add: gcp_publish_batch_def io_bind_def enc bulk conf Let_def)
  then show ?thesis
    using assms by (simp add: peekable_publish_batch_def peekable_upsert_def redis_upsert_def memory_gcp_sel
        memory_task_type_def unary_id_def io_bind_def io_map_err_def on_world_def Let_def io_defs)
qed

lemma memory_subscribe_run: "\<exists>st2. memory_subscribe = (Inr (), st2)"
proof -
  obtain st1 where fetched: "memory_fetch = (Inr (map memory_task_item [5, 2]), st1)"
    using memory_fetch_run by blast
  let ?b = "task_batch memory_http (sort_key ti_timestamp (map memory_task_item [5, 2]))"
  have ne: "sort_key ti_timestamp (map memory_task_item [5, 2]) \<noteq> []" "?b \<noteq> []"
    using usort_okD(3) [OF sort_key_usort_ok, of "map memory_task_item [5, 2]"] by (simp_all add: task_batch_def)
  obtain ids q where "peekable_publish_batch memory_gcp memory_task_type
      (gy_publisher memory_task_peekable) ?b (ss_queue st1) = (Inr ids, q)"
    using memory_publish_run [OF ne(2)] by blast
  then have "tp_publish_batch (gcp_task_publisher memory_task_peekable) ?b (ss_queue st1) = (Inr ids, q)"
    by (simp add: gcp_task_publisher_def memory_task_peekable_def)
  then show ?thesis
    unfolding subscribe_after_fetch [OF fetched] using ne(1) by simp
qed

lemma memory_peek_run: "\<exists>x q. peekable_peek_last memory_gcp memory_task_type (gy_publisher memory_task_peekable) st = (Inr x, q)"
proof -
  have "from_slice unary_id bs = Inr (TaskItemId (of_nat (length bs)))" for bs
    by (simp add: unary_id_def)
  then show ?thesis
    by (cases "mg_keys (gs_world st) task_key")
      (simp_all add: peekable_peek_last_def redis_client_get_def memory_task_peekable_def memory_gcp_def
        memory_task_type_def io_bind_def io_inspect_err_def on_world_def Let_def io_defs)
qed

subsection \<open>Properties\<close>

text \<open>C13: on Google Pub/Sub, when a run of \<open>subscribe\<close> that found tasks succeeds, the cursor is
  the id of a task of the response with the latest time stamp, whichever sort the library uses:
  that is what a later \<open>peek_last\<close> reports.\<close>

theorem gcp_subscribe_moves_cursor:
  assumes "gcp_task_queue_ok Y" "usort_ok usort"
    and "fetch_tasks E (gcp_task_publisher Y) S st = (Inr tasks, st1)" "tasks \<noteq> []"
    and "subscribe E usort (gcp_task_publisher Y) S st = (Inr (), st2)"
    and "tp_peek_last (gcp_task_publisher Y) (ss_queue st2) = (Inr peeked, q)"
  shows "\<exists>t \<in> set tasks. peeked = Some (ti_id t) \<and> list_all (\<lambda>u. ti_timestamp u \<le> ti_timestamp t) tasks"
proof -
  have "gcp_latest Y (ss_queue st2) (Some (ti_id (last (usort tasks))))"
    by (rule gcp_tasks.subscribe_latest [OF assms(1-5)]) simp
  then have "peeked = Some (ti_id (last (usort tasks)))"
    using gcp_tasks.peek_latest [OF assms(1), of "ss_queue st2" _ peeked q] assms(6)
    by (simp add: gcp_task_publisher_def)
  with usort_last [OF assms(2,4)] show ?thesis by blast
qed

theorem gcp_subscribe_moves_cursor_witness:
  "\<exists>st2 q. memory_subscribe = (Inr (), st2) \<and>
     tp_peek_last (gcp_task_publisher memory_task_peekable) (ss_queue st2) = (Inr (Some (TaskItemId 5)), q)"
proof -
  obtain st1 where fetched: "memory_fetch = (Inr (map memory_task_item [5, 2]), st1)"
    using memory_fetch_run by blast
  obtain st2 where run: "memory_subscribe = (Inr (), st2)" using memory_subscribe_run by blast
  obtain x q where peek: "tp_peek_last (gcp_task_publisher memory_task_peekable) (ss_queue st2) = (Inr x, q)"
    using memory_peek_run [of "ss_queue st2"] by (auto simp: gcp_task_publisher_def memory_task_peekable_def)
  have "\<exists>t \<in> set (map memory_task_item [5, 2]). x = Some (ti_id t) \<and>
      list_all (\<lambda>u. ti_timestamp u \<le> ti_timestamp t) (map memory_task_item [5, 2])"
    by (rule gcp_subscribe_moves_cursor [OF memory_task_queue_ok sort_key_usort_ok fetched _ run peek]) simp
  then have "x = Some (TaskItemId 5)"
    by (auto simp: memory_task_item_def less_eq_datetime_def)
  with run peek show ?thesis by blast
qed

text \<open>A run of \<open>subscribe\<close> asks the API for the tasks after the one the queue reports as its
  latest, below the configured limit, with a GET of the tasks path of its chain; the tasks it
  goes on with are those of the response.\<close>

theorem gcp_subscribe_query:
  assumes "gcp_task_queue_ok Y" "gcp_latest Y (ss_queue st) v"
    and "fetch_tasks E (gcp_task_publisher Y) S st = (Inr tasks, st1)"
  shows "\<exists>url body resp w1 w2 result.
    get_chains_path E \<lparr>gc_chain = with_trailing_slash_new (sb_chain S), gc_after = v, gc_before = None,
        gc_limit = Some (sb_limit_items S)\<rparr> (ac_url (sb_client S)) = Inr url \<and>
    http_execute E \<lparr>hr_client = ac_inner (sb_client S), hr_method = GET, hr_url = url, hr_body = body\<rparr>
      (ss_http st) = (Inr resp, w1) \<and>
    response_json E (json_tasks_result E) (json_error_response E) resp w1 = (Inr (Inr result), w2) \<and>
    tasks = gt_tasks result"
proof -
  from fetch_tasks_ok [OF assms(3)] obtain x q url body resp w1 w2 result where
    run: "tp_peek_last (gcp_task_publisher Y) (ss_queue st) = (Inr x, q)"
    "get_chains_path E (tasks_query S x) (ac_url (sb_client S)) = Inr url"
    "http_execute E \<lparr>hr_client = ac_inner (sb_client S), hr_method = GET, hr_url = url, hr_body = body\<rparr>
       (ss_http st) = (Inr resp, w1)"
    "response_json E (json_tasks_result E) (json_error_response E) resp w1 = (Inr (Inr result), w2)"
    "tasks = gt_tasks result" by metis
  have "x = v"
    using gcp_tasks.peek_latest [OF assms(1,2), of x q] run(1) by (simp add: gcp_task_publisher_def)
  with run show ?thesis unfolding tasks_query_def by blast
qed

theorem gcp_subscribe_query_witness:
  "\<exists>url. get_chains_path memory_http \<lparr>gc_chain = with_trailing_slash_new ''solana'', gc_after = None,
      gc_before = None, gc_limit = Some 100\<rparr> ([''v1'', []], []) = Inr url"
proof -
  obtain st1 where "memory_fetch = (Inr (map memory_task_item [5, 2]), st1)"
    using memory_fetch_run by blast
  from gcp_subscribe_query [OF memory_task_queue_ok memory_latest_None this] show ?thesis
    by (auto simp: memory_subscriber_def)
qed

text \<open>C16: the tasks of a response are published exactly once each, in one batch in the order of
  their time stamps, each with its own id as the deduplication id; the run succeeds exactly
  when the batch does.\<close>

theorem subscribe_publishes_all:
  assumes "usort_ok usort" "fetch_tasks E P S st = (Inr tasks, st1)" "tasks \<noteq> []"
  shows "\<exists>b. mset (map pm_data b) = mset tasks \<and> sorted (map (ti_timestamp \<circ> pm_data) b) \<and>
    list_all (\<lambda>m. deduplication_id m = uuid_hyphenated E (task_item_uuid (ti_id (pm_data m)))) b \<and>
    subscribe E usort P S st =
      (case tp_publish_batch P b (ss_queue st1) of
         (r, q) \<Rightarrow> (case r of Inl e \<Rightarrow> Inl (PublishFailed e) | Inr _ \<Rightarrow> Inr (), st1\<lparr>ss_queue := q\<rparr>))"
proof (intro exI conjI)
  let ?b = "task_batch E (usort tasks)"
  have data: "map pm_data ?b = usort tasks"
    by (simp add: task_batch_def publish_message_from_def comp_def)
  then show "mset (map pm_data ?b) = mset tasks"
    using usort_okD(1) [OF assms(1)] by simp
  show "sorted (map (ti_timestamp \<circ> pm_data) ?b)"
    using usort_okD(4) [OF assms(1), of tasks] data by (metis map_map)
  show "list_all (\<lambda>m. deduplication_id m = uuid_hyphenated E (task_item_uuid (ti_id (pm_data m)))) ?b"
    by (simp add: list_all_iff task_batch_def publish_message_from_def task_item_id_display_def task_msg_id_def)
  have "usort tasks \<noteq> []" using usort_okD(3) [OF assms(1)] assms(3) by simp
  then show "subscribe E usort P S st =
      (case tp_publish_batch P ?b (ss_queue st1) of
         (r, q) \<Rightarrow> (case r of Inl e \<Rightarrow> Inl (PublishFailed e) | Inr _ \<Rightarrow> Inr (), st1\<lparr>ss_queue := q\<rparr>))"
    unfolding subscribe_after_fetch [OF assms(2)] by (simp split: prod.split sum.split)
qed

theorem subscribe_publishes_all_witness:
  "\<exists>(b :: task_item publish_message list) st1. memory_fetch = (Inr (map memory_task_item [5, 2]), st1) \<and>
     mset (map pm_data b) = mset (map memory_task_item [5, 2]) \<and>
     sorted (map (ti_timestamp \<circ> pm_data) b)"
proof -
  obtain st1 where fetched: "memory_fetch = (Inr (map memory_task_item [5, 2]), st1)"
    using memory_fetch_run by blast
  have "map memory_task_item [5, 2] \<noteq> []" by simp
  from subscribe_publishes_all [OF sort_key_usort_ok fetched this]
  obtain b :: "task_item publish_message list" where
    "mset (map pm_data b) = mset (map memory_task_item [5, 2])" "sorted (map (ti_timestamp \<circ> pm_data) b)"
    by blast
  with fetched show ?thesis by blast
qed

text \<open>The error counter of the subscriber is out of reach of \<open>subscribe\<close>: whatever fails,
  its metrics do not change.\<close>

theorem subscribe_errors_not_counted:
  "sm_errors (ss_metrics (snd (subscribe E usort P S st))) = sm_errors (ss_metrics st)"
  by (simp add: subscribe_metrics)

end
