(* ===== verification/Tracking.thy ===== *)
theory Tracking
  imports Prelude Complex_Main
begin

text \<open>
  The throughput tracker of \<open>infrastructure/src/tracking.rs\<close>: three atomic 64-bit counters,
  updated by the consumer's callbacks and read by the metrics exporter.  Each atomic operation
  is a step; \<open>update_and_get_rate\<close> is a small program of five steps, which other threads can
  interleave with.  The monotonic clock in milliseconds is part of the state; as the source
  does, its overflow is left aside.
\<close>

record throughput_tracker =
  processed_count :: u64
  last_count :: u64
  last_timestamp_ms :: u64

definition tracker_new :: "u64 \<Rightarrow> throughput_tracker" where
  "tracker_new now = \<lparr>processed_count = 0, last_count = 0, last_timestamp_ms = now\<rparr>"

definition record_processed_message :: "throughput_tracker \<Rightarrow> throughput_tracker" where
  "record_processed_message t = t\<lparr>processed_count := processed_count t + 1\<rparr>"

text \<open>The value returned: the rate per second, from the four numbers that were read.\<close>

definition rate_of :: "u64 \<Rightarrow> u64 \<Rightarrow> u64 \<Rightarrow> u64 \<Rightarrow> rat option" where
  "rate_of current_count prev_count now last_ms =
     (let elapsed_sec = of_nat (unat (now - last_ms)) / 1000
      in if elapsed_sec > 0 then Some (of_nat (unat (current_count - prev_count)) / elapsed_sec)
         else None)"

text \<open>\<open>update_and_get_rate\<close> when nothing interleaves with it.\<close>

definition update_and_get_rate :: "u64 \<Rightarrow> throughput_tracker \<Rightarrow> rat option \<times> throughput_tracker" where
  "update_and_get_rate now t =
     (let current_count = processed_count t;
          prev_count = last_count t;
          t = t\<lparr>last_count := current_count\<rparr>;
          last_ms = last_timestamp_ms t;
          t = t\<lparr>last_timestamp_ms := now\<rparr>
      in (rate_of current_count prev_count now last_ms, t))"

definition current_time_millis :: "duration \<Rightarrow> u64" where
  "current_time_millis elapsed = dur_secs elapsed * 1000 + ucast (dur_nanos elapsed div 1000000)"

subsection \<open>Interleaved execution\<close>

text \<open>Where a call of \<open>update_and_get_rate\<close> stands, with the values it has read.\<close>

datatype updater =
    Idle
  | Loaded u64
  | Swapped u64 u64
  | Timed u64 u64 u64

record tracking =
  tracker :: throughput_tracker
  clock :: u64
  updaters :: "updater list"
  reads :: "(u64 \<times> u64 \<times> u64 \<times> u64) list"

inductive track_step :: "tracking \<Rightarrow> tracking \<Rightarrow> bool" where
  processed:
    "track_step s (s\<lparr>tracker := record_processed_message (tracker s)\<rparr>)"
| tick:
    "clock s \<le> now \<Longrightarrow> track_step s (s\<lparr>clock := now\<rparr>)"
| load_count:
    "i < length (updaters s) \<Longrightarrow> updaters s ! i = Idle \<Longrightarrow>
     track_step s (s\<lparr>updaters := (updaters s)[i := Loaded (processed_count (tracker s))]\<rparr>)"
| swap_count:
    "i < length (updaters s) \<Longrightarrow> updaters s ! i = Loaded c \<Longrightarrow>
     track_step s (s\<lparr>updaters := (updaters s)[i := Swapped c (last_count (tracker s))],
                     tracker := (tracker s)\<lparr>last_count := c\<rparr>\<rparr>)"
| read_clock:
    "i < length (updaters s) \<Longrightarrow> updaters s ! i = Swapped c p \<Longrightarrow>
     track_step s (s\<lparr>updaters := (updaters s)[i := Timed c p (clock s)]\<rparr>)"
| swap_time:
    "i < length (updaters s) \<Longrightarrow> updaters s ! i = Timed c p now \<Longrightarrow>
     track_step s (s\<lparr>updaters := (updaters s)[i := Idle],
                     tracker := (tracker s)\<lparr>last_timestamp_ms := now\<rparr>,
                     reads := (c, p, now, last_timestamp_ms (tracker s)) # reads s\<rparr>)"

inductive track_steps :: "nat \<Rightarrow> tracking \<Rightarrow> tracking \<Rightarrow> bool" where
  none: "track_steps 0 s s"
| more: "track_steps n s t \<Longrightarrow> track_step t u \<Longrightarrow> track_steps (Suc n) s u"

definition tracking_start :: "u64 \<Rightarrow> nat \<Rightarrow> tracking" where
  "tracking_start now k =
     \<lparr>tracker = tracker_new now, clock = now, updaters = replicate k Idle, reads = []\<rparr>"

inductive_simps track_steps_0: "track_steps 0 s t"

subsection \<open>A single updater\<close>

text \<open>What holds between two steps while only one thread updates; \<open>n\<close> bounds the messages.\<close>

fun updater_ok :: "tracking \<Rightarrow> updater \<Rightarrow> bool" where
  "updater_ok s Idle = True"
| "updater_ok s (Loaded c) = (last_count (tracker s) \<le> c \<and> c \<le> processed_count (tracker s))"
| "updater_ok s (Swapped c p) = (p \<le> c)"
| "updater_ok s (Timed c p now) = (p \<le> c \<and> last_timestamp_ms (tracker s) \<le> now \<and> now \<le> clock s)"

definition tracking_ok :: "nat \<Rightarrow> tracking \<Rightarrow> bool" where
  "tracking_ok n s \<longleftrightarrow>
     (\<exists>u. updaters s = [u] \<and> updater_ok s u) \<and>
     unat (processed_count (tracker s)) \<le> n \<and>
     last_count (tracker s) \<le> processed_count (tracker s) \<and>
     last_timestamp_ms (tracker s) \<le> clock s \<and>
     (\<forall>(c, p, now, last_ms) \<in> set (reads s). p \<le> c \<and> last_ms \<le> now)"

lemma word_inc_le: "(a :: u64) \<le> b \<Longrightarrow> unat b < 2 ^ 64 - 1 \<Longrightarrow> a \<le> b + 1"
  by (simp add: word_le_nat_alt unat_word_ariths)

lemma tracking_ok_step:
  assumes "track_step s t" "tracking_ok n s" "n < 2 ^ 64 - 1"
  shows "tracking_ok (Suc n) t"
  using assms(1)
proof cases
  case processed
  have le: "unat (processed_count (tracker s)) < 2 ^ 64 - 1"
    using assms(2,3) by (auto simp: tracking_ok_def)
  obtain u where u: "updaters s = [u]" "updater_ok s u"
    using assms(2) by (auto simp: tracking_ok_def)
  have "updater_ok t u"
    using u(2) le processed by (cases u) (auto simp: record_processed_message_def intro: word_inc_le)
  moreover have "unat (processed_count (tracker s) + 1) \<le> Suc n"
    using assms(2) le by (simp add: tracking_ok_def unat_word_ariths)
  ultimately show ?thesis
    using assms(2) u(1) le processed
    by (auto simp: tracking_ok_def record_processed_message_def intro: word_inc_le)
next
  case (tick now)
  obtain u where u: "updaters s = [u]" "updater_ok s u"
    using assms(2) by (auto simp: tracking_ok_def)
  have "updater_ok t u"
    using u(2) tick by (cases u) auto
  with u(1) assms(2) tick show ?thesis
    by (auto simp: tracking_ok_def)
qed (use assms(2) in \<open>auto simp: tracking_ok_def\<close>)

lemma tracking_ok_reachable:
  "track_steps n s t \<Longrightarrow> s = tracking_start now0 1 \<Longrightarrow> n < 2 ^ 64 - 1 \<Longrightarrow> tracking_ok n t"
proof (induction rule: track_steps.induct)
  case (none s)
  then show ?case by (simp add: tracking_ok_def tracking_start_def tracker_new_def)
next
  case (more n s t u)
  then show ?case using tracking_ok_step by simp
qed

subsection \<open>Properties\<close>

text \<open>C24: with one thread reading the rate, and any number of threads recording messages in
  between, no subtraction of \<open>update_and_get_rate\<close> underflows, for as many steps as the 64-bit
  counter has values: the previous count never exceeds the current one, nor the previous time
  the new one.\<close>

theorem single_updater_never_underflows:
  assumes "track_steps n (tracking_start now0 1) t" "n < 2 ^ 64 - 1"
  shows "list_all (\<lambda>(c, p, now, last_ms). p \<le> c \<and> last_ms \<le> now) (reads t)"
  using tracking_ok_reachable [OF assms(1) refl assms(2)] by (simp add: tracking_ok_def list_all_iff)

text \<open>A run of two messages and one reading.\<close>

definition tracking_example :: tracking where
  "tracking_example =
     \<lparr>tracker = \<lparr>processed_count = 2, last_count = 2, last_timestamp_ms = 1500\<rparr>, clock = 1500,
      updaters = [Idle], reads = [(2, 0, 1500, 1000)]\<rparr>"

lemma tracking_example_run: "track_steps 7 (tracking_start 1000 1) tracking_example"
proof -
  let ?s = "\<lambda>p l ts c u r. \<lparr>tracker = \<lparr>processed_count = p, last_count = l, last_timestamp_ms = ts\<rparr>,
      clock = c, updaters = [u], reads = r\<rparr>"
  have go: "track_steps (Suc n) s v" if "track_steps n s t" "track_step t w" "v = w" for n s t v w
    using that track_steps.more by simp
  have "track_steps 0 (tracking_start 1000 1) (?s 0 0 1000 1000 Idle [])"
    by (simp add: track_steps_0 tracking_start_def tracker_new_def)
  from go [OF this track_step.processed] have "track_steps (Suc 0) (tracking_start 1000 1) (?s 1 0 1000 1000 Idle [])"
    by (simp add: record_processed_message_def)
  from go [OF this track_step.processed] have "track_steps (Suc (Suc 0)) (tracking_start 1000 1) (?s 2 0 1000 1000 Idle [])"
    by (simp add: record_processed_message_def)
  from go [OF this track_step.tick [of _ 1500]]
  have "track_steps (Suc (Suc (Suc 0))) (tracking_start 1000 1) (?s 2 0 1000 1500 Idle [])"
    by simp
  from go [OF this track_step.load_count [of 0]]
  have "track_steps (Suc (Suc (Suc (Suc 0)))) (tracking_start 1000 1) (?s 2 0 1000 1500 (Loaded 2) [])"
    by simp
  from go [OF this track_step.swap_count [of 0 _ 2]]
  have "track_steps (Suc (Suc (Suc (Suc (Suc 0))))) (tracking_start 1000 1) (?s 2 2 1000 1500 (Swapped 2 0) [])"
    by simp
  from go [OF this track_step.read_clock [of 0 _ 2 0]]
  have "track_steps (Suc (Suc (Suc (Suc (Suc (Suc 0)))))) (tracking_start 1000 1) (?s 2 2 1000 1500 (Timed 2 0 1500) [])"
    by simp
  from go [OF this track_step.swap_time [of 0 _ 2 0 1500]]
  have "track_steps (Suc (Suc (Suc (Suc (Suc (Suc (Suc 0))))))) (tracking_start 1000 1) tracking_example"
    by (simp add: tracking_example_def)
  then show ?thesis by (simp add: eval_nat_numeral)
qed

theorem single_updater_never_underflows_witness:
  "list_all (\<lambda>(c, p, now, last_ms). p \<le> c \<and> last_ms \<le> now) (reads tracking_example) \<and>
   rate_of 2 0 1500 1000 = Some 4"
  using single_updater_never_underflows [OF tracking_example_run] by (simp add: rate_of_def)

end
