(* ===== verification/Gcp_Consumer.thy ===== *)
theory Gcp_Consumer
  imports Gcp_Common Tracking
begin

text \<open>
  The Pub/Sub consumer of \<open>gcp/consumer.rs\<close>: messages and their acknowledgement, the
  deduplication against Redis, the callback of the background read task with the channel to
  the client, and the metrics.

  The state of a consumer is its metrics, the channel (what was sent and not yet taken), the
  flags that tell whether the receiver still exists, whether the read task has finished, and
  whether the token was cancelled.  A processing time is kept in milliseconds; \<open>None\<close> stands
  for the \<open>f64::MAX\<close> recorded when it does not fit 64 bits.
\<close>

definition ten_minutes_in_secs :: u64 where
  "ten_minutes_in_secs = 60 * 10"

record consumer_metrics =
  cm_received :: nat
  cm_duplicates :: nat
  cm_errors :: nat
  cm_processing_time :: "nat option list"
  cm_acks :: nat
  cm_nacks :: nat
  cm_deadline_extensions :: nat
  cm_tracker :: throughput_tracker
  cm_attributes :: "string \<times> string"

record ('x, 'm) gcp_message =
  gx_id :: string
  gx_decoded :: 'm
  gx_subscription_name :: string
  gx_msg :: 'x
  gx_redis_connection :: 'x
  gx_received_instant :: nat
  gx_ack_deadline_secs :: i32

record ('w, 'x, 'm) consumer_state = "'w gcp_state" +
  con_metrics :: consumer_metrics
  con_channel :: "(gcp_error + ('x, 'm) gcp_message) list"
  con_receiver_alive :: bool
  con_task_finished :: bool
  con_cancelled :: bool

subsection \<open>Metrics\<close>

definition consumer_metrics_new :: "string \<Rightarrow> u64 \<Rightarrow> consumer_metrics" where
  "consumer_metrics_new subscription_name now =
     \<lparr>cm_received = 0, cm_duplicates = 0, cm_errors = 0, cm_processing_time = [], cm_acks = 0,
      cm_nacks = 0, cm_deadline_extensions = 0, cm_tracker = tracker_new now,
      cm_attributes = (''subscription.name'', subscription_name)\<rparr>"

definition on_metrics ::
  "(consumer_metrics \<Rightarrow> consumer_metrics) \<Rightarrow> ('w, 'x, 'm, 'z) consumer_state_scheme \<Rightarrow>
     ('w, 'x, 'm, 'z) consumer_state_scheme" where
  "on_metrics f st = st\<lparr>con_metrics := f (con_metrics st)\<rparr>"

definition con_record_received :: "consumer_metrics \<Rightarrow> consumer_metrics" where
  "con_record_received m = m\<lparr>cm_received := cm_received m + 1\<rparr>"

text \<open>\<open>elapsed_ms\<close>: from the receipt to now, clamped at zero, in whole milliseconds of the clock's
  nanoseconds.\<close>

definition con_record_ack :: "nat \<Rightarrow> nat \<Rightarrow> consumer_metrics \<Rightarrow> consumer_metrics" where
  "con_record_ack now received_timestamp m =
     (let elapsed_ms = (now - received_timestamp) div 1000000;
          elapsed = (if elapsed_ms < 2 ^ 64 then Some elapsed_ms else None)
      in m\<lparr>cm_processing_time := cm_processing_time m @ [elapsed],
           cm_acks := cm_acks m + 1,
           cm_tracker := record_processed_message (cm_tracker m)\<rparr>)"

definition con_record_nack :: "consumer_metrics \<Rightarrow> consumer_metrics" where
  "con_record_nack m = m\<lparr>cm_nacks := cm_nacks m + 1\<rparr>"

definition con_record_deadline_extension :: "consumer_metrics \<Rightarrow> consumer_metrics" where
  "con_record_deadline_extension m = m\<lparr>cm_deadline_extensions := cm_deadline_extensions m + 1\<rparr>"

definition con_record_duplicate :: "consumer_metrics \<Rightarrow> consumer_metrics" where
  "con_record_duplicate m = m\<lparr>cm_duplicates := cm_duplicates m + 1\<rparr>"

definition con_record_error :: "consumer_metrics \<Rightarrow> consumer_metrics" where
  "con_record_error m = m\<lparr>cm_errors := cm_errors m + 1\<rparr>"

subsection \<open>Messages\<close>

definition redis_id_key :: "('x, 'm) gcp_message \<Rightarrow> string" where
  "redis_id_key m = ''dedup:'' @ gx_subscription_name m @ '':id:'' @ gx_id m"

definition gcp_message_decode ::
  "('w, 'x) gcp_env \<Rightarrow> 'm message_content borsh_type \<Rightarrow> string \<Rightarrow> 'x \<Rightarrow> 'x \<Rightarrow> i32 \<Rightarrow> 'w \<Rightarrow>
     gcp_error + ('x, 'm) gcp_message" where
  "gcp_message_decode G C subscription_name msg redis_connection ack_deadline_secs w =
     (let received_instant = instant_now G w
      in res_bind (ok_or MsgIdNotSet (ps_attributes (received_message G msg) ''Msg-Id'')) (\<lambda>id.
         res_bind (map_err Deserialize (from_slice C (ps_data (received_message G msg))))
           (\<lambda>message_content.
              Inr \<lparr>gx_id = id, gx_decoded = mc_data message_content,
                   gx_subscription_name = subscription_name, gx_msg = msg,
                   gx_redis_connection = redis_connection, gx_received_instant = received_instant,
                   gx_ack_deadline_secs = ack_deadline_secs\<rparr>)))"

definition is_processed ::
  "('w, 'x) gcp_env \<Rightarrow> ('x, 'm) gcp_message \<Rightarrow> (('w, 'x, 'm, 'z) consumer_state_scheme, gcp_error, bool) io" where
  "is_processed G m =
     io_map_err GenericRedis (on_world (redis_exists G (gx_redis_connection m) (redis_id_key m)))"

text \<open>\<open>ack\<close> also changes the message: \<open>Progress\<close> doubles its deadline, unless that overflows.\<close>

definition gcp_message_ack ::
  "('w, 'x) gcp_env \<Rightarrow> ack_kind \<Rightarrow> ('x, 'm) gcp_message \<Rightarrow> ('w, 'x, 'm, 'z) consumer_state_scheme \<Rightarrow>
     (gcp_error + unit) \<times> ('x, 'm) gcp_message \<times> ('w, 'x, 'm, 'z) consumer_state_scheme" where
  "gcp_message_ack G kind m st =
     (case kind of
        Ack \<Rightarrow>
          (let (r, st') =
             io_bind (io_map_err AckFailed (on_world (received_ack G (gx_msg m)))) (\<lambda>_.
             io_bind (\<lambda>st. io_do (on_metrics (con_record_ack (instant_now G (gs_world st)) (gx_received_instant m))) st) (\<lambda>_.
             io_bind (io_map_err GenericRedis (on_world
                 (redis_set_ex G (gx_redis_connection m) (redis_id_key m) ''1'' ten_minutes_in_secs)))
               (\<lambda>_. io_ok ()))) st
           in (r, m, st'))
      | Nak \<Rightarrow>
          (let (r, st') =
             io_bind (io_map_err NakFailed
                 (io_inspect_err (on_metrics con_record_error) (on_world (received_nack G (gx_msg m))))) (\<lambda>_.
             io_do (on_metrics con_record_nack)) st
           in (r, m, st'))
      | Progress \<Rightarrow>
          (let deadline =
             (case checked_smul (gx_ack_deadline_secs m) 2 of
                Some d \<Rightarrow> d | None \<Rightarrow> gx_ack_deadline_secs m);
               m' = m\<lparr>gx_ack_deadline_secs := deadline\<rparr>;
               (r, st') =
                 io_bind (io_map_err ModifyAckDeadline
                     (io_inspect_err (on_metrics con_record_error)
                        (on_world (received_modify_ack_deadline G (gx_msg m) deadline)))) (\<lambda>_.
                 io_do (on_metrics con_record_deadline_extension)) st
           in (r, m', st')))"

subsection \<open>The consumer and its read task\<close>

record 'x consumer_config =
  cc_redis_connection :: string
  cc_ack_deadline_secs :: i32
  cc_channel_capacity :: "u64 option"
  cc_worker_count :: u64

record 'x receive_task =
  rt_redis_connection :: 'x
  rt_subscription_name :: string
  rt_ack_deadline :: i32
  rt_channel_capacity :: "u64 option"
  rt_worker_count :: u64

text \<open>
  \<open>GcpConsumer::new\<close>: what is set up before the read task starts; the task itself is the
  sequence of its callbacks.
\<close>

definition gcp_consumer_new ::
  "('w, 'x) gcp_env \<Rightarrow> 'x \<Rightarrow> string \<Rightarrow> 'x consumer_config \<Rightarrow> u64 \<Rightarrow>
     (('w, 'x, 'm, 'z) consumer_state_scheme, gcp_error, 'x receive_task) io" where
  "gcp_consumer_new G client subscription_name config now =
     io_bind (get_subscription G client subscription_name) (\<lambda>subscription.
     io_bind (io_lift (map_err Connection (redis_open G (cc_redis_connection config)))) (\<lambda>redis_client.
     io_bind (io_map_err Connection (on_world (redis_get_connection G redis_client))) (\<lambda>conn.
       let full_name = subscription_full_name G client subscription
       in io_bind (io_do (\<lambda>st. st\<lparr>con_metrics := consumer_metrics_new full_name now, con_channel := [],
              con_receiver_alive := True, con_task_finished := False, con_cancelled := False\<rparr>)) (\<lambda>_.
          io_ok \<lparr>rt_redis_connection = conn, rt_subscription_name = full_name,
                 rt_ack_deadline = cc_ack_deadline_secs config,
                 rt_channel_capacity = cc_channel_capacity config,
                 rt_worker_count = cc_worker_count config\<rparr>))))"

definition gcp_connect_consumer ::
  "('w, 'x) gcp_env \<Rightarrow> string \<Rightarrow> 'x consumer_config \<Rightarrow> u64 \<Rightarrow>
     (('w, 'x, 'm, 'z) consumer_state_scheme, gcp_error, 'x receive_task) io" where
  "gcp_connect_consumer G subscription config now =
     io_bind (connect_pubsub_client G) (\<lambda>client. gcp_consumer_new G client subscription config now)"

definition forward_message ::
  "gcp_error + ('x, 'm) gcp_message \<Rightarrow> ('w, 'x, 'm, 'z) consumer_state_scheme \<Rightarrow>
     ('w, 'x, 'm, 'z) consumer_state_scheme" where
  "forward_message message_result st =
     (let st = (if isl message_result then on_metrics con_record_error st else st)
      in if con_receiver_alive st then st\<lparr>con_channel := con_channel st @ [message_result]\<rparr>
         else st\<lparr>con_cancelled := True\<rparr>)"

text \<open>The callback of the receiver, run for every message Pub/Sub delivers.\<close>

definition on_received ::
  "('w, 'x) gcp_env \<Rightarrow> 'm message_content borsh_type \<Rightarrow> 'x receive_task \<Rightarrow> 'x \<Rightarrow>
     ('w, 'x, 'm, 'z) consumer_state_scheme \<Rightarrow> ('w, 'x, 'm, 'z) consumer_state_scheme" where
  "on_received G C T received st =
     (let st = on_metrics con_record_received st
      in case gcp_message_decode G C (rt_subscription_name T) received (rt_redis_connection T)
                (rt_ack_deadline T) (gs_world st) of
           Inl err \<Rightarrow> forward_message (Inl err) st
         | Inr message \<Rightarrow>
             (case is_processed G message st of
                (Inr True, st) \<Rightarrow>
                  (let st = on_metrics con_record_duplicate st
                   in case io_map_err AckFailed (on_world (received_ack G (gx_msg message))) st of
                        (Inl err, st) \<Rightarrow> forward_message (Inl err) st
                      | (Inr _, st) \<Rightarrow> st)
              | (Inr False, st) \<Rightarrow> forward_message (Inr message) st
              | (Inl err, st) \<Rightarrow> forward_message (Inl err) st))"

definition on_received_all ::
  "('w, 'x) gcp_env \<Rightarrow> 'm message_content borsh_type \<Rightarrow> 'x receive_task \<Rightarrow> 'x list \<Rightarrow>
     ('w, 'x, 'm, 'z) consumer_state_scheme \<Rightarrow> ('w, 'x, 'm, 'z) consumer_state_scheme" where
  "on_received_all G C T received st = fold (on_received G C T) received st"

definition gcp_messages ::
  "(('w, 'x, 'm, 'z) consumer_state_scheme, gcp_error, (gcp_error + ('x, 'm) gcp_message) list) io" where
  "gcp_messages st =
     (if con_task_finished st
      then (Inl ConsumerReadTaskExited, on_metrics con_record_error st)
      else (Inr (con_channel st), st\<lparr>con_channel := []\<rparr>))"

definition gcp_consumer_check_health ::
  "(('w, 'x, 'm, 'z) consumer_state_scheme, gcp_error, unit) io" where
  "gcp_consumer_check_health st =
     (if con_task_finished st
      then (Inl ConsumerReadTaskExited, on_metrics con_record_error st)
      else (Inr (), st))"

text \<open>Dropping the consumer drops the receiver and cancels the read task.\<close>

definition gcp_consumer_drop ::
  "('w, 'x, 'm, 'z) consumer_state_scheme \<Rightarrow> ('w, 'x, 'm, 'z) consumer_state_scheme" where
  "gcp_consumer_drop st = st\<lparr>con_cancelled := True, con_receiver_alive := False\<rparr>"

subsection \<open>Facts about the state\<close>

lemma on_metrics_simps [simp]:
  "gs_world (on_metrics f st) = gs_world st" "con_channel (on_metrics f st) = con_channel st"
  "con_receiver_alive (on_metrics f st) = con_receiver_alive st"
  "con_metrics (on_metrics f st) = f (con_metrics st)"
  by (simp_all add: on_metrics_def)

lemma con_record_simps [simp]:
  "cm_received (con_record_error m) = cm_received m" "cm_duplicates (con_record_error m) = cm_duplicates m"
  "cm_errors (con_record_error m) = Suc (cm_errors m)"
  "cm_received (con_record_duplicate m) = cm_received m"
  "cm_duplicates (con_record_duplicate m) = Suc (cm_duplicates m)"
  "cm_errors (con_record_duplicate m) = cm_errors m"
  "cm_received (con_record_received m) = Suc (cm_received m)"
  "cm_duplicates (con_record_received m) = cm_duplicates m" "cm_errors (con_record_received m) = cm_errors m"
  by (simp_all add: con_record_error_def con_record_duplicate_def con_record_received_def)

lemma on_world_consumer [simp]:
  "on_world m st = (r, st') \<Longrightarrow> con_metrics st' = con_metrics st"
  "on_world m st = (r, st') \<Longrightarrow> con_channel st' = con_channel st"
  "on_world m st = (r, st') \<Longrightarrow> con_receiver_alive st' = con_receiver_alive st"
  by (auto simp: io_cases)

lemma forward_message_simps [simp]:
  "gs_world (forward_message r st) = gs_world st"
  "con_receiver_alive (forward_message r st) = con_receiver_alive st"
  "con_channel (forward_message r st) = con_channel st @ (if con_receiver_alive st then [r] else [])"
  "cm_received (con_metrics (forward_message r st)) = cm_received (con_metrics st)"
  "cm_duplicates (con_metrics (forward_message r st)) = cm_duplicates (con_metrics st)"
  "cm_errors (con_metrics (forward_message r st)) = (if isl r then Suc (cm_errors (con_metrics st)) else cm_errors (con_metrics st))"
  by (simp_all add: forward_message_def Let_def)

text \<open>
  What one callback does, whatever the services answer: it forwards one result, or it
  silently acknowledges a duplicate.
\<close>

lemma on_received_cases:
  obtains (forwarded) r d where "con_channel (on_received G C T x st) = con_channel st @ (if con_receiver_alive st then [r] else [])"
      "cm_errors (con_metrics (on_received G C T x st)) = cm_errors (con_metrics st) + (if isl r then 1 else 0)"
      "cm_duplicates (con_metrics (on_received G C T x st)) = cm_duplicates (con_metrics st) + d"
      "cm_received (con_metrics (on_received G C T x st)) = Suc (cm_received (con_metrics st))"
      "con_receiver_alive (on_received G C T x st) = con_receiver_alive st"
  | (dropped) "con_channel (on_received G C T x st) = con_channel st"
      "cm_errors (con_metrics (on_received G C T x st)) = cm_errors (con_metrics st)"
      "cm_duplicates (con_metrics (on_received G C T x st)) = Suc (cm_duplicates (con_metrics st))"
      "cm_received (con_metrics (on_received G C T x st)) = Suc (cm_received (con_metrics st))"
      "con_receiver_alive (on_received G C T x st) = con_receiver_alive st"
proof -
  let ?st = "on_metrics con_record_received st"
  show ?thesis
  proof (cases "gcp_message_decode G C (rt_subscription_name T) x (rt_redis_connection T) (rt_ack_deadline T) (gs_world st)")
    case (Inl e)
    then show ?thesis
      by (intro forwarded [of "Inl e" 0]) (simp_all add: on_received_def Let_def)
  next
    case (Inr m)
    obtain p st1 where p: "is_processed G m ?st = (p, st1)" by force
    then have st1: "con_metrics st1 = con_metrics ?st" "con_channel st1 = con_channel st"
      "con_receiver_alive st1 = con_receiver_alive st"
      by (auto simp: is_processed_def io_map_err_def split: prod.splits)
    show ?thesis
    proof (cases p)
      case (Inl e)
      with Inr p st1 show ?thesis
        by (intro forwarded [of "Inl e" 0]) (simp_all add: on_received_def Let_def)
    next
      case (Inr b)
      note dup = Inr
      show ?thesis
      proof (cases b)
        case False
        with Inr \<open>gcp_message_decode _ _ _ _ _ _ _ = Inr m\<close> p st1 show ?thesis
          by (intro forwarded [of "Inr m" 0]) (simp_all add: on_received_def Let_def)
      next
        case True
        obtain a st2 where a: "io_map_err AckFailed (on_world (received_ack G (gx_msg m))) (on_metrics con_record_duplicate st1) = (a, st2)"
          by force
        then have st2: "con_metrics st2 = con_record_duplicate (con_metrics st1)" "con_channel st2 = con_channel st1"
          "con_receiver_alive st2 = con_receiver_alive st1"
          by (auto simp: io_map_err_def split: prod.splits)
        show ?thesis
        proof (cases a)
          case (Inl e)
          with True dup \<open>gcp_message_decode _ _ _ _ _ _ _ = Inr m\<close> p st1 a st2 show ?thesis
            by (intro forwarded [of "Inl e" 1]) (simp_all add: on_received_def Let_def)
        next
          case (Inr u)
          with True dup \<open>gcp_message_decode _ _ _ _ _ _ _ = Inr m\<close> p st1 a st2 show ?thesis
            by (intro dropped) (simp_all add: on_received_def Let_def)
        qed
      qed
    qed
  qed
qed

text \<open>The books of a consumer whose channel has not been read yet.\<close>

definition books_ok :: "('w, 'x, 'm, 'z) consumer_state_scheme \<Rightarrow> bool" where
  "books_ok st \<longleftrightarrow>
     con_receiver_alive st \<and>
     cm_errors (con_metrics st) = length (filter isl (con_channel st)) \<and>
     length (con_channel st) \<le> cm_received (con_metrics st) \<and>
     cm_received (con_metrics st) \<le> length (con_channel st) + cm_duplicates (con_metrics st)"

lemma books_ok_on_received: "books_ok st \<Longrightarrow> books_ok (on_received G C T x st)"
  by (cases rule: on_received_cases [of G C T x st]) (auto simp: books_ok_def)

lemma books_ok_on_received_all: "books_ok st \<Longrightarrow> books_ok (on_received_all G C T xs st)"
  by (induction xs arbitrary: st) (auto simp: on_received_all_def books_ok_on_received)

lemma cm_received_on_received_all:
  "cm_received (con_metrics (on_received_all G C T xs st)) = cm_received (con_metrics st) + length xs"
proof (induction xs arbitrary: st)
  case (Cons x xs)
  have "cm_received (con_metrics (on_received G C T x st)) = Suc (cm_received (con_metrics st))"
    by (cases rule: on_received_cases [of G C T x st]) auto
  with Cons.IH [of "on_received G C T x st"] show ?case
    by (simp add: on_received_all_def)
qed (simp add: on_received_all_def)

subsection \<open>What is relied on of Redis and Pub/Sub\<close>

text \<open>\<open>sv_live\<close>: the keys that exist and have not expired; \<open>sv_answered\<close>: the answers Pub/Sub has
  accepted for a message.\<close>

record ('w, 'x) services_view =
  sv_live :: "'w \<Rightarrow> string set"
  sv_answered :: "'x \<Rightarrow> ack_kind \<Rightarrow> 'w \<Rightarrow> bool"

definition dedup_ok :: "('w, 'x) gcp_env \<Rightarrow> ('w, 'x) services_view \<Rightarrow> bool" where
  "dedup_ok G V \<longleftrightarrow>
     (\<forall>c k v t w r w'. redis_set_ex G c k v t w = (Inr r, w') \<longrightarrow> k \<in> sv_live V w') \<and>
     (\<forall>c k w b w'. redis_exists G c k w = (Inr b, w') \<longrightarrow> (b \<longleftrightarrow> k \<in> sv_live V w)) \<and>
     (\<forall>c k w. sv_live V w \<subseteq> sv_live V (snd (redis_exists G c k w))) \<and>
     (\<forall>x w. sv_live V w \<subseteq> sv_live V (snd (received_ack G x w)))"

definition answers_ok :: "('w, 'x) gcp_env \<Rightarrow> ('w, 'x) services_view \<Rightarrow> bool" where
  "answers_ok G V \<longleftrightarrow>
     (\<forall>x w w'. received_ack G x w = (Inr (), w') \<longrightarrow> sv_answered V x Ack w') \<and>
     (\<forall>x w w'. received_nack G x w = (Inr (), w') \<longrightarrow> sv_answered V x Nak w') \<and>
     (\<forall>x d w w'. received_modify_ack_deadline G x d w = (Inr (), w') \<longrightarrow> sv_answered V x Progress w') \<and>
     (\<forall>c k v t w x. sv_answered V x Ack w \<longrightarrow> sv_answered V x Ack (snd (redis_set_ex G c k v t w)))"

subsection \<open>Acknowledgement\<close>

text \<open>Everything \<open>ack(Ack)\<close> can do.\<close>

lemma gcp_ack_cases:
  assumes "gcp_message_ack G Ack m st = (r, m', st')"
  obtains (refused) e w1 where "received_ack G (gx_msg m) (gs_world st) = (Inl e, w1)"
      "r = Inl (AckFailed e)" "m' = m" "st' = st\<lparr>gs_world := w1\<rparr>"
  | (unrecorded) e w1 w2 where "received_ack G (gx_msg m) (gs_world st) = (Inr (), w1)"
      "redis_set_ex G (gx_redis_connection m) (redis_id_key m) ''1'' ten_minutes_in_secs w1 = (Inl e, w2)"
      "r = Inl (GenericRedis e)" "m' = m" "gs_world st' = w2"
  | (acked) s w1 w2 where "received_ack G (gx_msg m) (gs_world st) = (Inr (), w1)"
      "redis_set_ex G (gx_redis_connection m) (redis_id_key m) ''1'' ten_minutes_in_secs w1 = (Inr s, w2)"
      "r = Inr ()" "m' = m" "gs_world st' = w2"
proof -
  obtain a w1 where a: "received_ack G (gx_msg m) (gs_world st) = (a, w1)" by force
  note unfold = gcp_message_ack_def ack_kind.case io_bind_def io_map_err_def on_world_def Let_def
  show ?thesis
  proof (cases a)
    case (Inl e)
    have "r = Inl (AckFailed e) \<and> m' = m \<and> st' = st\<lparr>gs_world := w1\<rparr>"
      using assms a unfolding unfold Inl by simp
    with a Inl show ?thesis by (intro refused) simp_all
  next
    case (Inr u)
    obtain s w2 where s: "redis_set_ex G (gx_redis_connection m) (redis_id_key m) ''1'' ten_minutes_in_secs w1 = (s, w2)"
      by force
    show ?thesis
    proof (cases s)
      case (Inl e)
      have "r = Inl (GenericRedis e) \<and> m' = m \<and> gs_world st' = w2"
        using assms a s unfolding unfold \<open>a = Inr u\<close> Inl by (auto simp: io_do_def)
      with a \<open>a = Inr u\<close> s Inl show ?thesis by (intro unrecorded) simp_all
    next
      case (Inr v)
      have "r = Inr () \<and> m' = m \<and> gs_world st' = w2"
        using assms a s unfolding unfold \<open>a = Inr u\<close> Inr by (auto simp: io_do_def io_ok_def)
      with a \<open>a = Inr u\<close> s Inr show ?thesis by (intro acked) simp_all
    qed
  qed
qed

lemma gcp_ack_answered:
  assumes "answers_ok G V" "gcp_message_ack G k m st = (Inr (), m', st')"
  shows "sv_answered V (gx_msg m) k (gs_world st')"
proof (cases k)
  case Ack
  with assms(2) have "gcp_message_ack G Ack m st = (Inr (), m', st')" by simp
  then show ?thesis
  proof (cases rule: gcp_ack_cases)
    case (acked s w1 w2)
    with assms(1) have "sv_answered V (gx_msg m) Ack w1" by (auto simp: answers_ok_def)
    with acked assms(1) show ?thesis
      unfolding Ack answers_ok_def by (metis snd_conv)
  qed simp_all
next
  case Nak
  with assms show ?thesis
    by (auto simp: gcp_message_ack_def answers_ok_def io_cases split: prod.splits)
next
  case Progress
  with assms show ?thesis
    by (auto simp: gcp_message_ack_def answers_ok_def io_cases Let_def split: prod.splits)
qed

lemma gcp_ack_message:
  "gcp_message_ack G k m st = (r, m', st') \<Longrightarrow>
     gx_decoded m' = gx_decoded m \<and> gx_id m' = gx_id m \<and> gx_subscription_name m' = gx_subscription_name m"
  by (cases k) (auto simp: gcp_message_ack_def Let_def split: prod.splits)

record ('w, 'x) gcp_ack_client =
  ga_env :: "('w, 'x) gcp_env"
  ga_view :: "('w, 'x) services_view"

interpretation gcp_msg: queue_message "\<lambda>A. answers_ok (ga_env A) (ga_view A)" gx_decoded
  "\<lambda>A st m k. sv_answered (ga_view A) (gx_msg m) k (gs_world st)" "\<lambda>A. gcp_message_ack (ga_env A)"
proof (unfold_locales, goal_cases)
  case (1 A k m st m' st')
  then show ?case by (rule gcp_ack_answered)
next
  case (2 A k m st r m' st')
  then show ?case using gcp_ack_message by blast
qed

subsection \<open>Deduplication\<close>

lemma on_received_live:
  assumes "dedup_ok G V" "k \<in> sv_live V (gs_world st)"
  shows "k \<in> sv_live V (gs_world (on_received G C T x st))"
proof (cases "gcp_message_decode G C (rt_subscription_name T) x (rt_redis_connection T) (rt_ack_deadline T) (gs_world st)")
  case (Inl e)
  with assms(2) show ?thesis by (simp add: on_received_def Let_def)
next
  case (Inr m)
  obtain p w1 where p: "redis_exists G (gx_redis_connection m) (redis_id_key m) (gs_world st) = (p, w1)" by force
  with assms have k1: "k \<in> sv_live V w1"
    unfolding dedup_ok_def by (metis snd_conv subsetD)
  obtain a w2 where a: "received_ack G (gx_msg m) w1 = (a, w2)" by force
  with assms(1) k1 have k2: "k \<in> sv_live V w2"
    unfolding dedup_ok_def by (metis snd_conv subsetD)
  show ?thesis
    using Inr p a k1 k2
    by (cases p; cases a) (simp_all add: on_received_def Let_def is_processed_def io_map_err_def on_world_def
        on_metrics_def split: bool.split)
qed

lemma on_received_all_live:
  "dedup_ok G V \<Longrightarrow> k \<in> sv_live V (gs_world st) \<Longrightarrow> k \<in> sv_live V (gs_world (on_received_all G C T xs st))"
  by (induction xs arbitrary: st) (auto simp: on_received_all_def on_received_live)

definition delivered :: "('w, 'x, 'm, 'z) consumer_state_scheme \<Rightarrow> (gcp_error + ('x, 'm) gcp_message) list" where
  "delivered st = filter (\<lambda>r. \<not> isl r) (con_channel st)"

lemma decoded_key:
  assumes "gcp_message_decode G C sub x conn d w = Inr m"
    and "ps_attributes (received_message G x) ''Msg-Id'' = Some i"
  shows "redis_id_key m = ''dedup:'' @ sub @ '':id:'' @ i"
  using assms by (auto simp: gcp_message_decode_def redis_id_key_def Let_def res_bind_eq_Inr)

lemma on_received_duplicate:
  assumes ok: "dedup_ok G V"
    and live: "''dedup:'' @ rt_subscription_name T @ '':id:'' @ i \<in> sv_live V (gs_world st)"
    and id: "ps_attributes (received_message G x) ''Msg-Id'' = Some i"
  shows "delivered (on_received G C T x st) = delivered st"
proof (cases "gcp_message_decode G C (rt_subscription_name T) x (rt_redis_connection T) (rt_ack_deadline T) (gs_world st)")
  case (Inl e)
  then show ?thesis by (simp add: on_received_def Let_def delivered_def)
next
  case (Inr m)
  obtain p w1 where p: "redis_exists G (gx_redis_connection m) (redis_id_key m) (gs_world st) = (p, w1)" by force
  have "p \<noteq> Inr False"
    using ok live p unfolding dedup_ok_def decoded_key [OF Inr id] by blast
  then have dup: "p = Inr True \<or> (\<exists>e. p = Inl e)"
    by (cases p) auto
  obtain a w2 where a: "received_ack G (gx_msg m) w1 = (a, w2)" by force
  show ?thesis
    using Inr p a dup
    by (cases a) (auto simp: on_received_def Let_def is_processed_def io_map_err_def on_world_def
        on_metrics_def delivered_def forward_message_def)
qed

lemma acked_key_live:
  assumes "dedup_ok G V" "gcp_message_ack G Ack m st = (Inr (), m', st1)"
  shows "redis_id_key m \<in> sv_live V (gs_world st1)"
  using assms(2)
proof (cases rule: gcp_ack_cases)
  case (acked s w1 w2)
  with assms(1) show ?thesis unfolding dedup_ok_def by blast
qed simp_all

subsection \<open>A consumer in memory\<close>

definition memory_services_view :: "(memory_services, nat) services_view" where
  "memory_services_view =
     \<lparr>sv_live = (\<lambda>w. dom (mg_keys w)), sv_answered = (\<lambda>x k w. (x, k) \<in> set (mg_answers w))\<rparr>"

definition memory_content :: "bytes message_content borsh_type" where
  "memory_content = \<lparr>to_vec = (\<lambda>m. Inr (mc_data m)), from_slice = (\<lambda>bs. Inr (message_content_new bs))\<rparr>"

definition memory_task :: "nat receive_task" where
  "memory_task = \<lparr>rt_redis_connection = 0, rt_subscription_name = ''sub'', rt_ack_deadline = 30,
     rt_channel_capacity = None, rt_worker_count = 1\<rparr>"

definition memory_consumer_state :: "(memory_services, nat, bytes) consumer_state" where
  "memory_consumer_state =
     \<lparr>gs_world = memory_services_start, con_metrics = consumer_metrics_new ''sub'' 0, con_channel = [],
      con_receiver_alive = True, con_task_finished = False, con_cancelled = False\<rparr>"

definition memory_received :: "i32 \<Rightarrow> (nat, bytes) gcp_message" where
  "memory_received d =
     \<lparr>gx_id = dec_nat 7, gx_decoded = [7], gx_subscription_name = ''sub'', gx_msg = 7,
      gx_redis_connection = 0, gx_received_instant = 0, gx_ack_deadline_secs = d\<rparr>"

lemma memory_dedup_ok: "dedup_ok memory_gcp memory_services_view"
  by (auto simp: dedup_ok_def memory_gcp_def memory_services_view_def io_do_def)

lemma memory_answers_ok: "answers_ok memory_gcp memory_services_view"
  by (auto simp: answers_ok_def memory_gcp_def memory_services_view_def io_do_def)

subsection \<open>Properties\<close>



text \<open>C18: A message acknowledged successfully is not delivered a second time: while its
  deduplication key lives in Redis, a redelivery with the same \<open>Msg-Id\<close> on the same
  subscription puts no message into the channel, whatever other messages came in between.\<close>

theorem acked_message_not_delivered_again:
  assumes "dedup_ok G V"
    and "gcp_message_ack G Ack m st = (Inr (), m', st1)"
    and "rt_subscription_name T = gx_subscription_name m"
    and "ps_attributes (received_message G x) ''Msg-Id'' = Some (gx_id m)"
  shows "delivered (on_received G C T x (on_received_all G C T others st1)) =
    delivered (on_received_all G C T others st1)"
proof (rule on_received_duplicate [OF assms(1) _ assms(4)])
  from on_received_all_live [OF assms(1) acked_key_live [OF assms(1,2)]]
  show "''dedup:'' @ rt_subscription_name T @ '':id:'' @ gx_id m \<in>
      sv_live V (gs_world (on_received_all G C T others st1))"
    by (simp add: redis_id_key_def assms(3))
qed

theorem acked_message_not_delivered_again_witness:
  "\<exists>st1. fst (gcp_message_ack memory_gcp Ack (memory_received 30) memory_consumer_state) = Inr () \<and>
     snd (snd (gcp_message_ack memory_gcp Ack (memory_received 30) memory_consumer_state)) = st1 \<and>
     delivered (on_received memory_gcp memory_content memory_task 7
       (on_received_all memory_gcp memory_content memory_task [3, 4] st1)) =
     delivered (on_received_all memory_gcp memory_content memory_task [3, 4] st1)"
proof -
  obtain r m' st1 where run: "gcp_message_ack memory_gcp Ack (memory_received 30) memory_consumer_state = (r, m', st1)"
    by (metis prod_cases3)
  have r: "r = Inr ()"
    using run by (auto simp: gcp_message_ack_def memory_gcp_def io_bind_def io_map_err_def on_world_def io_do_def io_ok_def)
  have "rt_subscription_name memory_task = gx_subscription_name (memory_received 30)"
    "ps_attributes (received_message memory_gcp 7) ''Msg-Id'' = Some (gx_id (memory_received 30))"
    by (simp_all add: memory_task_def memory_received_def memory_gcp_def)
  from acked_message_not_delivered_again [OF memory_dedup_ok run [unfolded r] this, of memory_content "[3, 4]"]
  show ?thesis using run r by simp
qed

text \<open>C19: when Redis fails after Pub/Sub has accepted the acknowledgement, \<open>ack\<close> returns an
  error although the message is acknowledged; conversely a success means that the answer, of
  whichever kind, has been accepted.\<close>

theorem gcp_ack_outcome:
  assumes "answers_ok G V"
    and "gcp_message_ack G k m st = (r, m', st')"
    and "case r of Inr _ \<Rightarrow> True | Inl (GenericRedis _) \<Rightarrow> k = Ack | Inl _ \<Rightarrow> False"
  shows "sv_answered V (gx_msg m) k (gs_world st')"
proof (cases r)
  case (Inr u)
  with assms(2) gcp_msg.ack_settles [of "\<lparr>ga_env = G, ga_view = V\<rparr>" k m st m' st'] assms(1)
  show ?thesis by simp
next
  case (Inl e)
  with assms(3) obtain e' where e: "k = Ack" "r = Inl (GenericRedis e')" by (auto split: gcp_error.splits)
  with assms(2) have "gcp_message_ack G Ack m st = (r, m', st')" by simp
  then show ?thesis
  proof (cases rule: gcp_ack_cases)
    case (unrecorded e2 w1 w2)
    with assms(1) have "sv_answered V (gx_msg m) Ack w1" by (auto simp: answers_ok_def)
    with unrecorded assms(1) e(1) show ?thesis
      unfolding answers_ok_def by (metis snd_conv)
  qed (use e in simp_all)
qed

definition redis_down :: "(memory_services, nat) gcp_env" where
  "redis_down = memory_gcp\<lparr>redis_set_ex := (\<lambda>conn k v secs w. (Inl (ExtError ''connection lost''), w))\<rparr>"

theorem gcp_ack_outcome_witness:
  "\<exists>m' st'. gcp_message_ack redis_down Ack (memory_received 30) memory_consumer_state =
       (Inl (GenericRedis (ExtError ''connection lost'')), m', st') \<and>
     sv_answered memory_services_view 7 Ack (gs_world st')"
proof -
  have ok: "answers_ok redis_down memory_services_view"
    using memory_answers_ok by (simp add: answers_ok_def redis_down_def)
  obtain r m' st' where run: "gcp_message_ack redis_down Ack (memory_received 30) memory_consumer_state = (r, m', st')"
    by (metis prod_cases3)
  then have r: "r = Inl (GenericRedis (ExtError ''connection lost''))"
    by (auto simp: gcp_message_ack_def redis_down_def memory_gcp_def io_bind_def io_map_err_def on_world_def
        io_do_def io_ok_def)
  then have "sv_answered memory_services_view (gx_msg (memory_received 30)) Ack (gs_world st')"
    by (intro gcp_ack_outcome [OF ok run]) simp
  then show ?thesis using run r by (auto simp: memory_received_def)
qed

text \<open>\<open>Progress\<close> never shortens the deadline of a message: it doubles it exactly when the
  double fits a signed 32-bit integer, and keeps it otherwise.\<close>

theorem progress_deadline:
  "sint (gx_ack_deadline_secs (fst (snd (gcp_message_ack G Progress m st)))) =
     (let d = sint (gx_ack_deadline_secs m)
      in if - (2 ^ 31) \<le> 2 * d \<and> 2 * d < 2 ^ 31 then 2 * d else d)"
proof -
  let ?d = "gx_ack_deadline_secs m"
  have "sint (2 :: i32) = 2" by simp
  then have "checked_smul ?d 2 = (if - (2 ^ 31) \<le> 2 * sint ?d \<and> 2 * sint ?d < 2 ^ 31 then Some (?d * 2) else None)"
    by (simp add: checked_smul_def mult.commute)
  moreover have "sint (?d * 2) = 2 * sint ?d" if "checked_smul ?d 2 = Some (?d * 2)"
    using checked_smul_Some [OF that] by (simp add: mult.commute)
  ultimately show ?thesis
    by (auto simp: gcp_message_ack_def Let_def split: prod.split)
qed

end
