(* ===== verification/Ingester.thy ===== *)
theory Ingester
  imports Service_Base Gcp_Consumer "HOL-Library.Multiset"
begin

text \<open>
  The amplifier ingester (crate \<open>amplifier-ingester\<close>): it takes events off the event queue,
  posts each of them to the Amplifier API and answers the queue: \<open>Ack\<close> when the API accepted
  the request, \<open>Nak\<close> otherwise.

  The consumer and its messages are used through their traits, as records of operations.
  \<open>for_each_concurrent\<close> interleaves the processing of up to \<open>limit\<close> messages (0: no limit):
  the step relation \<open>ingest_step\<close> starts a message, performs its request and performs its
  answer as separate steps, in any order the limit allows.
\<close>

subsection \<open>Configuration\<close>

record ('u, 'i) ingester_config =
  igc_amplifier :: "('u, 'i) amplifier_config"
  igc_tickrate :: duration
  igc_telemetry :: "telemetry_config option"
  igc_max_errors :: u32
  igc_concurrent_queue_items :: u64

definition validate_ingester_config :: "('u, 'i) ingester_config \<Rightarrow> string + unit" where
  "validate_ingester_config c = validate_chain (igc_amplifier c)"

record 'k ingester_gcp_section =
  igg_kms :: 'k
  igg_redis_connection :: string
  igg_events_subscription :: string
  igg_ack_deadline_secs :: i32
  igg_channel_capacity :: "u64 option"
  igg_worker_count :: u64

definition validate_ingester_gcp_section ::
  "('k \<Rightarrow> string + unit) \<Rightarrow> 'k ingester_gcp_section \<Rightarrow> string + unit" where
  "validate_ingester_gcp_section validate_kms c =
     res_bind (validate_kms (igg_kms c)) (\<lambda>_.
     res_bind (ensure (igg_redis_connection c \<noteq> []) ''gcp redis_connection should be set'') (\<lambda>_.
     res_bind (ensure (igg_events_subscription c \<noteq> []) ''gcp events_subscription should be set'') (\<lambda>_.
     res_bind (ensure (sint (igg_ack_deadline_secs c) > 0) ''gcp nak_deadline_secs should be positive set'')
       (\<lambda>_. Inr ()))))"

subsection \<open>The ingester\<close>

record ('u, 'c) ingester =
  ig_client :: "('u, 'c) amplifier_api_client"
  ig_concurrent_queue_items :: u64
  ig_chain :: string

record ('m, 'q, 'e) event_consumer =
  ec_messages :: "('q, 'e, ('e + 'm) list) io"
  ec_check_health :: "('q, 'e, unit) io"
  ec_decoded :: "'m \<Rightarrow> event"
  ec_ack :: "ack_kind \<Rightarrow> 'm \<Rightarrow> 'q \<Rightarrow> ('e + unit) \<times> 'm \<times> 'q"

definition ingester_new ::
  "('u, 'c) amplifier_api_client \<Rightarrow> u64 \<Rightarrow> string \<Rightarrow> ('u, 'c) ingester \<times> simple_metrics" where
  "ingester_new amplifier_client concurrent_queue_items chain =
     (\<lparr>ig_client = amplifier_client, ig_concurrent_queue_items = concurrent_queue_items, ig_chain = chain\<rparr>,
      simple_metrics_new ''amplifier-ingester'' [])"

datatype 'e ingest_error =
    NoMessages 'e
  | BuildFailed amplifier_api_error
  | SendFailed amplifier_api_error
  | ApiFailed amplifier_api_error
  | ApiRefused error_response
  | QueueUnhealthy 'e
  | ApiUnhealthy amplifier_api_error

text \<open>The request of \<open>process_queue_msg\<close>: one event, whatever results the API lists for it.\<close>

definition post_event ::
  "('w, 'u, 'c, 'x, 'i, 't) http_env \<Rightarrow> ('u, 'c) ingester \<Rightarrow> event \<Rightarrow>
     (('q, 'w) service_state, 'e ingest_error, unit) io" where
  "post_event E I event =
     (let payload = \<lparr>pr_events = [event]\<rparr>;
          request = post_events_request E
            \<lparr>pe_chain = with_trailing_slash_new (ig_chain I), pe_payload = payload\<rparr>
      in io_bind (io_lift (map_err BuildFailed (build_request (ig_client I) request))) (\<lambda>request.
         io_bind (io_map_err SendFailed (on_http (execute E request))) (\<lambda>response.
         io_bind (io_map_err ApiFailed
             (on_http (response_json E (json_events_result E) (json_error_response E) response))) (\<lambda>result.
         io_bind (io_lift (map_err ApiRefused result)) (\<lambda>_. io_ok ())))))"

text \<open>The answer to the queue; a failed acknowledgement is counted and otherwise ignored.\<close>

definition send_ack ::
  "('m, 'q, 'e) event_consumer \<Rightarrow> ack_kind \<Rightarrow> 'm \<Rightarrow> ('q, 'w) service_state \<Rightarrow> ('q, 'w) service_state" where
  "send_ack C kind m st =
     (let (r, m', q) = ec_ack C kind m (ss_queue st); st = st\<lparr>ss_queue := q\<rparr>
      in if isl r then service_record_error st else st)"

definition answer_msg ::
  "('m, 'q, 'e) event_consumer \<Rightarrow> 'e ingest_error + unit \<Rightarrow> 'm \<Rightarrow> ('q, 'w) service_state \<Rightarrow>
     ('q, 'w) service_state" where
  "answer_msg C result m st =
     (case result of
        Inr _ \<Rightarrow> send_ack C Ack m st
      | Inl err \<Rightarrow> send_ack C Nak m (service_record_error st))"

definition process_queue_msg ::
  "('w, 'u, 'c, 'x, 'i, 't) http_env \<Rightarrow> ('u, 'c) ingester \<Rightarrow> ('m, 'q, 'e) event_consumer \<Rightarrow> 'm \<Rightarrow>
     ('q, 'w) service_state \<Rightarrow> ('q, 'w) service_state" where
  "process_queue_msg E I C m st =
     (let (result, st) = post_event E I (ec_decoded C m) st in answer_msg C result m st)"

text \<open>One item of the stream.\<close>

definition process_item ::
  "('w, 'u, 'c, 'x, 'i, 't) http_env \<Rightarrow> ('u, 'c) ingester \<Rightarrow> ('m, 'q, 'e) event_consumer \<Rightarrow> 'e + 'm \<Rightarrow>
     ('q, 'w) service_state \<Rightarrow> ('q, 'w) service_state" where
  "process_item E I C item st =
     (case item of
        Inr m \<Rightarrow> process_queue_msg E I C m st
      | Inl err \<Rightarrow> service_record_error st)"

text \<open>\<open>ingest\<close> with the items processed one after the other.\<close>

definition ingest ::
  "('w, 'u, 'c, 'x, 'i, 't) http_env \<Rightarrow> ('u, 'c) ingester \<Rightarrow> ('m, 'q, 'e) event_consumer \<Rightarrow>
     (('q, 'w) service_state, 'e ingest_error, unit) io" where
  "ingest E I C =
     io_bind (io_inspect_err service_record_error (io_map_err NoMessages (on_queue (ec_messages C)))) (\<lambda>items.
       io_do (fold (process_item E I C) items))"

definition ingester_check_health ::
  "('w, 'u, 'c, 'x, 'i, 't) http_env \<Rightarrow> ('u, 'c) ingester \<Rightarrow> ('m, 'q, 'e) event_consumer \<Rightarrow>
     (('q, 'w) service_state, 'e ingest_error, unit) io" where
  "ingester_check_health E I C =
     io_bind (io_map_err QueueUnhealthy (on_queue (ec_check_health C))) (\<lambda>_.
     io_bind (io_lift (map_err BuildFailed (build_request (ig_client I) (health_check_request E)))) (\<lambda>request.
     io_bind (io_map_err ApiUnhealthy (on_http (execute E request))) (\<lambda>_. io_ok ())))"

definition ingester_do_work ::
  "('w, 'u, 'c, 'x, 'i, 't) http_env \<Rightarrow> ('u, 'c) ingester \<Rightarrow> ('m, 'q, 'e) event_consumer \<Rightarrow>
     (('q, 'w) service_state, 'e ingest_error, unit) io" where
  "ingester_do_work E I C = ingest E I C"

subsection \<open>Construction\<close>

definition new_amplifier_ingester_gcp ::
  "'f config_env \<Rightarrow> ('f \<Rightarrow> ext_error + ('u, 'i) ingester_config) \<Rightarrow>
     ('f \<Rightarrow> ext_error + 'k ingester_gcp_section) \<Rightarrow> ('w, 'x) gcp_env \<Rightarrow> ('w, 'x, 'k, 't) kms_env \<Rightarrow>
     ('h, 'u, 'c, 'y, 'i, 't) http_env \<Rightarrow> u64 \<Rightarrow> string \<Rightarrow>
     (('w, 'x, 'm, 'z) consumer_state_scheme, startup_error,
      'x receive_task \<times> ('u, 'c) ingester \<times> simple_metrics) io" where
  "new_amplifier_ingester_gcp F d_config d_section G K E now config_path =
     io_bind (io_lift (map_err BadConfig
         (try_deserialize F d_config validate_ingester_config config_path))) (\<lambda>config.
     io_bind (io_lift (map_err BadConfig
         (try_deserialize F d_section (validate_ingester_gcp_section (kms_validate K)) config_path))) (\<lambda>infra.
     io_bind (io_map_err GcpConnect (gcp_connect_consumer G (igg_events_subscription infra)
         \<lparr>cc_redis_connection = igg_redis_connection infra,
          cc_ack_deadline_secs = igg_ack_deadline_secs infra,
          cc_channel_capacity = igg_channel_capacity infra,
          cc_worker_count = igg_worker_count infra\<rparr> now)) (\<lambda>event_queue_consumer.
     io_bind (gcp_amplifier_client K E (igc_amplifier config) (igg_kms infra)) (\<lambda>amplifier_client.
       io_ok (event_queue_consumer, ingester_new amplifier_client (igc_concurrent_queue_items config)
         (am_chain (igc_amplifier config)))))))"

definition new_amplifier_ingester_nats ::
  "'f config_env \<Rightarrow> ('f \<Rightarrow> ext_error + ('u, 'i) ingester_config) \<Rightarrow>
     ('f \<Rightarrow> ext_error + nats_section) \<Rightarrow> ('w, 'x) nats_env \<Rightarrow> ('h, 'u, 'c, 'y, 'i, 't) http_env \<Rightarrow> string \<Rightarrow>
     ('w, startup_error, 'x nats_consumer \<times> ('u, 'c) ingester \<times> simple_metrics) io" where
  "new_amplifier_ingester_nats F d_config d_section N E config_path =
     io_bind (io_lift (map_err BadConfig
         (try_deserialize F d_config validate_ingester_config config_path))) (\<lambda>config.
     io_bind (io_lift (map_err BadConfig
         (try_deserialize F d_section validate_nats_section config_path))) (\<lambda>section.
     io_bind (io_lift (nats_amplifier_client E (igc_amplifier config))) (\<lambda>amplifier_client.
     io_bind (io_map_err NatsConnect (nats_connect_consumer N (ns_urls section)
         \<lparr>sa_name = events_stream, sa_subject = events_publish_subject,
          sa_description = ''amplifier events for amplifier ingester to include in axelar network''\<rparr>
         ''amplifier ingesters consume group for amplifier events'' events_consume_group)) (\<lambda>event_queue_consumer.
       io_ok (event_queue_consumer, ingester_new amplifier_client (igc_concurrent_queue_items config)
         (am_chain (igc_amplifier config)))))))"

subsection \<open>Concurrent processing\<close>

text \<open>
  A run: the items not taken yet, the messages in flight (with the outcome of the request once
  it is there), and the messages answered, with the outcome, the answer and whether the queue
  accepted it; \<open>ir_failed\<close> counts the items that were receive errors.
\<close>

record ('m, 'q, 'w, 'e) ingest_run =
  ir_state :: "('q, 'w) service_state"
  ir_waiting :: "('e + 'm) list"
  ir_active :: "('m \<times> ('e ingest_error + unit) option) list"
  ir_answered :: "('m \<times> ('e ingest_error + unit) \<times> bool) list"
  ir_failed :: nat

definition ack_accepted :: "('m, 'q, 'e) event_consumer \<Rightarrow> 'e ingest_error + unit \<Rightarrow> 'm \<Rightarrow> 'q \<Rightarrow> bool" where
  "ack_accepted C result m q =
     (\<not> isl (fst (ec_ack C (if isl result then Nak else Ack) m q)))"

inductive ingest_step ::
  "('w, 'u, 'c, 'x, 'i, 't) http_env \<Rightarrow> ('u, 'c) ingester \<Rightarrow> ('m, 'q, 'e) event_consumer \<Rightarrow>
     ('m, 'q, 'w, 'e) ingest_run \<Rightarrow> ('m, 'q, 'w, 'e) ingest_run \<Rightarrow> bool"
  for E I C where
  start:
    "ir_waiting r = Inr m # rest \<Longrightarrow>
     unat (ig_concurrent_queue_items I) = 0 \<or> length (ir_active r) < unat (ig_concurrent_queue_items I) \<Longrightarrow>
     ingest_step E I C r (r\<lparr>ir_waiting := rest, ir_active := ir_active r @ [(m, None)]\<rparr>)"
| receive_error:
    "ir_waiting r = Inl err # rest \<Longrightarrow>
     unat (ig_concurrent_queue_items I) = 0 \<or> length (ir_active r) < unat (ig_concurrent_queue_items I) \<Longrightarrow>
     ingest_step E I C r (r\<lparr>ir_waiting := rest, ir_state := service_record_error (ir_state r),
       ir_failed := Suc (ir_failed r)\<rparr>)"
| request:
    "ir_active r = before @ (m, None) # after \<Longrightarrow>
     post_event E I (ec_decoded C m) (ir_state r) = (result, st) \<Longrightarrow>
     ingest_step E I C r (r\<lparr>ir_state := st, ir_active := before @ (m, Some result) # after\<rparr>)"
| answer:
    "ir_active r = before @ (m, Some result) # after \<Longrightarrow>
     ingest_step E I C r (r\<lparr>ir_state := answer_msg C result m (ir_state r), ir_active := before @ after,
       ir_answered := (m, result, ack_accepted C result m (ss_queue (ir_state r))) # ir_answered r\<rparr>)"

inductive ingest_steps ::
  "('w, 'u, 'c, 'x, 'i, 't) http_env \<Rightarrow> ('u, 'c) ingester \<Rightarrow> ('m, 'q, 'e) event_consumer \<Rightarrow> nat \<Rightarrow>
     ('m, 'q, 'w, 'e) ingest_run \<Rightarrow> ('m, 'q, 'w, 'e) ingest_run \<Rightarrow> bool"
  for E I C where
  none: "ingest_steps E I C 0 r r"
| more: "ingest_steps E I C n r s \<Longrightarrow> ingest_step E I C s t \<Longrightarrow> ingest_steps E I C (Suc n) r t"

definition ingest_run_start :: "('e + 'm) list \<Rightarrow> ('q, 'w) service_state \<Rightarrow> ('m, 'q, 'w, 'e) ingest_run" where
  "ingest_run_start items st =
     \<lparr>ir_state = st, ir_waiting = items, ir_active = [], ir_answered = [], ir_failed = 0\<rparr>"

inductive_cases ingest_stepE: "ingest_step E I C r s"

subsection \<open>Requests and answers\<close>

lemma post_event_metrics:
  "post_event E I ev st = (r, st') \<Longrightarrow> ss_metrics st' = ss_metrics st \<and> ss_queue st' = ss_queue st"
  by (auto simp: post_event_def io_bind_def io_map_err_def on_http_def io_lift_def io_ok_def Let_def
      split: prod.splits sum.splits)

text \<open>The API accepted the request: the status was 2xx and the body parsed, whatever it says.\<close>

lemma post_event_ok:
  assumes "post_event E I ev st = (Inr (), st')"
  obtains request resp w1 v w2 where
    "build_request (ig_client I) (post_events_request E
       \<lparr>pe_chain = with_trailing_slash_new (ig_chain I), pe_payload = \<lparr>pr_events = [ev]\<rparr>\<rparr>) = Inr request"
    "http_execute E request (ss_http st) = (Inr resp, w1)"
    "response_json E (json_events_result E) (json_error_response E) resp w1 = (Inr (Inr v), w2)"
  using assms by (auto simp: post_event_def io_cases execute_def Let_def)

lemma send_ack_errors:
  "sm_errors (ss_metrics (send_ack C k m st)) =
     sm_errors (ss_metrics st) + (if isl (fst (ec_ack C k m (ss_queue st))) then 1 else 0)"
  by (auto simp: send_ack_def Let_def split: prod.split)

lemma answer_msg_errors:
  "sm_errors (ss_metrics (answer_msg C result m st)) =
     sm_errors (ss_metrics st) + (if isl result then 1 else 0) +
     (if ack_accepted C result m (ss_queue st) then 0 else 1)"
  by (auto simp: answer_msg_def send_ack_errors ack_accepted_def split: sum.split)

text \<open>A message that was processed without an error being counted was posted and acknowledged.\<close>

lemma process_queue_msg_clean:
  fixes C :: "('m, 'q, 'e) event_consumer"
  assumes "sm_errors (ss_metrics (process_queue_msg E I C m st)) = sm_errors (ss_metrics st)"
  obtains st1 m' q where "post_event E I (ec_decoded C m) st = (Inr () :: 'e ingest_error + unit, st1)"
    "ec_ack C Ack m (ss_queue st1) = (Inr (), m', q)"
    "process_queue_msg E I C m st = st1\<lparr>ss_queue := q\<rparr>"
proof -
  obtain r :: "'e ingest_error + unit" and st1 where post: "post_event E I (ec_decoded C m) st = (r, st1)" by force
  have errors: "sm_errors (ss_metrics st1) = sm_errors (ss_metrics st)"
    using post_event_metrics [OF post] by simp
  with assms post answer_msg_errors [of C r m st1] have ok: "\<not> isl r" "ack_accepted C r m (ss_queue st1)"
    by (auto simp: process_queue_msg_def split: if_splits)
  obtain a m' q where a: "ec_ack C Ack m (ss_queue st1) = (a, m', q)" by (metis prod_cases3)
  from ok a have "r = Inr ()" "a = Inr ()"
    by (cases r; cases a; simp add: ack_accepted_def)+
  with post a that show ?thesis
    by (simp add: process_queue_msg_def answer_msg_def send_ack_def)
qed

subsection \<open>Invariants of a run\<close>

definition received_oks :: "('e + 'm) list \<Rightarrow> 'm list" where
  "received_oks items = concat (map (\<lambda>x. case x of Inr m \<Rightarrow> [m] | Inl _ \<Rightarrow> []) items)"

lemma received_oks_simps [simp]:
  "received_oks [] = []" "received_oks (Inr m # xs) = m # received_oks xs"
  "received_oks (Inl e # xs) = received_oks xs"
  by (simp_all add: received_oks_def)

lemma length_received_oks: "length (received_oks xs) + length (filter isl xs) = length xs"
proof (induction xs)
  case (Cons x xs)
  then show ?case by (cases x) auto
qed simp

definition in_flight_ok :: "('u, 'c) ingester \<Rightarrow> ('m, 'q, 'w, 'e) ingest_run \<Rightarrow> bool" where
  "in_flight_ok I r \<longleftrightarrow>
     unat (ig_concurrent_queue_items I) > 0 \<longrightarrow> length (ir_active r) \<le> unat (ig_concurrent_queue_items I)"

definition run_messages :: "('m, 'q, 'w, 'e) ingest_run \<Rightarrow> 'm multiset" where
  "run_messages r =
     mset (received_oks (ir_waiting r)) + mset (map fst (ir_active r)) + mset (map fst (ir_answered r))"

definition run_failures :: "('m, 'q, 'w, 'e) ingest_run \<Rightarrow> nat" where
  "run_failures r = length (filter isl (ir_waiting r)) + ir_failed r"

definition run_errors :: "('m, 'q, 'w, 'e) ingest_run \<Rightarrow> nat" where
  "run_errors r = ir_failed r + length (filter (\<lambda>(m, result, accepted). isl result) (ir_answered r)) +
     length (filter (\<lambda>(m, result, accepted). \<not> accepted) (ir_answered r))"

definition ingest_measure :: "('m, 'q, 'w, 'e) ingest_run \<Rightarrow> nat" where
  "ingest_measure r = 3 * length (ir_waiting r) +
     sum_list (map (\<lambda>(m, result). if result = None then 2 else 1) (ir_active r))"

lemma ingest_step_invariants:
  assumes "ingest_step E I C r s"
  shows "(in_flight_ok I r \<longrightarrow> in_flight_ok I s) \<and> run_messages s = run_messages r \<and>
    run_failures s = run_failures r \<and> ingest_measure s < ingest_measure r \<and>
    sm_errors (ss_metrics (ir_state s)) + run_errors r = sm_errors (ss_metrics (ir_state r)) + run_errors s"
  using assms
proof cases
  case (start m rest)
  then show ?thesis
    by (auto simp: in_flight_ok_def run_messages_def run_failures_def ingest_measure_def run_errors_def)
next
  case (receive_error err rest)
  then show ?thesis
    by (auto simp: in_flight_ok_def run_messages_def run_failures_def ingest_measure_def run_errors_def)
next
  case (request before m after result st)
  then show ?thesis
    using post_event_metrics [OF request(3)]
    by (auto simp: in_flight_ok_def run_messages_def run_failures_def ingest_measure_def run_errors_def)
next
  case (answer before m result after)
  then show ?thesis
    by (auto simp: in_flight_ok_def run_messages_def run_failures_def ingest_measure_def run_errors_def
        answer_msg_errors)
qed

lemma ingest_steps_invariants:
  "ingest_steps E I C n r s \<Longrightarrow>
     (in_flight_ok I r \<longrightarrow> in_flight_ok I s) \<and> run_messages s = run_messages r \<and>
     run_failures s = run_failures r \<and> n + ingest_measure s \<le> ingest_measure r \<and>
     sm_errors (ss_metrics (ir_state s)) + run_errors r = sm_errors (ss_metrics (ir_state r)) + run_errors s"
proof (induction rule: ingest_steps.induct)
  case (more n r s t)
  then show ?case using ingest_step_invariants [OF more(2)] by auto
qed simp

lemma ingest_progress:
  assumes "ir_waiting r \<noteq> [] \<or> ir_active r \<noteq> []"
  shows "\<exists>s. ingest_step E I C r s"
proof (cases "ir_active r")
  case (Cons a rest)
  obtain m result where a: "a = (m, result)" by force
  show ?thesis
  proof (cases result)
    case None
    then show ?thesis
      using ingest_step.request [of r "[]" m rest E I C] Cons a by (metis append_Nil surj_pair)
  next
    case (Some x)
    then show ?thesis
      using ingest_step.answer [of r "[]" m x rest E I C] Cons a by auto
  qed
next
  case Nil
  with assms obtain x rest where x: "ir_waiting r = x # rest" by (cases "ir_waiting r") auto
  have room: "unat (ig_concurrent_queue_items I) = 0 \<or> length (ir_active r) < unat (ig_concurrent_queue_items I)"
    using Nil by auto
  show ?thesis
    using x room by (cases x) (auto intro: ingest_step.start ingest_step.receive_error)
qed

text \<open>The sequential schedule of \<open>ingest\<close> is one of the runs.\<close>

lemma ingest_steps_more:
  "ingest_steps E I C n r s \<Longrightarrow> ingest_step E I C s t \<Longrightarrow> ingest_steps E I C (n + 1) r t"
  by (simp add: ingest_steps.more)

lemma sequential_item:
  fixes C :: "('m, 'q, 'e) event_consumer"
  assumes "ir_waiting r = x # rest" "ir_active r = []"
  shows "\<exists>k s. ingest_steps E I C k r s \<and> ir_state s = process_item E I C x (ir_state r) \<and>
    ir_waiting s = rest \<and> ir_active s = []"
proof (cases x)
  case (Inl err)
  let ?s = "r\<lparr>ir_waiting := rest, ir_state := service_record_error (ir_state r), ir_failed := Suc (ir_failed r)\<rparr>"
  have "ingest_step E I C r ?s"
    by (rule ingest_step.receive_error) (use assms Inl in auto)
  then have "ingest_steps E I C (Suc 0) r ?s"
    by (rule ingest_steps.more [OF ingest_steps.none])
  moreover have "ir_state ?s = process_item E I C x (ir_state r)" "ir_waiting ?s = rest" "ir_active ?s = []"
    using assms Inl by (simp_all add: process_item_def)
  ultimately show ?thesis by blast
next
  case (Inr m)
  let ?s1 = "r\<lparr>ir_waiting := rest, ir_active := [(m, None)]\<rparr>"
  obtain result :: "'e ingest_error + unit" and st where post: "post_event E I (ec_decoded C m) (ir_state r) = (result, st)" by force
  let ?s2 = "?s1\<lparr>ir_state := st, ir_active := [(m, Some result)]\<rparr>"
  let ?s3 = "?s2\<lparr>ir_state := answer_msg C result m st, ir_active := [],
    ir_answered := (m, result, ack_accepted C result m (ss_queue st)) # ir_answered r\<rparr>"
  have "ingest_step E I C r ?s1"
    using ingest_step.start [of r m rest I E C] assms Inr by auto
  moreover have "ingest_step E I C ?s1 ?s2"
    using ingest_step.request [of ?s1 "[]" m "[]" E I C result st] post by simp
  moreover have "ingest_step E I C ?s2 ?s3"
    using ingest_step.answer [of ?s2 "[]" m result "[]" E I C] by simp
  ultimately have "ingest_steps E I C (Suc (Suc (Suc 0))) r ?s3"
    by (blast intro: ingest_steps.intros)
  moreover have "ir_state ?s3 = process_item E I C x (ir_state r)" "ir_waiting ?s3 = rest" "ir_active ?s3 = []"
    using Inr post by (simp_all add: process_item_def process_queue_msg_def)
  ultimately show ?thesis by blast
qed

lemma ingest_steps_trans:
  "ingest_steps E I C m s t \<Longrightarrow> ingest_steps E I C n r s \<Longrightarrow> ingest_steps E I C (n + m) r t"
proof (induction rule: ingest_steps.induct)
  case (more m s t u)
  then show ?case by (metis add_Suc_right ingest_steps.more)
qed simp

lemma sequential_run:
  "ir_waiting r = items \<Longrightarrow> ir_active r = [] \<Longrightarrow>
     \<exists>k s. ingest_steps E I C k r s \<and> ir_state s = fold (process_item E I C) items (ir_state r) \<and>
       ir_waiting s = [] \<and> ir_active s = []"
proof (induction items arbitrary: r)
  case Nil
  then show ?case by (auto intro: ingest_steps.none)
next
  case (Cons x rest)
  obtain k s where one: "ingest_steps E I C k r s" "ir_state s = process_item E I C x (ir_state r)"
    "ir_waiting s = rest" "ir_active s = []"
    using sequential_item [OF Cons.prems] by blast
  obtain k' s' where "ingest_steps E I C k' s s'" "ir_state s' = fold (process_item E I C) rest (ir_state s)"
    "ir_waiting s' = []" "ir_active s' = []"
    using Cons.IH [OF one(3,4)] by blast
  with one show ?case by (auto intro!: ingest_steps_trans)
qed

subsection \<open>The consumers of the two back ends\<close>

definition gcp_event_consumer ::
  "('w, 'x) gcp_env \<Rightarrow> (('x, event) gcp_message, ('w, 'x, event, 'z) consumer_state_scheme, gcp_error) event_consumer" where
  "gcp_event_consumer G =
     \<lparr>ec_messages = gcp_messages, ec_check_health = gcp_consumer_check_health, ec_decoded = gx_decoded,
      ec_ack = gcp_message_ack G\<rparr>"

definition nats_event_consumer ::
  "('w, 'x) nats_env \<Rightarrow> ('w, 'x) jetstream_view \<Rightarrow> event borsh_type \<Rightarrow> 'x nats_consumer \<Rightarrow>
     (('x, event) nats_message, 'w, nats_error) event_consumer" where
  "nats_event_consumer N V D K =
     \<lparr>ec_messages = nats_messages N D K, ec_check_health = nats_consumer_check_health N K,
      ec_decoded = nm_decoded, ec_ack = nats_ack_step \<lparr>na_env = N, na_view = V\<rparr>\<rparr>"

text \<open>The contract of the message interface is all that is needed.\<close>

context queue_message
begin

lemma processed_settled:
  assumes "ok p" "ec_ack C = ack p"
    and "sm_errors (ss_metrics (process_queue_msg E I C m st)) = sm_errors (ss_metrics st)"
  shows "settled p (ss_queue (process_queue_msg E I C m st)) m Ack"
  using assms(3)
proof (cases rule: process_queue_msg_clean)
  case (1 st1 m' q)
  with assms(1,2) ack_settles [of p Ack m "ss_queue st1" m' q] show ?thesis by simp
qed

end

subsection \<open>A queue in memory\<close>

definition sample_event :: event where
  "sample_event = SignersRotated
     \<lparr>sr_base = \<lparr>eb_event_id = TxEvent ''0xabc-1'', eb_meta = None\<rparr>,
      sr_cost = \<lparr>tk_token_id = None, tk_amount = BigInt 7\<rparr>\<rparr>"

definition memory_consumer :: "(nat, (nat \<times> ack_kind) list, string) event_consumer" where
  "memory_consumer =
     \<lparr>ec_messages = (\<lambda>q. (Inr [Inr 1, Inl ''broken'', Inr 2], q)), ec_check_health = io_ok (),
      ec_decoded = (\<lambda>m. sample_event), ec_ack = (\<lambda>k m q. (Inr (), m, (m, k) # q))\<rparr>"

definition memory_ingester :: "(memory_url, unit) ingester" where
  "memory_ingester =
     \<lparr>ig_client = \<lparr>ac_inner = (), ac_url = ([''v1'', []], [])\<rparr>, ig_concurrent_queue_items = 50,
      ig_chain = ''solana''\<rparr>"

definition memory_ingester_state :: "'q \<Rightarrow> (nat \<times> bytes) list \<Rightarrow> ('q, memory_api) service_state" where
  "memory_ingester_state q replies =
     \<lparr>ss_queue = q, ss_http = \<lparr>ma_seen = [], ma_replies = replies\<rparr>,
      ss_metrics = simple_metrics_new ''amplifier-ingester'' []\<rparr>"

definition memory_event_request :: "(memory_url, unit) http_request" where
  "memory_event_request =
     \<lparr>hr_client = (), hr_method = POST, hr_url = ([''v1'', ''chains'', ''solana'', ''events''], []),
      hr_body = [0]\<rparr>"

lemma memory_event_build:
  "build_request (ig_client memory_ingester) (post_events_request memory_http
     \<lparr>pe_chain = with_trailing_slash_new (ig_chain memory_ingester), pe_payload = \<lparr>pr_events = [ev]\<rparr>\<rparr>) =
   Inr memory_event_request"
  by (simp add: build_request_def post_events_request_def post_events_path_def memory_http_def
      memory_ingester_def with_trailing_slash_new_def memory_event_request_def)

lemma memory_post_event:
  "post_event memory_http memory_ingester ev (memory_ingester_state q ((200, body) # rest)) =
     (Inr (), (memory_ingester_state q rest)
        \<lparr>ss_http := \<lparr>ma_seen = [memory_event_request], ma_replies = rest\<rparr>\<rparr>)"
  unfolding post_event_def Let_def memory_event_build
  by (simp add: memory_ingester_state_def execute_def memory_http_def response_json_def is_success_def
      io_bind_def io_map_err_def on_http_def io_defs)

subsection \<open>Properties\<close>

text \<open>C7: at every point of a concurrent run of \<open>ingest\<close>, no more messages are in flight than
  configured (where 0 means no limit), every item of the stream is waiting, in flight, answered
  or was a receive error, no message is lost or answered twice, and the error counter has
  counted each receive error, each failed request and each answer the queue refused.\<close>

theorem ingest_run_invariant:
  assumes "ingest_steps E I C n (ingest_run_start items st) r"
  shows "(unat (ig_concurrent_queue_items I) = 0 \<or> length (ir_active r) \<le> unat (ig_concurrent_queue_items I)) \<and>
    mset (received_oks (ir_waiting r)) + mset (map fst (ir_active r)) + mset (map fst (ir_answered r)) =
      mset (received_oks items) \<and>
    length (filter isl (ir_waiting r)) + ir_failed r = length (filter isl items) \<and>
    sm_errors (ss_metrics (ir_state r)) = sm_errors (ss_metrics st) + ir_failed r +
      length (filter (\<lambda>(m, result, accepted). isl result) (ir_answered r)) +
      length (filter (\<lambda>(m, result, accepted). \<not> accepted) (ir_answered r))"
  using ingest_steps_invariants [OF assms]
  by (auto simp: ingest_run_start_def in_flight_ok_def run_messages_def run_failures_def run_errors_def)

text \<open>A run that has taken its first message.\<close>

lemma memory_first_step:
  "ingest_steps memory_http memory_ingester memory_consumer (Suc 0)
     (ingest_run_start [Inr 1, Inl ''broken'', Inr 2] (memory_ingester_state [] []))
     ((ingest_run_start [Inl ''broken'', Inr 2] (memory_ingester_state [] []))\<lparr>ir_active := [(1, None)]\<rparr>)"
proof -
  let ?r = "ingest_run_start [Inr 1, Inl ''broken'', Inr (2 :: nat)] (memory_ingester_state [] [])
    :: (nat, (nat \<times> ack_kind) list, memory_api, string) ingest_run"
  have "ingest_step memory_http memory_ingester memory_consumer ?r
      (?r\<lparr>ir_waiting := [Inl ''broken'', Inr 2], ir_active := ir_active ?r @ [(1, None)]\<rparr>)"
    by (rule ingest_step.start) (simp_all add: ingest_run_start_def memory_ingester_def)
  from ingest_steps.more [OF ingest_steps.none this] show ?thesis
    by (simp add: ingest_run_start_def)
qed

theorem ingest_run_invariant_witness:
  "\<exists>r. ingest_steps memory_http memory_ingester memory_consumer (Suc 0)
      (ingest_run_start [Inr 1, Inl ''broken'', Inr 2] (memory_ingester_state [] [])) r \<and>
    length (ir_active r) \<le> 50 \<and> ir_failed r \<le> 1"
  using ingest_run_invariant [OF memory_first_step] memory_first_step
  by (intro exI [of _ "(ingest_run_start [Inl ''broken'', Inr 2] (memory_ingester_state [] []))\<lparr>ir_active := [(1, None)]\<rparr>"])
    (simp add: memory_ingester_def ingest_run_start_def)

text \<open>C8: A run of \<open>ingest\<close> over a finite stream ends: it makes at most three steps per item,
  and a run that can make no further step has answered every message received exactly once and
  counted every receive error.\<close>

theorem ingest_run_completes:
  assumes "ingest_steps E I C n (ingest_run_start items st) r"
  shows "n \<le> 3 * length items \<and>
    ((\<exists>s. ingest_step E I C r s) \<or>
     mset (map fst (ir_answered r)) = mset (received_oks items) \<and> ir_failed r = length (filter isl items))"
proof -
  note inv = ingest_steps_invariants [OF assms]
  have "n \<le> 3 * length items"
    using inv by (simp add: ingest_run_start_def ingest_measure_def)
  moreover have "mset (map fst (ir_answered r)) = mset (received_oks items) \<and> ir_failed r = length (filter isl items)"
    if "ir_waiting r = []" "ir_active r = []"
    using inv that by (simp add: ingest_run_start_def run_messages_def run_failures_def)
  ultimately show ?thesis
    using ingest_progress [of r E I C] by blast
qed

theorem ingest_run_completes_witness:
  "(Suc 0) \<le> 3 * length [Inr 1, Inl ''broken'', Inr (2 :: nat)] \<and>
   (\<exists>r. ingest_steps memory_http memory_ingester memory_consumer (Suc 0)
      (ingest_run_start [Inr 1, Inl ''broken'', Inr 2] (memory_ingester_state [] [])) r)"
  using ingest_run_completes [OF memory_first_step] memory_first_step by blast



text \<open>C10: on Google Pub/Sub, a message that \<open>process_queue_msg\<close> handled without counting an
  error has been accepted by the API (a 2xx status with a body that parses) and its
  acknowledgement has been accepted by Pub/Sub.\<close>

theorem gcp_processed_event_acked:
  assumes "answers_ok G V"
    and "sm_errors (ss_metrics (process_queue_msg E I (gcp_event_consumer G) m st)) = sm_errors (ss_metrics st)"
  shows "sv_answered V (gx_msg m) Ack (gs_world (ss_queue (process_queue_msg E I (gcp_event_consumer G) m st))) \<and>
    (\<exists>st1. post_event E I (gx_decoded m) st = (Inr () :: gcp_error ingest_error + unit, st1))"
proof
  show "sv_answered V (gx_msg m) Ack (gs_world (ss_queue (process_queue_msg E I (gcp_event_consumer G) m st)))"
    using gcp_msg.processed_settled [of "\<lparr>ga_env = G, ga_view = V\<rparr>" "gcp_event_consumer G" E I m st] assms
    by (simp add: gcp_event_consumer_def)
  show "\<exists>st1. post_event E I (gx_decoded m) st = (Inr () :: gcp_error ingest_error + unit, st1)"
    using assms(2)
    by (cases rule: process_queue_msg_clean) (auto simp: gcp_event_consumer_def)
qed

definition memory_event_message :: "(nat, event) gcp_message" where
  "memory_event_message =
     \<lparr>gx_id = ''7'', gx_decoded = sample_event, gx_subscription_name = ''sub'', gx_msg = 7,
      gx_redis_connection = 0, gx_received_instant = 0, gx_ack_deadline_secs = 30\<rparr>"

definition memory_event_state :: "(memory_services, nat, event) consumer_state" where
  "memory_event_state =
     \<lparr>gs_world = memory_services_start, con_metrics = consumer_metrics_new ''sub'' 0, con_channel = [],
      con_receiver_alive = True, con_task_finished = False, con_cancelled = False\<rparr>"

theorem gcp_processed_event_acked_witness:
  "sv_answered memory_services_view 7 Ack (gs_world (ss_queue (process_queue_msg memory_http memory_ingester
     (gcp_event_consumer memory_gcp) memory_event_message
     (memory_ingester_state memory_event_state [(200, [])]))))"
proof -
  have "sm_errors (ss_metrics (process_queue_msg memory_http memory_ingester (gcp_event_consumer memory_gcp)
      memory_event_message (memory_ingester_state memory_event_state [(200, [])]))) =
    sm_errors (ss_metrics (memory_ingester_state memory_event_state [(200, [])]))"
    unfolding process_queue_msg_def memory_post_event
    by (simp add: answer_msg_def send_ack_def gcp_event_consumer_def gcp_message_ack_def memory_gcp_def
        memory_ingester_state_def io_bind_def io_map_err_def on_world_def io_do_def io_ok_def Let_def)
  from gcp_processed_event_acked [OF memory_answers_ok this] show ?thesis
    by (simp add: memory_event_message_def)
qed

text \<open>An event is acknowledged as soon as the API answered 2xx with a body that parses, even
  when the body lists the event as failed and retriable: the results are not looked at.\<close>

theorem event_errors_are_acked:
  fixes C :: "('m, 'q, 'e) event_consumer"
  assumes "build_request (ig_client I) (post_events_request E
       \<lparr>pe_chain = with_trailing_slash_new (ig_chain I), pe_payload = \<lparr>pr_events = [ec_decoded C m]\<rparr>\<rparr>) = Inr request"
    and "http_execute E request (ss_http st) = (Inr resp, w1)"
    and "response_json E (json_events_result E) (json_error_response E) resp w1 =
      (Inr (Inr \<lparr>ps_results = [ResultError \<lparr>er_base = b, er_error = err, er_retriable = True\<rparr>]\<rparr>), w2)"
  shows "process_queue_msg E I C m st = send_ack C Ack m (st\<lparr>ss_http := w2\<rparr>)"
proof -
  have "post_event E I (ec_decoded C m) st = (Inr () :: 'e ingest_error + unit, st\<lparr>ss_http := w2\<rparr>)"
    unfolding post_event_def Let_def
    using assms by (simp add: io_bind_def io_map_err_def on_http_def execute_def io_defs)
  then show ?thesis
    by (simp add: process_queue_msg_def answer_msg_def)
qed

theorem event_errors_are_acked_witness:
  "ss_queue (process_queue_msg memory_http memory_ingester memory_consumer 3
     (memory_ingester_state [] [(200, [1])])) = [(3, Ack)]"
proof -
  let ?st = "memory_ingester_state [] [(200, [1])]"
  have run: "http_execute memory_http memory_event_request (ss_http ?st) =
      (Inr (200, [1]), \<lparr>ma_seen = [memory_event_request], ma_replies = []\<rparr>)"
    "response_json memory_http (json_events_result memory_http) (json_error_response memory_http) (200, [1])
       \<lparr>ma_seen = [memory_event_request], ma_replies = []\<rparr> =
     (Inr (Inr \<lparr>ps_results = [ResultError \<lparr>er_base = \<lparr>ri_index = 0\<rparr>, er_error = ''try again'', er_retriable = True\<rparr>]\<rparr>),
      \<lparr>ma_seen = [memory_event_request], ma_replies = []\<rparr>)"
    by (simp_all add: memory_http_def memory_ingester_state_def response_json_def is_success_def
        memory_result_item_def io_bind_def io_map_err_def io_defs)
  show ?thesis
    unfolding event_errors_are_acked [where C = memory_consumer and m = 3, OF memory_event_build run]
    by (simp add: send_ack_def memory_consumer_def memory_ingester_state_def)
qed

end
