(* ===== verification/Failure_Count.thy ===== *)
theory Failure_Count
  imports Prelude "HOL-Library.Sublist"
begin

text \<open>
  The counter of consecutive failures that the workers of the services (\<open>main.rs\<close>) and the
  health check of the Amplifier component (\<open>healthcheck.rs\<close>) keep in a saturating machine
  integer, and what it is for: to stop at the first window of too many failures in a row.
\<close>

text \<open>
  One round: whether it succeeded, the failures in a row before it, the failures in a row after
  it and whether the threshold is reached.
\<close>

definition count_error :: "'a::len word \<Rightarrow> bool \<Rightarrow> 'a word \<Rightarrow> 'a word \<times> bool" where
  "count_error max_errors succeeded error_count =
     (if succeeded then (0, False)
      else let error_count = saturating_add error_count 1 in (error_count, error_count \<ge> max_errors))"

text \<open>A window of \<open>m\<close> failures in a row.\<close>

definition failing_run :: "nat \<Rightarrow> bool list \<Rightarrow> bool" where
  "failing_run m rounds = sublist (replicate m False) rounds"

lemma prefix_replicate: "prefix (replicate m False) (replicate c False @ rounds) \<longleftrightarrow>
    m \<le> c \<or> prefix (replicate (m - c) False) rounds"
proof (induction c arbitrary: m)
  case (Suc c)
  then show ?case by (cases m) auto
next
  case 0
  then show ?case by (cases m) auto
qed

lemma failing_run_short: "c < m \<Longrightarrow> \<not> failing_run m (replicate c False)"
  unfolding failing_run_def by (auto dest: sublist_length_le)

lemma failing_run_reset:
  assumes "c < m"
  shows "failing_run m (replicate c False @ True # rounds) \<longleftrightarrow> failing_run m rounds"
proof -
  have "sublist (replicate m False) (replicate d False @ True # rounds) \<longleftrightarrow> sublist (replicate m False) rounds"
    if "d < m" for d
    using that
  proof (induction d)
    case 0
    then show ?case by (cases m) (auto simp: sublist_Cons_right)
  next
    case (Suc d)
    have "\<not> prefix (replicate m False) (replicate (Suc d) False @ True # rounds)"
      unfolding prefix_replicate using Suc.prems by (cases "m - Suc d") auto
    with Suc show ?case by (simp add: sublist_Cons_right)
  qed
  from this [OF assms] show ?thesis by (simp add: failing_run_def)
qed

lemma failing_run_full: "failing_run m (replicate m False @ rounds)"
  unfolding failing_run_def by (metis append_Nil sublist_appendI)

lemma count_error_ok [simp]: "count_error limit True c = (0, False)"
  by (simp add: count_error_def)

lemma count_error_failed:
  assumes "unat c < max 1 (unat (limit :: 'a::len word))"
  shows "\<exists>c'. count_error limit False c = (c', unat c + 1 \<ge> max 1 (unat limit)) \<and> unat c' = unat c + 1"
proof -
  have "(1::nat) < 2 ^ LENGTH('a)"
    using len_gt_0 by (metis one_less_numeral_iff one_less_power semiring_norm(76))
  moreover have "unat limit < 2 ^ LENGTH('a)" by (rule unsigned_less)
  ultimately have "max 1 (unat limit) < 2 ^ LENGTH('a)"
    by (simp only: max_less_iff_conj simp_thms)
  with assms have "unat c + 1 \<le> 2 ^ LENGTH('a) - 1" by linarith
  then have "unat (saturating_add c 1) = unat c + 1"
    by (simp add: unat_saturating_add)
  then show ?thesis
    by (auto simp: count_error_def word_le_nat_alt Let_def)
qed

subsection \<open>The counter finds the first window\<close>

text \<open>
  \<open>counted limit c rounds stopped\<close>: the rounds that follow \<open>c\<close> failures in a row are those
  up to and including the first window of \<open>limit\<close> failures, and it was reached if \<open>stopped\<close>.
\<close>

definition threshold :: "'a::len word \<Rightarrow> nat" where
  "threshold limit = max 1 (unat limit)"

definition counted :: "'a::len word \<Rightarrow> 'a word \<Rightarrow> bool list \<Rightarrow> bool \<Rightarrow> bool" where
  "counted limit c rounds stopped \<longleftrightarrow>
     (stopped \<longleftrightarrow> failing_run (threshold limit) (replicate (unat c) False @ rounds)) \<and>
     \<not> failing_run (threshold limit) (replicate (unat c) False @ butlast rounds)"

lemma counted_Nil: "unat c < threshold limit \<Longrightarrow> counted limit c [] False"
  by (simp add: counted_def failing_run_short)

lemma threshold_pos [simp]: "0 < threshold limit"
  by (simp add: threshold_def)

lemma counted_step:
  assumes "unat c < threshold limit" "count_error limit ok c = (c', stop)"
  shows "stop \<Longrightarrow> counted limit c [ok] True"
    and "\<not> stop \<Longrightarrow> unat c' < threshold limit"
    and "\<not> stop \<Longrightarrow> counted limit c' rounds stopped \<Longrightarrow> counted limit c (ok # rounds) stopped"
proof -
  let ?m = "threshold limit"
  have failed: "stop = (unat c + 1 \<ge> ?m) \<and> unat c' = unat c + 1" if "\<not> ok"
    using count_error_failed [of c limit] assms that by (auto simp: threshold_def)
  have succeeded: "c' = 0 \<and> \<not> stop" if ok
    using assms(2) that by (auto simp: count_error_def)
  have grow: "replicate (unat c) False @ False # rs = replicate (unat c + 1) False @ rs" for rs
    by (simp add: replicate_app_Cons_same)
  show "counted limit c [ok] True" if stop
  proof -
    have "\<not> ok" "unat c + 1 = ?m" using that succeeded failed assms(1) by (cases ok; auto)+
    then show ?thesis
      using grow [of "[]"] failing_run_full [of ?m "[]"] failing_run_short [OF assms(1)]
      by (simp add: counted_def del: replicate.simps(2) replicate_Suc)
  qed
  show "unat c' < ?m" if "\<not> stop"
    using that succeeded failed by (cases ok) auto
  show "counted limit c (ok # rounds) stopped" if "\<not> stop" "counted limit c' rounds stopped"
    using that succeeded failed failing_run_reset [OF assms(1)] failing_run_short [OF assms(1)]
    by (cases ok) (auto simp: counted_def replicate_app_Cons_same)
qed

end
