(* ===== verification/Worker_Loop.thy ===== *)
theory Worker_Loop
  imports Subscriber Ingester Failure_Count
begin

text \<open>
  The entry points of the two services (\<open>main.rs\<close> of \<open>amplifier-ingester\<close> and of
  \<open>amplifier-subscriber\<close>): a worker that runs a round of work at every tick and gives up after
  too many consecutive failures, beside a health-check server; the process waits for both and
  the token ends both.
\<close>

subsection \<open>The worker\<close>

text \<open>The worker, over a number of ticks: whether it gave up, the state, and the rounds it made.\<close>

fun work_loop ::
  "u32 \<Rightarrow> ('st, 'e, unit) io \<Rightarrow> nat \<Rightarrow> u32 \<Rightarrow> 'st \<Rightarrow> bool \<times> 'st \<times> bool list" where
  "work_loop max_errors work 0 error_count st = (False, st, [])"
| "work_loop max_errors work (Suc ticks) error_count st =
     (let (r, st1) = work st;
          (error_count, stop) = count_error max_errors (\<not> isl r) error_count
      in if stop then (True, st1, [\<not> isl r])
         else let (gave_up, st2, rounds) = work_loop max_errors work ticks error_count st1
              in (gave_up, st2, (\<not> isl r) # rounds))"

lemma work_loop_counted:
  assumes "unat c < threshold limit" "work_loop limit work ticks c st = (gave_up, st', rounds)"
  shows "counted limit c rounds gave_up \<and> (gave_up \<or> length rounds = ticks)"
  using assms
proof (induction ticks arbitrary: c st gave_up st' rounds)
  case 0
  then show ?case by (simp add: counted_Nil)
next
  case (Suc ticks)
  obtain r st1 where r: "work st = (r, st1)" by force
  obtain c' stop where count: "count_error limit (\<not> isl r) c = (c', stop)" by force
  note step = counted_step [OF Suc.prems(1) count]
  show ?case
  proof (cases stop)
    case True
    with Suc.prems(2) r count step(1) show ?thesis by simp
  next
    case False
    obtain g st2 rs where rest: "work_loop limit work ticks c' st1 = (g, st2, rs)"
      using prod_cases3 by blast
    with Suc.IH [OF step(2) [OF False] rest] step(3) [OF False] Suc.prems(2) r count False
    show ?thesis by auto
  qed
qed

subsection \<open>The process\<close>

text \<open>
  The worker task and the health-check server share the state of the service and the token;
  \<open>try_join!\<close> returns when both have ended, which the server does only on cancellation.
\<close>

record 'st app =
  app_state :: 'st
  app_errors :: u32
  app_gave_up :: bool
  app_cancelled :: bool
  app_replies :: "http_reply option list"

datatype app_event = TickEvent | ProbeEvent string | CancelEvent

definition app_start :: "'st \<Rightarrow> 'st app" where
  "app_start st =
     \<lparr>app_state = st, app_errors = 0, app_gave_up = False, app_cancelled = False, app_replies = []\<rparr>"

fun app_step ::
  "u32 \<Rightarrow> ('st, 'e, unit) io \<Rightarrow> ('st, 'e) health_server \<Rightarrow> app_event \<Rightarrow> 'st app \<Rightarrow> 'st app" where
  "app_step max_errors work S TickEvent a =
     (if app_cancelled a \<or> app_gave_up a then a
      else let (r, st) = work (app_state a);
               (error_count, stop) = count_error max_errors (\<not> isl r) (app_errors a)
           in a\<lparr>app_state := st, app_errors := error_count, app_gave_up := stop\<rparr>)"
| "app_step max_errors work S (ProbeEvent path) a =
     (if app_cancelled a then a
      else let (reply, st) = health_server_get S path (app_state a)
           in a\<lparr>app_state := st, app_replies := app_replies a @ [reply]\<rparr>)"
| "app_step max_errors work S CancelEvent a = a\<lparr>app_cancelled := True\<rparr>"

definition app_run ::
  "u32 \<Rightarrow> ('st, 'e, unit) io \<Rightarrow> ('st, 'e) health_server \<Rightarrow> app_event list \<Rightarrow> 'st app \<Rightarrow> 'st app" where
  "app_run max_errors work S events a = fold (app_step max_errors work S) events a"

definition app_ended :: "'st app \<Rightarrow> bool" where
  "app_ended a \<longleftrightarrow> (app_gave_up a \<or> app_cancelled a) \<and> app_cancelled a"

text \<open>The two services; \<open>port\<close> is that of their health-check configuration.\<close>

definition run_ingester ::
  "('w, 'u, 'c, 'x, 'i, 't) http_env \<Rightarrow> ('u, 'i) ingester_config \<Rightarrow> 16 word \<Rightarrow> ('u, 'c) ingester \<Rightarrow>
     ('m, 'q, 'e) event_consumer \<Rightarrow> app_event list \<Rightarrow> ('q, 'w) service_state app \<Rightarrow> ('q, 'w) service_state app" where
  "run_ingester E config port I C =
     app_run (igc_max_errors config) (ingest E I C) (health_server_new port (ingester_check_health E I C))"

definition run_subscriber ::
  "('w, 'u, 'c, 'x, 'i, 't) http_env \<Rightarrow> (task_item list \<Rightarrow> task_item list) \<Rightarrow> ('u, 'i) subscriber_config \<Rightarrow>
     16 word \<Rightarrow> ('q, 'e, 'r) task_publisher \<Rightarrow> ('u, 'c) subscriber \<Rightarrow> app_event list \<Rightarrow>
     ('q, 'w) service_state app \<Rightarrow> ('q, 'w) service_state app" where
  "run_subscriber E usort config port P S =
     app_run (sbc_max_errors config) (subscribe E usort P S)
       (health_server_new port (subscriber_check_health E P S))"

lemma app_run_Cons [simp]: "app_run m f S (e # es) a = app_run m f S es (app_step m f S e a)"
  and app_run_Nil [simp]: "app_run m f S [] a = a"
  by (simp_all add: app_run_def)

lemma app_run_snoc: "app_run m f S (es @ [e]) a = app_step m f S e (app_run m f S es a)"
  by (simp add: app_run_def)

text \<open>Between probes, the worker of the process is \<open>work_loop\<close>.\<close>

lemma app_run_ticks:
  "\<not> app_cancelled a \<Longrightarrow> \<not> app_gave_up a \<Longrightarrow>
     (case work_loop m f n (app_errors a) (app_state a) of (gave_up, st, rounds) \<Rightarrow>
        app_state (app_run m f S (replicate n TickEvent) a) = st \<and>
        app_gave_up (app_run m f S (replicate n TickEvent) a) = gave_up)"
proof (induction n arbitrary: a)
  case (Suc n)
  obtain r st where r: "f (app_state a) = (r, st)" by force
  obtain c stop where c: "count_error m (\<not> isl r) (app_errors a) = (c, stop)" by force
  let ?a = "a\<lparr>app_state := st, app_errors := c, app_gave_up := stop\<rparr>"
  have step: "app_step m f S TickEvent a = ?a"
    using Suc.prems r c by simp
  show ?case
  proof (cases stop)
    case True
    have "app_run m f S (replicate n TickEvent) ?a = ?a"
      using True by (induction n) (auto simp: app_run_def)
    with True r c step show ?thesis by simp
  next
    case False
    with Suc.IH [of ?a] Suc.prems r c step show ?thesis
      by (simp split: prod.splits)
  qed
qed simp

lemma given_up_keeps:
  "app_gave_up a \<Longrightarrow> \<not> app_cancelled a \<Longrightarrow> CancelEvent \<notin> set events \<Longrightarrow>
     app_gave_up (app_run m f S events a) \<and> \<not> app_cancelled (app_run m f S events a)"
proof (induction events arbitrary: a)
  case (Cons e es)
  then show ?case by (cases e) (auto split: prod.split)
qed simp

lemma given_up_ignores_ticks:
  "app_gave_up a \<Longrightarrow> \<not> app_cancelled a \<Longrightarrow> CancelEvent \<notin> set events \<Longrightarrow>
     app_run m f S events a = app_run m f S (filter (\<lambda>e. e \<noteq> TickEvent) events) a"
proof (induction events arbitrary: a)
  case (Cons e es)
  then show ?case by (cases e) (auto split: prod.split)
qed simp

subsection \<open>Properties\<close>

text \<open>C5: the worker of a service gives up exactly at the first window of \<open>max_errors\<close> failed
  rounds in a row (one, if \<open>max_errors\<close> is 0): it never gives up without such a window, never
  works on after one, and otherwise makes a round at every tick.\<close>

theorem work_loop_gives_up:
  "case work_loop max_errors work ticks 0 st of (gave_up, st', rounds) \<Rightarrow>
     (gave_up \<longleftrightarrow> failing_run (max 1 (unat max_errors)) rounds) \<and>
     \<not> failing_run (max 1 (unat max_errors)) (butlast rounds) \<and>
     (gave_up \<or> length rounds = ticks)"
  using work_loop_counted [of 0 max_errors work ticks st]
  by (auto simp: counted_def threshold_def split: prod.split)


text \<open>An ingester whose queue is down, with one error allowed.\<close>

definition broken_consumer :: "(nat, (nat \<times> ack_kind) list, string) event_consumer" where
  "broken_consumer = memory_consumer\<lparr>ec_messages := \<lambda>q. (Inl ''down'', q)\<rparr>"

definition one_error_config :: "(memory_url, unit) ingester_config" where
  "one_error_config =
     \<lparr>igc_amplifier = \<lparr>am_identity = None, am_tls_public_certificate = None, am_url = ([''v1'', []], []),
        am_chain = ''solana'', am_get_chains_limit = 1\<rparr>,
      igc_tickrate = from_secs 1, igc_telemetry = None, igc_max_errors = 1, igc_concurrent_queue_items = 50\<rparr>"

definition given_up_app :: "((nat \<times> ack_kind) list, memory_api) service_state app" where
  "given_up_app =
     run_ingester memory_http one_error_config 8080 memory_ingester broken_consumer [TickEvent]
       (app_start (memory_ingester_state [] []))"

lemma given_up_app: "app_gave_up given_up_app \<and> \<not> app_cancelled given_up_app"
  by (simp add: given_up_app_def run_ingester_def one_error_config_def broken_consumer_def app_start_def
      ingest_def io_bind_def io_inspect_err_def io_map_err_def on_queue_def count_error_def
      saturating_add_def Let_def)


end
