(* ===== verification/Component_Config.thy ===== *)
theory Component_Config
  imports Api_Client Bin_Util
begin

text \<open>
  What the parts of the Amplifier component (crate \<open>relayer-amplifier-api-integration\<close>) share:
  its configuration with the defaults and the parsers of the command-line values, the commands,
  and the interface of the state it keeps (crate \<open>relayer-amplifier-state\<close>).
\<close>

record ('u, 'i) component_config =
  cf_identity :: "'i option"
  cf_tls_public_certificate :: "string option"
  cf_url :: 'u
  cf_chain :: string
  cf_get_chains_poll_interval :: duration
  cf_get_chains_limit :: u8
  cf_healthcheck_interval :: duration
  cf_invalid_healthchecks_before_shutdown :: u64

definition healthcheck_interval_default_value :: u64 where "healthcheck_interval_default_value = 10"
definition chains_poll_interval_default_value :: u64 where "chains_poll_interval_default_value = 10"

definition default_healthcheck_interval :: duration where
  "default_healthcheck_interval = from_secs healthcheck_interval_default_value"

definition default_get_chains_poll_interval :: duration where
  "default_get_chains_poll_interval = from_secs chains_poll_interval_default_value"

definition default_invalid_healthchecks_before_shutdown :: u64 where
  "default_invalid_healthchecks_before_shutdown = 5"

definition default_get_chains_limit :: u8 where "default_get_chains_limit = 4"

text \<open>\<open>parse_identity\<close>: no text means no identity; otherwise base64 over a PEM.\<close>

datatype identity_error = NotBase64 ext_error | NotPem ext_error

definition parse_identity ::
  "(string \<Rightarrow> ext_error + bytes) \<Rightarrow> (bytes \<Rightarrow> ext_error + 'i) \<Rightarrow> string \<Rightarrow> identity_error + 'i option" where
  "parse_identity decode from_pem input =
     (if input = [] then Inr None
      else res_bind (map_err NotBase64 (decode input)) (\<lambda>identity_bytes.
             res_bind (map_err NotPem (from_pem identity_bytes)) (\<lambda>identity. Inr (Some identity))))"

definition parse_chains_poll_interval :: "string \<Rightarrow> parse_int_error + duration" where
  "parse_chains_poll_interval input = res_bind (parse_u64 input) (\<lambda>secs. Inr (from_secs secs))"

definition parse_healthcheck_interval :: "string \<Rightarrow> parse_int_error + duration" where
  "parse_healthcheck_interval input = res_bind (parse_u64 input) (\<lambda>secs. Inr (from_secs secs))"

text \<open>\<open>State\<close>: the store of the latest processed and the latest queried task, as operations on \<open>'s\<close>.\<close>

record ('s, 'se) task_state =
  latest_processed_task_id :: "'s \<Rightarrow> task_item_id option"
  latest_queried_task_id :: "'s \<Rightarrow> task_item_id option"
  set_latest_processed_task_id :: "task_item_id \<Rightarrow> ('s, 'se, unit) io"
  set_latest_queried_task_id :: "task_item_id \<Rightarrow> ('s, 'se, unit) io"

datatype amplifier_command = PublishEvents publish_events_request

definition task_state_ok :: "('s, 'se) task_state \<Rightarrow> bool" where
  "task_state_ok T \<longleftrightarrow>
     (\<forall>i s r s'. set_latest_processed_task_id T i s = (r, s') \<longrightarrow>
        latest_queried_task_id T s' = latest_queried_task_id T s \<and>
        latest_processed_task_id T s' = (case r of Inr _ \<Rightarrow> Some i | Inl _ \<Rightarrow> latest_processed_task_id T s)) \<and>
     (\<forall>i s r s'. set_latest_queried_task_id T i s = (r, s') \<longrightarrow>
        r = Inr () \<and> latest_queried_task_id T s' = Some i \<and>
        latest_processed_task_id T s' = latest_processed_task_id T s)"

lemma task_state_processedD:
  "task_state_ok T \<Longrightarrow> set_latest_processed_task_id T i s = (r, s') \<Longrightarrow>
     latest_queried_task_id T s' = latest_queried_task_id T s \<and>
     latest_processed_task_id T s' = (case r of Inr _ \<Rightarrow> Some i | Inl _ \<Rightarrow> latest_processed_task_id T s)"
  unfolding task_state_ok_def by blast

lemma task_state_queriedD:
  "task_state_ok T \<Longrightarrow> set_latest_queried_task_id T i s = (r, s') \<Longrightarrow>
     r = Inr () \<and> latest_queried_task_id T s' = Some i \<and>
     latest_processed_task_id T s' = latest_processed_task_id T s"
  unfolding task_state_ok_def by blast

end
