(* ===== verification/Task_Cursor.thy ===== *)
theory Task_Cursor
  imports Api_Types
begin

text \<open>
  The tasks of a chain as the API hands them out, in an order that does not change, and the
  position in it that the readers of the API (\<open>amplifier-subscriber\<close> and the feed of the Amplifier
  component) keep as the id of a task.
\<close>

text \<open>The tasks after an id, and the position after a part that was read.\<close>

definition tasks_after :: "task_item_id option \<Rightarrow> task_item list \<Rightarrow> task_item list" where
  "tasks_after after tasks =
     (case after of None \<Rightarrow> tasks | Some i \<Rightarrow> drop 1 (dropWhile (\<lambda>t. ti_id t \<noteq> i) tasks))"

definition cursor_after :: "task_item_id option \<Rightarrow> task_item list \<Rightarrow> task_item_id option" where
  "cursor_after p sent = (if sent = [] then p else Some (ti_id (last sent)))"

lemma tasks_after_suffix: "\<exists>pre. tasks = pre @ tasks_after after tasks"
proof (cases after)
  case (Some i)
  have "tasks = takeWhile (\<lambda>t. ti_id t \<noteq> i) tasks @ dropWhile (\<lambda>t. ti_id t \<noteq> i) tasks" by simp
  also have "dropWhile (\<lambda>t. ti_id t \<noteq> i) tasks =
      take 1 (dropWhile (\<lambda>t. ti_id t \<noteq> i) tasks) @ tasks_after after tasks"
    using Some by (simp add: tasks_after_def)
  finally show ?thesis by (metis append.assoc)
qed (simp add: tasks_after_def)

lemma tasks_after_split:
  assumes "distinct (map ti_id (pre @ t # post))"
  shows "tasks_after (Some (ti_id t)) (pre @ t # post) = post"
proof -
  have "ti_id t \<notin> ti_id ` set pre" using assms by simp
  then have "\<forall>u \<in> set pre. ti_id u \<noteq> ti_id t" by (metis imageI)
  then have "dropWhile (\<lambda>u. ti_id u \<noteq> ti_id t) (pre @ t # post) = t # post"
    by (simp add: dropWhile_append2)
  then show ?thesis by (simp add: tasks_after_def)
qed

text \<open>The tasks after the last one of an initial part of a feed are the rest of that feed.\<close>

lemma tasks_after_last:
  assumes "distinct (map ti_id tasks)" "take k (tasks_after p tasks) \<noteq> []"
  shows "tasks_after (Some (ti_id (last (take k (tasks_after p tasks))))) tasks = drop k (tasks_after p tasks)"
proof -
  let ?rest = "tasks_after p tasks"
  obtain pre where "tasks = pre @ ?rest" using tasks_after_suffix by blast
  then have "tasks = pre @ take k ?rest @ drop k ?rest" by simp
  then have "tasks = (pre @ butlast (take k ?rest)) @ last (take k ?rest) # drop k ?rest"
    using append_butlast_last_id [OF assms(2)] by (metis append.assoc append_Cons append_Nil)
  with assms(1) tasks_after_split show ?thesis by metis
qed

lemma tasks_after_cursor:
  assumes "distinct (map ti_id tasks)" "sent = take k (tasks_after p tasks)"
  shows "tasks_after (cursor_after p sent) tasks = (if sent = [] then tasks_after p tasks else drop k (tasks_after p tasks))"
  using tasks_after_last [OF assms(1), of k p] assms(2) by (simp add: cursor_after_def)

end
