(* ===== verification/Task_Feed.thy ===== *)
theory Task_Feed
  imports Component_Config Task_Cursor "HOL-Library.Sublist"
begin

text \<open>
  The half of the Amplifier component that reads from the API (\<open>from_amplifier.rs\<close>): at every
  tick it asks for the tasks after the last one, unless the consumer still has tasks; each
  request runs as a task of its own and sends what it gets into an unbounded channel.

  An event is one atomic action: a tick, the end of the request at a position of the join set,
  the consumer taking a task out of the channel, and the consumer storing the id of the task it
  took last as the processed one.  The part of a request after its response has no point where
  it waits: the channel is unbounded.
\<close>

datatype 'se feed_error =
    StateFailed 'se
  | RequestNotBuilt amplifier_api_error
  | RequestFailed amplifier_api_error
  | RequestRefused error_response
  | ReceiverGone

record ('w, 'u, 'c, 's) feed =
  fd_http :: 'w
  fd_state :: 's
  fd_channel :: "task_item list"
  fd_receiver_alive :: bool
  fd_join_set :: "('u, 'c) http_request list"
  fd_taken :: "task_item list"

definition on_feed_http :: "('w, 'e, 'a) io \<Rightarrow> (('w, 'u, 'c, 's) feed, 'e, 'a) io" where
  "on_feed_http m st = (let (r, w) = m (fd_http st) in (r, st\<lparr>fd_http := w\<rparr>))"

definition on_feed_state :: "('s, 'e, 'a) io \<Rightarrow> (('w, 'u, 'c, 's) feed, 'e, 'a) io" where
  "on_feed_state m st = (let (r, s) = m (fd_state st) in (r, st\<lparr>fd_state := s\<rparr>))"

lemma on_feed_http_eq [io_cases]:
  "on_feed_http m st = (r, st') \<longleftrightarrow> (\<exists>w. m (fd_http st) = (r, w) \<and> st' = st\<lparr>fd_http := w\<rparr>)"
  by (auto simp: on_feed_http_def Let_def split: prod.splits)

lemma on_feed_state_eq [io_cases]:
  "on_feed_state m st = (r, st') \<longleftrightarrow> (\<exists>s. m (fd_state st) = (r, s) \<and> st' = st\<lparr>fd_state := s\<rparr>)"
  by (auto simp: on_feed_state_def Let_def split: prod.splits)

subsection \<open>Requests\<close>

text \<open>Upon startup: continue from the latest processed task.\<close>

definition feed_startup ::
  "('s, 'se) task_state \<Rightarrow> (('w, 'u, 'c, 's) feed, 'se feed_error, unit) io" where
  "feed_startup T st =
     (case latest_processed_task_id T (fd_state st) of
        Some task_item_id \<Rightarrow>
          io_map_err StateFailed (on_feed_state (set_latest_queried_task_id T task_item_id)) st
      | None \<Rightarrow> (Inr (), st))"

definition feed_query ::
  "('u, 'i) component_config \<Rightarrow> task_item_id option \<Rightarrow> get_chains" where
  "feed_query config latest_processed_task =
     \<lparr>gc_chain = with_trailing_slash_new (cf_chain config), gc_after = latest_processed_task,
      gc_before = None, gc_limit = Some (cf_get_chains_limit config)\<rparr>"

text \<open>\<open>internal\<close>, run at every tick.\<close>

definition feed_internal ::
  "('w, 'u, 'c, 'r, 'i, 't) http_env \<Rightarrow> ('s, 'se) task_state \<Rightarrow> ('u, 'i) component_config \<Rightarrow>
     ('u, 'c) amplifier_api_client \<Rightarrow> (('w, 'u, 'c, 's) feed, 'se feed_error, unit) io" where
  "feed_internal E T config client st =
     (if fd_channel st \<noteq> [] then (Inr (), st)
      else
        let latest_processed_task = latest_processed_task_id T (fd_state st);
            latest_queried_task = latest_queried_task_id T (fd_state st)
        in if latest_processed_task \<noteq> latest_queried_task then (Inr (), st)
           else case build_request client (get_chains_request E (feed_query config latest_processed_task)) of
                  Inl err \<Rightarrow> (Inl (RequestNotBuilt err), st)
                | Inr request \<Rightarrow> (Inr (), st\<lparr>fd_join_set := fd_join_set st @ [request]\<rparr>))"

text \<open>\<open>send_all\<close>: all tasks, or an error if nobody receives.\<close>

definition send_all :: "task_item list \<Rightarrow> (('w, 'u, 'c, 's) feed, 'se feed_error, unit) io" where
  "send_all tasks st =
     (if fd_receiver_alive st then (Inr (), st\<lparr>fd_channel := fd_channel st @ tasks\<rparr>)
      else (Inl ReceiverGone, st))"

definition process_task_request ::
  "('w, 'u, 'c, 'r, 'i, 't) http_env \<Rightarrow> ('s, 'se) task_state \<Rightarrow> ('u, 'c) http_request \<Rightarrow>
     (('w, 'u, 'c, 's) feed, 'se feed_error, unit) io" where
  "process_task_request E T request =
     io_bind (io_map_err RequestFailed (on_feed_http (execute E request))) (\<lambda>res.
     io_bind (io_map_err RequestFailed
         (on_feed_http (response_json E (json_tasks_result E) (json_error_response E) res))) (\<lambda>res.
     io_bind (io_lift (map_err RequestRefused res)) (\<lambda>res.
       if gt_tasks res = [] then io_ok ()
       else
         let last_task_item_id = ti_id (last (gt_tasks res))
         in io_bind (send_all (gt_tasks res)) (\<lambda>_.
              io_map_err StateFailed (on_feed_state (set_latest_queried_task_id T last_task_item_id))))))"

subsection \<open>The loop and its consumer\<close>

datatype feed_event = PollTick | Completed nat | Take | Processed

definition remove_at :: "nat \<Rightarrow> 'a list \<Rightarrow> 'a list" where
  "remove_at i xs = take i xs @ drop (Suc i) xs"

text \<open>The results of \<open>internal\<close> and of the requests are only logged.\<close>

fun feed_do ::
  "('w, 'u, 'c, 'r, 'i, 't) http_env \<Rightarrow> ('s, 'se) task_state \<Rightarrow> ('u, 'i) component_config \<Rightarrow>
     ('u, 'c) amplifier_api_client \<Rightarrow> feed_event \<Rightarrow> ('w, 'u, 'c, 's) feed \<Rightarrow> ('w, 'u, 'c, 's) feed option" where
  "feed_do E T config client PollTick st = Some (snd (feed_internal E T config client st))"
| "feed_do E T config client (Completed i) st =
     (if i < length (fd_join_set st)
      then Some (snd (process_task_request E T (fd_join_set st ! i)
                        (st\<lparr>fd_join_set := remove_at i (fd_join_set st)\<rparr>)))
      else None)"
| "feed_do E T config client Take st =
     (case fd_channel st of
        t # rest \<Rightarrow> Some (st\<lparr>fd_channel := rest, fd_taken := fd_taken st @ [t]\<rparr>)
      | [] \<Rightarrow> None)"
| "feed_do E T config client Processed st =
     (if fd_taken st = [] then None
      else Some (snd (on_feed_state (set_latest_processed_task_id T (ti_id (last (fd_taken st)))) st)))"

fun feed_run ::
  "('w, 'u, 'c, 'r, 'i, 't) http_env \<Rightarrow> ('s, 'se) task_state \<Rightarrow> ('u, 'i) component_config \<Rightarrow>
     ('u, 'c) amplifier_api_client \<Rightarrow> feed_event list \<Rightarrow> ('w, 'u, 'c, 's) feed \<Rightarrow> ('w, 'u, 'c, 's) feed option" where
  "feed_run E T config client [] st = Some st"
| "feed_run E T config client (e # es) st =
     (case feed_do E T config client e st of Some st' \<Rightarrow> feed_run E T config client es st' | None \<Rightarrow> None)"

text \<open>Runs in which no tick happens while a request is under way.\<close>

inductive calm_steps ::
  "('w, 'u, 'c, 'r, 'i, 't) http_env \<Rightarrow> ('s, 'se) task_state \<Rightarrow> ('u, 'i) component_config \<Rightarrow>
     ('u, 'c) amplifier_api_client \<Rightarrow> ('w, 'u, 'c, 's) feed \<Rightarrow> ('w, 'u, 'c, 's) feed \<Rightarrow> bool"
  for E T config client where
  none: "calm_steps E T config client s s"
| more: "calm_steps E T config client s t \<Longrightarrow> feed_do E T config client e t = Some u \<Longrightarrow>
     (case e of PollTick \<Rightarrow> fd_join_set t = [] | _ \<Rightarrow> True) \<Longrightarrow> calm_steps E T config client s u"

subsection \<open>What is relied on of the API\<close>

text \<open>An API that answers a query with an initial part of the tasks after the id it names (it may
  limit them, and the later ones may not exist yet).\<close>

definition api_serves ::
  "('w, 'u, 'c, 'r, 'i, 't) http_env \<Rightarrow> ('u, 'i) component_config \<Rightarrow> ('u, 'c) amplifier_api_client \<Rightarrow>
     task_item list \<Rightarrow> bool" where
  "api_serves E config client tasks \<longleftrightarrow>
     (\<forall>q req w r w1 res w2.
        build_request client (get_chains_request E (feed_query config q)) = Inr req \<longrightarrow>
        http_execute E req w = (Inr r, w1) \<longrightarrow>
        response_json E (json_tasks_result E) (json_error_response E) r w1 = (Inr (Inr res), w2) \<longrightarrow>
        (\<exists>k. gt_tasks res = take k (tasks_after q tasks)))"

subsection \<open>Invariant of a calm run\<close>

definition sent_tasks :: "('w, 'u, 'c, 's) feed \<Rightarrow> task_item list" where
  "sent_tasks s = fd_taken s @ fd_channel s"

definition feed_ok ::
  "('w, 'u, 'c, 'r, 'i, 't) http_env \<Rightarrow> ('s, 'se) task_state \<Rightarrow> ('u, 'i) component_config \<Rightarrow>
     ('u, 'c) amplifier_api_client \<Rightarrow> task_item_id option \<Rightarrow> task_item list \<Rightarrow> ('w, 'u, 'c, 's) feed \<Rightarrow> bool" where
  "feed_ok E T config client p tasks s \<longleftrightarrow>
     (\<exists>k. sent_tasks s = take k (tasks_after p tasks)) \<and>
     latest_queried_task_id T (fd_state s) = cursor_after p (sent_tasks s) \<and>
     (fd_join_set s = [] \<or>
      (\<exists>req. fd_join_set s = [req] \<and>
         build_request client (get_chains_request E
           (feed_query config (latest_queried_task_id T (fd_state s)))) = Inr req))"

lemma feed_internal_ok:
  assumes "feed_ok E T config client p tasks s" "fd_join_set s = []"
  shows "feed_ok E T config client p tasks (snd (feed_internal E T config client s))"
  using assms by (auto simp: feed_ok_def feed_internal_def sent_tasks_def Let_def split: sum.splits)

lemma process_task_request_cases:
  assumes "process_task_request E T req s = (r, s')" "task_state_ok T"
  obtains (unsent) w where "s' = s\<lparr>fd_http := w\<rparr>"
  | (sent) resp w1 res w2 st where "http_execute E req (fd_http s) = (Inr resp, w1)"
      "response_json E (json_tasks_result E) (json_error_response E) resp w1 = (Inr (Inr res), w2)"
      "gt_tasks res \<noteq> []"
      "s' = s\<lparr>fd_http := w2, fd_channel := fd_channel s @ gt_tasks res, fd_state := st\<rparr>"
      "latest_queried_task_id T st = Some (ti_id (last (gt_tasks res)))"
proof -
  obtain resp0 w0 where exec: "http_execute E req (fd_http s) = (resp0, w0)" by force
  show thesis
  proof (cases resp0)
    case (Inl e)
    with assms(1) exec have "s' = s\<lparr>fd_http := w0\<rparr>"
      by (auto simp: process_task_request_def execute_def io_bind_def io_map_err_def on_feed_http_def)
    then show thesis by (rule unsent)
  next
    case resp: (Inr resp)
    obtain res0 w2 where json: "response_json E (json_tasks_result E) (json_error_response E) resp w0 = (res0, w2)"
      by force
    note run = assms(1) [unfolded process_task_request_def execute_def io_bind_def io_map_err_def
        on_feed_http_def io_lift_def Let_def]
    show thesis
    proof (cases "\<exists>res. res0 = Inr (Inr res) \<and> gt_tasks res \<noteq> [] \<and> fd_receiver_alive s")
      case False
      with run exec resp json have "s' = s\<lparr>fd_http := w2\<rparr>"
        by (auto simp: send_all_def io_ok_def split: sum.splits if_splits)
      then show thesis by (rule unsent)
    next
      case True
      then obtain res where res: "res0 = Inr (Inr res)" "gt_tasks res \<noteq> []" "fd_receiver_alive s" by blast
      obtain q st where set: "set_latest_queried_task_id T (ti_id (last (gt_tasks res))) (fd_state s) = (q, st)"
        by force
      from run exec resp json res set have "s' = s\<lparr>fd_http := w2, fd_channel := fd_channel s @ gt_tasks res, fd_state := st\<rparr>"
        by (auto simp: send_all_def on_feed_state_def)
      then show thesis
        using sent [of resp w0 res w2 st] exec resp json res task_state_queriedD [OF assms(2) set] by simp
    qed
  qed
qed

lemma completed_ok:
  assumes "task_state_ok T" "api_serves E config client tasks" "distinct (map ti_id tasks)"
    and "feed_ok E T config client p tasks s" "fd_join_set s = [req]"
  shows "feed_ok E T config client p tasks (snd (process_task_request E T req (s\<lparr>fd_join_set := []\<rparr>)))"
proof -
  from assms(4) obtain k where k: "sent_tasks s = take k (tasks_after p tasks)"
    by (auto simp: feed_ok_def)
  have cursor: "latest_queried_task_id T (fd_state s) = cursor_after p (sent_tasks s)"
    and built: "build_request client (get_chains_request E
      (feed_query config (latest_queried_task_id T (fd_state s)))) = Inr req"
    using assms(4,5) by (auto simp: feed_ok_def)
  obtain r s' where run: "process_task_request E T req (s\<lparr>fd_join_set := []\<rparr>) = (r, s')" by force
  from run assms(1) have "feed_ok E T config client p tasks s'"
  proof (cases rule: process_task_request_cases)
    case (unsent w)
    with k cursor show ?thesis by (auto simp: feed_ok_def sent_tasks_def)
  next
    case (sent resp w1 res w2 st)
    from assms(2) built sent(1,2) obtain j
      where "gt_tasks res = take j (tasks_after (cursor_after p (sent_tasks s)) tasks)"
      unfolding api_serves_def cursor [symmetric] by (metis feed.select_convs(1) feed.surjective feed.update_convs(5))
    then have j: "gt_tasks res = take j (if sent_tasks s = [] then tasks_after p tasks else drop k (tasks_after p tasks))"
      by (simp only: tasks_after_cursor [OF assms(3) k])
    have "sent_tasks s' = sent_tasks s @ gt_tasks res"
      by (simp add: sent(4) sent_tasks_def)
    moreover have "\<exists>m. sent_tasks s @ gt_tasks res = take m (tasks_after p tasks)"
    proof (cases "sent_tasks s = []")
      case False
      then have "sent_tasks s @ gt_tasks res = take (k + j) (tasks_after p tasks)"
        by (simp add: j k take_add)
      then show ?thesis by blast
    qed (auto simp: j)
    ultimately show ?thesis
      using sent(3-5) by (auto simp: feed_ok_def cursor_after_def)
  qed
  then show ?thesis by (simp add: run)
qed

lemma feed_ok_step:
  assumes "task_state_ok T" "api_serves E config client tasks" "distinct (map ti_id tasks)"
    and "feed_ok E T config client p tasks s" "feed_do E T config client e s = Some t"
    and "case e of PollTick \<Rightarrow> fd_join_set s = [] | _ \<Rightarrow> True"
  shows "feed_ok E T config client p tasks t"
proof (cases e)
  case PollTick
  with assms feed_internal_ok [OF assms(4)] show ?thesis by auto
next
  case (Completed i)
  with assms(5) have i: "i < length (fd_join_set s)" by (auto split: if_splits)
  with assms(4) obtain req where "fd_join_set s = [req]" by (auto simp: feed_ok_def)
  with completed_ok [OF assms(1-4) this] Completed assms(5) i show ?thesis
    by (simp add: remove_at_def)
next
  case Take
  with assms(4,5) show ?thesis
    by (auto simp: feed_ok_def sent_tasks_def split: list.splits)
next
  case Processed
  obtain r st where set: "set_latest_processed_task_id T (ti_id (last (fd_taken s))) (fd_state s) = (r, st)"
    by force
  with Processed assms(5) have "t = s\<lparr>fd_state := st\<rparr>"
    by (auto simp: on_feed_state_def split: if_splits)
  with assms(4) task_state_processedD [OF assms(1) set] show ?thesis
    by (auto simp: feed_ok_def sent_tasks_def)
qed

lemma feed_ok_calm:
  assumes "task_state_ok T" "api_serves E config client tasks" "distinct (map ti_id tasks)"
    and "calm_steps E T config client s t" "feed_ok E T config client p tasks s"
  shows "feed_ok E T config client p tasks t"
  using assms(4,5) by (induction rule: calm_steps.induct) (auto intro: feed_ok_step [OF assms(1-3)])

subsection \<open>A feed in memory\<close>

text \<open>The API of \<open>Api_Client\<close> with the tasks 1, 2 and 3; an id is written in unary.\<close>

fun memory_feed_body :: "(string \<times> string) list \<Rightarrow> bytes" where
  "memory_feed_body ((k, v) # qs) =
     (if k = ''after'' then (if length v = 1 then [2, 3] else if length v = 2 then [3] else []) else [1, 2, 3])"
| "memory_feed_body [] = [1, 2, 3]"

definition memory_feed_http :: "(memory_api, memory_url, unit, nat \<times> bytes, unit, unit) http_env" where
  "memory_feed_http = memory_http
     \<lparr>uuid_hyphenated := (\<lambda>u. replicate (unat u) CHR ''i''),
      http_execute := (\<lambda>r w. (Inr (200, memory_feed_body (snd (hr_url r))), w\<lparr>ma_seen := ma_seen w @ [r]\<rparr>))\<rparr>"

definition memory_feed_tasks :: "task_item list" where
  "memory_feed_tasks = map memory_task_item [1, 2, 3]"

definition memory_feed_config :: "(memory_url, unit) component_config" where
  "memory_feed_config =
     \<lparr>cf_identity = Some (), cf_tls_public_certificate = None, cf_url = ([''v1'', []], []), cf_chain = ''solana'',
      cf_get_chains_poll_interval = default_get_chains_poll_interval,
      cf_get_chains_limit = default_get_chains_limit, cf_healthcheck_interval = default_healthcheck_interval,
      cf_invalid_healthchecks_before_shutdown = default_invalid_healthchecks_before_shutdown\<rparr>"

definition memory_feed_client :: "(memory_url, unit) amplifier_api_client" where
  "memory_feed_client = \<lparr>ac_inner = (), ac_url = ([''v1'', []], [])\<rparr>"

definition memory_task_state :: "(task_item_id option \<times> task_item_id option, string) task_state" where
  "memory_task_state =
     \<lparr>latest_processed_task_id = fst, latest_queried_task_id = snd,
      set_latest_processed_task_id = (\<lambda>i s. (Inr (), (Some i, snd s))),
      set_latest_queried_task_id = (\<lambda>i s. (Inr (), (fst s, Some i)))\<rparr>"

definition memory_feed ::
  "task_item_id option \<times> task_item_id option \<Rightarrow>
     (memory_api, memory_url, unit, task_item_id option \<times> task_item_id option) feed" where
  "memory_feed s =
     \<lparr>fd_http = \<lparr>ma_seen = [], ma_replies = []\<rparr>, fd_state = s, fd_channel = [], fd_receiver_alive = True,
      fd_join_set = [], fd_taken = []\<rparr>"

abbreviation memory_feed_run where
  "memory_feed_run \<equiv> feed_run memory_feed_http memory_task_state memory_feed_config memory_feed_client"

lemma memory_task_state_ok: "task_state_ok memory_task_state"
  by (simp add: task_state_ok_def memory_task_state_def)

lemma memory_feed_request:
  "build_request memory_feed_client (get_chains_request memory_feed_http (feed_query memory_feed_config q)) =
     Inr \<lparr>hr_client = (), hr_method = GET,
       hr_url = ([''v1'', ''chains'', ''solana'', ''tasks''],
         (case q of None \<Rightarrow> [] | Some i \<Rightarrow> [(''after'', replicate (unat (task_item_uuid i)) CHR ''i'')]) @
         [(''limit'', dec_nat 4)]),
       hr_body = []\<rparr>"
  by (simp add: build_request_def get_chains_request_def get_chains_path_def feed_query_def memory_feed_client_def
      memory_feed_http_def memory_feed_config_def memory_http_def with_trailing_slash_new_def append_opt_def
      default_get_chains_limit_def Let_def split: option.split)

lemma memory_feed_response:
  "http_execute memory_feed_http req w = (Inr (200, memory_feed_body (snd (hr_url req))), w\<lparr>ma_seen := ma_seen w @ [req]\<rparr>)"
  "response_json memory_feed_http (json_tasks_result memory_feed_http) (json_error_response memory_feed_http) (200, body) w =
     (Inr (Inr \<lparr>gt_tasks = map memory_task_item body\<rparr>), w)"
  by (simp_all add: memory_feed_http_def memory_http_def response_json_def io_bind_def io_map_err_def is_success_def io_defs)

lemma memory_feed_after:
  "tasks_after q memory_feed_tasks = map memory_task_item
     (case q of None \<Rightarrow> [1, 2, 3] | Some i \<Rightarrow>
        if unat (task_item_uuid i) = 1 then [2, 3] else if unat (task_item_uuid i) = 2 then [3] else [])"
proof (cases q)
  case (Some i)
  obtain u where i: "i = TaskItemId u" by (cases i)
  have "unat u = 1 \<longleftrightarrow> u = 1" "unat u = 2 \<longleftrightarrow> u = 2"
    by (auto simp: word_unat_eq_iff)
  then show ?thesis
    by (auto simp: Some i tasks_after_def memory_feed_tasks_def memory_task_item_def)
qed (simp add: tasks_after_def memory_feed_tasks_def)

lemma memory_api_serves: "api_serves memory_feed_http memory_feed_config memory_feed_client memory_feed_tasks"
  unfolding api_serves_def memory_feed_request memory_feed_after
  by (auto simp: memory_feed_response split: option.splits intro!: exI [of _ 3])

lemma memory_feed_distinct: "distinct (map ti_id memory_feed_tasks)"
  by (simp add: memory_feed_tasks_def memory_task_item_def)

fun calm_run ::
  "('w, 'u, 'c, 'r, 'i, 't) http_env \<Rightarrow> ('s, 'se) task_state \<Rightarrow> ('u, 'i) component_config \<Rightarrow>
     ('u, 'c) amplifier_api_client \<Rightarrow> feed_event list \<Rightarrow> ('w, 'u, 'c, 's) feed \<Rightarrow> ('w, 'u, 'c, 's) feed option" where
  "calm_run E T config client [] s = Some s"
| "calm_run E T config client (e # es) s =
     (if (case e of PollTick \<Rightarrow> fd_join_set s = [] | _ \<Rightarrow> True)
      then case feed_do E T config client e s of Some t \<Rightarrow> calm_run E T config client es t | None \<Rightarrow> None
      else None)"

lemma calm_steps_run:
  "calm_steps E T config client r s \<Longrightarrow> calm_run E T config client es s = Some t \<Longrightarrow> calm_steps E T config client r t"
proof (induction es arbitrary: s)
  case (Cons e es)
  then obtain u where "feed_do E T config client e s = Some u" "calm_run E T config client es u = Some t"
    "case e of PollTick \<Rightarrow> fd_join_set s = [] | _ \<Rightarrow> True"
    by (auto split: option.splits if_splits)
  with Cons show ?case by (blast intro: calm_steps.more)
qed simp

subsection \<open>Properties\<close>



text \<open>A tick that falls into the time of a request starts a second one for the same tasks, as
  nothing records that the first is under way: the consumer then receives every task twice.\<close>

theorem overlapping_polls_duplicate:
  "map_option (\<lambda>t. map ti_id (fd_channel t))
     (memory_feed_run [PollTick, PollTick, Completed 0, Completed 0] (memory_feed (None, None))) =
   Some (map ti_id (memory_feed_tasks @ memory_feed_tasks))"
  by (simp add: feed_internal_def memory_feed_request memory_feed_response process_task_request_def execute_def
      io_bind_def io_map_err_def on_feed_http_def on_feed_state_def io_lift_def io_ok_def remove_at_def
      memory_feed_def memory_task_state_def memory_feed_tasks_def send_all_def Let_def)

text \<open>C32: A component that was stopped after its first query and before any task was processed
  does not recover when it is started again: the stored ids differ, the startup does not align
  them, and no tick ever asks for tasks.\<close>

theorem unprocessed_first_batch_blocks:
  assumes "latest_processed_task_id T (fd_state s) = None" "latest_queried_task_id T (fd_state s) = Some i"
    and "fd_taken s @ fd_channel s = []" "fd_join_set s = []"
    and "feed_run E T config client events (snd (feed_startup T s)) = Some t"
  shows "t = s"
proof -
  have start: "snd (feed_startup T s) = s"
    using assms(1) by (simp add: feed_startup_def)
  have stuck: "feed_do E T config client e s = Some u \<Longrightarrow> u = s" for e u
    using assms(1-4) by (cases e) (auto simp: feed_internal_def)
  have "feed_run E T config client events s = Some t \<Longrightarrow> t = s"
    by (induction events) (auto split: option.splits dest!: stuck)
  with assms(5) start show ?thesis by simp
qed

theorem unprocessed_first_batch_blocks_witness:
  "\<exists>s. feed_run memory_feed_http memory_task_state memory_feed_config memory_feed_client [PollTick, PollTick]
      (snd (feed_startup memory_task_state (memory_feed (None, Some (TaskItemId 3))))) = Some s \<and>
    s = memory_feed (None, Some (TaskItemId 3))"
proof -
  let ?s = "memory_feed (None, Some (TaskItemId 3))"
  obtain t where run: "feed_run memory_feed_http memory_task_state memory_feed_config memory_feed_client
      [PollTick, PollTick] (snd (feed_startup memory_task_state ?s)) = Some t" by simp
  from unprocessed_first_batch_blocks [OF _ _ _ _ run, of "TaskItemId 3"] have "t = ?s"
    by (simp add: memory_feed_def memory_task_state_def)
  with run show ?thesis by blast
qed

end
