(* ===== verification/Amplifier_Component.thy ===== *)
theory Amplifier_Component
  imports Component_Config Failure_Count Api_Display "HOL-Library.Multiset"
begin

text \<open>
  The other parts of the Amplifier component: the health check (\<open>healthcheck.rs\<close>), the half
  that sends events to the API (\<open>to_amplifier.rs\<close>) and the component that runs all of them
  (\<open>component.rs\<close>).
\<close>

subsection \<open>Health check\<close>

datatype health_end =
    HealthNotBuilt amplifier_api_error
  | HealthNotSent amplifier_api_error
  | CannotReach

definition healthcheck_round ::
  "('w, 'u, 'c, 'r, 'i, 't) http_env \<Rightarrow> ('u, 'c) amplifier_api_client \<Rightarrow> ('w, health_end, bool) io" where
  "healthcheck_round E client =
     io_bind (io_lift (map_err HealthNotBuilt (build_request client (health_check_request E)))) (\<lambda>request.
     io_bind (io_map_err HealthNotSent (execute E request)) (\<lambda>response.
       io_ok (\<not> isl (response_ok E response))))"

text \<open>\<open>process_healthcheck\<close> over a number of ticks: how it ended, if it did, and its checks.\<close>

fun healthcheck_loop ::
  "('w, 'u, 'c, 'r, 'i, 't) http_env \<Rightarrow> ('u, 'c) amplifier_api_client \<Rightarrow> u64 \<Rightarrow> nat \<Rightarrow> u64 \<Rightarrow> 'w \<Rightarrow>
     health_end option \<times> 'w \<times> bool list" where
  "healthcheck_loop E client limit 0 failures w = (None, w, [])"
| "healthcheck_loop E client limit (Suc ticks) failures w =
     (case healthcheck_round E client w of
        (Inl err, w1) \<Rightarrow> (Some err, w1, [])
      | (Inr succeeded, w1) \<Rightarrow>
          let (failures, stop) = count_error limit succeeded failures
          in if stop then (Some CannotReach, w1, [succeeded])
             else let (ended, w2, checks) = healthcheck_loop E client limit ticks failures w1
                  in (ended, w2, succeeded # checks))"

definition process_healthcheck ::
  "('w, 'u, 'c, 'r, 'i, 't) http_env \<Rightarrow> ('u, 'i) component_config \<Rightarrow> ('u, 'c) amplifier_api_client \<Rightarrow>
     nat \<Rightarrow> 'w \<Rightarrow> health_end option \<times> 'w \<times> bool list" where
  "process_healthcheck E config client ticks w =
     healthcheck_loop E client (cf_invalid_healthchecks_before_shutdown config) ticks 0 w"

lemma healthcheck_round_not_reach: "fst (healthcheck_round E client w) \<noteq> Inl CannotReach"
  by (auto simp: healthcheck_round_def io_bind_def io_map_err_def io_lift_def io_ok_def map_err_def
      split: prod.split sum.split)

lemma healthcheck_loop_counted:
  assumes "unat c < threshold limit" "healthcheck_loop E client limit ticks c w = (ended, w', checks)"
  shows "counted limit c checks (ended = Some CannotReach) \<and> (ended \<noteq> None \<or> length checks = ticks)"
  using assms
proof (induction ticks arbitrary: c w ended w' checks)
  case 0
  then show ?case by (simp add: counted_Nil)
next
  case (Suc ticks)
  obtain r w1 where r: "healthcheck_round E client w = (r, w1)" by force
  show ?case
  proof (cases r)
    case (Inl err)
    with r healthcheck_round_not_reach [of E client w] Suc.prems show ?thesis
      by (auto simp: counted_Nil)
  next
    case (Inr ok)
    obtain c' stop where count: "count_error limit ok c = (c', stop)" by force
    note step = counted_step [OF Suc.prems(1) count]
    show ?thesis
    proof (cases stop)
      case True
      with Suc.prems(2) r Inr count step(1) show ?thesis by auto
    next
      case False
      obtain g w2 rs where rest: "healthcheck_loop E client limit ticks c' w1 = (g, w2, rs)"
        using prod_cases3 by blast
      with Suc.IH [OF step(2) [OF False] rest] step(3) [OF False] Suc.prems(2) r Inr count False
      show ?thesis by auto
    qed
  qed
qed

lemma healthcheck_loop_length: "length (snd (snd (healthcheck_loop E client limit ticks c w))) \<le> ticks"
  by (induction ticks arbitrary: c w) (auto split: prod.split sum.split, metis snd_conv)

subsection \<open>Sending events\<close>

text \<open>
  The commands wait in an unbounded channel; each becomes a request that runs as a task of its
  own.  \<open>ob_posted\<close> and \<open>ob_aborted\<close> record the requests that ended and those that were
  aborted, \<open>ob_unbuilt\<close> counts the commands whose request could not be built.
\<close>

datatype outbox_error =
    EventNotBuilt amplifier_api_error
  | EventFailed amplifier_api_error
  | EventRefused error_response

record ('w, 'u, 'c) outbox =
  ob_http :: 'w
  ob_commands :: "amplifier_command list"
  ob_closed :: bool
  ob_join_set :: "('u, 'c) http_request list"
  ob_ended :: bool
  ob_posted :: "('u, 'c) http_request list"
  ob_aborted :: "('u, 'c) http_request list"
  ob_unbuilt :: nat

definition command_request ::
  "('w, 'u, 'c, 'r, 'i, 't) http_env \<Rightarrow> ('u, 'i) component_config \<Rightarrow> ('u, 'c) amplifier_api_client \<Rightarrow>
     amplifier_command \<Rightarrow> amplifier_api_error + ('u, 'c) http_request" where
  "command_request E config client command =
     (case command of
        PublishEvents events \<Rightarrow>
          build_request client (post_events_request E
            \<lparr>pe_chain = with_trailing_slash_new (cf_chain config), pe_payload = events\<rparr>))"

definition outbox_internal ::
  "('w, 'u, 'c, 'r, 'i, 't) http_env \<Rightarrow> ('u, 'i) component_config \<Rightarrow> ('u, 'c) amplifier_api_client \<Rightarrow>
     amplifier_command \<Rightarrow> (('w, 'u, 'c) outbox, outbox_error, unit) io" where
  "outbox_internal E config client command st =
     (case command_request E config client command of
        Inl err \<Rightarrow> (Inl (EventNotBuilt err), st\<lparr>ob_unbuilt := Suc (ob_unbuilt st)\<rparr>)
      | Inr request \<Rightarrow> (Inr (), st\<lparr>ob_join_set := ob_join_set st @ [request]\<rparr>))"

text \<open>The result items of a response are only logged.\<close>

definition process_publish_events_request ::
  "('w, 'u, 'c, 'r, 'i, 't) http_env \<Rightarrow> ('u, 'c) http_request \<Rightarrow> ('w, outbox_error, unit) io" where
  "process_publish_events_request E request =
     io_bind (io_map_err EventFailed (execute E request)) (\<lambda>res.
     io_bind (io_map_err EventFailed
         (response_json E (json_events_result E) (json_error_response E) res)) (\<lambda>res.
     io_bind (io_lift (map_err EventRefused res)) (\<lambda>res. io_ok ())))"

text \<open>
  One atomic action: a client sends a command or drops the last sender; the loop takes a
  command, notices the closed channel and aborts what is under way, or notices in addition that
  nothing is left; a request ends.
\<close>

datatype outbox_event = SendCommand amplifier_command | DropSender | PollCommand | PollClosed | PostDone nat

fun outbox_do ::
  "('w, 'u, 'c, 'r, 'i, 't) http_env \<Rightarrow> ('u, 'i) component_config \<Rightarrow> ('u, 'c) amplifier_api_client \<Rightarrow>
     outbox_event \<Rightarrow> ('w, 'u, 'c) outbox \<Rightarrow> ('w, 'u, 'c) outbox option" where
  "outbox_do E config client (SendCommand command) st =
     (if ob_closed st then None else Some (st\<lparr>ob_commands := ob_commands st @ [command]\<rparr>))"
| "outbox_do E config client DropSender st = (if ob_closed st then None else Some (st\<lparr>ob_closed := True\<rparr>))"
| "outbox_do E config client PollCommand st =
     (case ob_commands st of
        command # rest \<Rightarrow>
          if ob_ended st then None
          else Some (snd (outbox_internal E config client command (st\<lparr>ob_commands := rest\<rparr>)))
      | [] \<Rightarrow> None)"
| "outbox_do E config client PollClosed st =
     (if ob_closed st \<and> ob_commands st = [] \<and> \<not> ob_ended st
      then Some (st\<lparr>ob_aborted := ob_aborted st @ ob_join_set st, ob_join_set := [],
                   ob_ended := (ob_join_set st = [])\<rparr>)
      else None)"
| "outbox_do E config client (PostDone i) st =
     (if i < length (ob_join_set st)
      then Some (st\<lparr>ob_http := snd (process_publish_events_request E (ob_join_set st ! i) (ob_http st)),
                   ob_join_set := take i (ob_join_set st) @ drop (Suc i) (ob_join_set st),
                   ob_posted := ob_posted st @ [ob_join_set st ! i]\<rparr>)
      else None)"

inductive outbox_steps ::
  "('w, 'u, 'c, 'r, 'i, 't) http_env \<Rightarrow> ('u, 'i) component_config \<Rightarrow> ('u, 'c) amplifier_api_client \<Rightarrow>
     amplifier_command list \<Rightarrow> ('w, 'u, 'c) outbox \<Rightarrow> ('w, 'u, 'c) outbox \<Rightarrow> bool"
  for E config client where
  none: "outbox_steps E config client [] s s"
| more: "outbox_steps E config client sent s t \<Longrightarrow> outbox_do E config client e t = Some u \<Longrightarrow>
     outbox_steps E config client (case e of SendCommand command \<Rightarrow> sent @ [command] | _ \<Rightarrow> sent) s u"

definition outbox_start :: "'w \<Rightarrow> ('w, 'u, 'c) outbox" where
  "outbox_start w =
     \<lparr>ob_http = w, ob_commands = [], ob_closed = False, ob_join_set = [], ob_ended = False, ob_posted = [],
      ob_aborted = [], ob_unbuilt = 0\<rparr>"

subsection \<open>The component\<close>

definition amplifier_command_display :: "display_env \<Rightarrow> amplifier_command \<Rightarrow> string" where
  "amplifier_command_display D command =
     (case command of
        PublishEvents request \<Rightarrow>
          writeln ''AmplifierCommand::PublishEvents:'' @ writeln ''  request:'' @
          concat (map (\<lambda>line. writeln (''    '' @ line)) (lines (publish_events_request_display D request))))"

record ('u, 'i, 's) amplifier =
  am_config :: "('u, 'i) component_config"
  am_receiver :: "amplifier_command list"
  am_sender :: "task_item list"
  am_state :: 's

definition amplifier_new :: "('u, 'i) component_config \<Rightarrow> 's \<Rightarrow> ('u, 'i, 's) amplifier" where
  "amplifier_new config state =
     \<lparr>am_config = config, am_receiver = [], am_sender = [], am_state = state\<rparr>"

datatype 'e component_error =
    IdentityNotSet
  | ClientNotBuilt amplifier_api_error
  | ClockFailed ext_error
  | TaskFailed 'e
  | ListenerCrashed

text \<open>
  \<open>get_clock\<close>: the upkeep thread of the clock is started (\<open>start\<close>, of the library \<open>quanta\<close>) and its handle
  is put into a static cell, unless another upkeep thread runs.  \<open>expect\<close> panics when the cell is taken.
\<close>

datatype upkeep_error = UpkeepRunning | FailedToSpawnUpkeepThread ext_error

datatype clock_failure = CouldNotSpawn | HandlePanic

definition get_clock :: "('w \<Rightarrow> (upkeep_error + 'h) \<times> 'w) \<Rightarrow> ('h option \<times> 'w, clock_failure, unit) io" where
  "get_clock start = (\<lambda>(handle, w).
     case start w of
       (Inr h, w') \<Rightarrow> (case handle of None \<Rightarrow> (Inr (), (Some h, w')) | Some _ \<Rightarrow> (Inl HandlePanic, (handle, w')))
     | (Inl (FailedToSpawnUpkeepThread e), w') \<Rightarrow> (Inl CouldNotSpawn, (handle, w'))
     | (Inl UpkeepRunning, w') \<Rightarrow> (Inr (), (handle, w')))"

text \<open>As a handle that is kept keeps its thread running, and no second thread is started then, the
  cell is never found taken, however often the clock is asked for.\<close>

lemma get_clock_never_panics:
  assumes "\<And>w r w'. start w = (r, w') \<Longrightarrow> (running w \<longrightarrow> r = Inl UpkeepRunning \<and> running w') \<and> (\<not> isl r \<longrightarrow> running w')"
    and "handle \<noteq> None \<longrightarrow> running w" "get_clock start (handle, w) = (r, (handle', w'))"
  shows "r \<noteq> Inl HandlePanic" "handle' \<noteq> None \<longrightarrow> running w'"
  using assms(2,3) assms(1) [of w "fst (start w)" "snd (start w)"]
  by (auto simp: get_clock_def split: prod.splits sum.splits upkeep_error.splits option.splits)

text \<open>
  \<open>process_internal\<close>: \<open>clock\<close> is the result of the set-up of the clock's thread, and \<open>race\<close> the result of
  whichever of the three tasks ends first.
\<close>

definition process_internal ::
  "('w, 'u, 'c, 'r, 'i, 't) http_env \<Rightarrow> (ext_error + unit) \<Rightarrow> (('u, 'c) amplifier_api_client \<Rightarrow> 'e + unit) \<Rightarrow>
     ('u, 'i, 's) amplifier \<Rightarrow> 'e component_error + unit" where
  "process_internal E clock race a =
     res_bind (ok_or IdentityNotSet (cf_identity (am_config a))) (\<lambda>identity.
     res_bind (map_err ClientNotBuilt
         (amplifier_client_new E (cf_url (am_config a)) (Certificate identity))) (\<lambda>client.
     res_bind (map_err ClockFailed clock) (\<lambda>_.
     res_bind (map_err TaskFailed (race client)) (\<lambda>_. Inl ListenerCrashed))))"

subsection \<open>Every command is accounted for\<close>

definition command_requests ::
  "('w, 'u, 'c, 'r, 'i, 't) http_env \<Rightarrow> ('u, 'i) component_config \<Rightarrow> ('u, 'c) amplifier_api_client \<Rightarrow>
     amplifier_command list \<Rightarrow> ('u, 'c) http_request list" where
  "command_requests E config client commands =
     concat (map (\<lambda>command. case command_request E config client command of Inr r \<Rightarrow> [r] | Inl _ \<Rightarrow> []) commands)"

definition outbox_ok ::
  "('w, 'u, 'c, 'r, 'i, 't) http_env \<Rightarrow> ('u, 'i) component_config \<Rightarrow> ('u, 'c) amplifier_api_client \<Rightarrow>
     amplifier_command list \<Rightarrow> ('w, 'u, 'c) outbox \<Rightarrow> bool" where
  "outbox_ok E config client sent s \<longleftrightarrow>
     (\<exists>taken. sent = taken @ ob_commands s \<and>
        mset (ob_posted s) + mset (ob_join_set s) + mset (ob_aborted s) = mset (command_requests E config client taken) \<and>
        ob_unbuilt s = length (filter (\<lambda>c. isl (command_request E config client c)) taken)) \<and>
     (ob_closed s \<or> ob_aborted s = [])"

lemma mset_remove_nth: "i < length xs \<Longrightarrow> add_mset (xs ! i) (mset (take i xs @ drop (Suc i) xs)) = mset xs"
  by (metis id_take_nth_drop mset.simps(2) mset_append union_mset_add_mset_right)

lemma outbox_internal_ok:
  assumes "outbox_ok E config client sent s" "ob_commands s = command # rest"
  shows "outbox_ok E config client sent
    (snd (outbox_internal E config client command (s\<lparr>ob_commands := rest\<rparr>)))"
proof -
  from assms obtain taken where "sent = (taken @ [command]) @ rest"
    "mset (ob_posted s) + mset (ob_join_set s) + mset (ob_aborted s) = mset (command_requests E config client taken)"
    "ob_unbuilt s = length (filter (\<lambda>c. isl (command_request E config client c)) taken)"
    "ob_closed s \<or> ob_aborted s = []"
    by (auto simp: outbox_ok_def)
  then show ?thesis
    by (auto simp: outbox_ok_def outbox_internal_def command_requests_def split: sum.splits
        intro!: exI [of _ "taken @ [command]"])
qed

lemma outbox_ok_step:
  assumes "outbox_ok E config client sent s" "outbox_do E config client e s = Some t"
  shows "outbox_ok E config client (case e of SendCommand command \<Rightarrow> sent @ [command] | _ \<Rightarrow> sent) t"
proof (cases e)
  case PollCommand
  with assms outbox_internal_ok [OF assms(1)] show ?thesis
    by (auto split: list.splits if_splits)
next
  case (PostDone i)
  with assms(2) have i: "i < length (ob_join_set s)"
    and t: "t = s\<lparr>ob_http := snd (process_publish_events_request E (ob_join_set s ! i) (ob_http s)),
      ob_join_set := take i (ob_join_set s) @ drop (Suc i) (ob_join_set s),
      ob_posted := ob_posted s @ [ob_join_set s ! i]\<rparr>"
    by (auto split: if_splits)
  have frame: "ob_commands t = ob_commands s" "ob_unbuilt t = ob_unbuilt s" "ob_closed t = ob_closed s"
    "ob_aborted t = ob_aborted s"
    by (simp_all add: t)
  have "mset (ob_posted t) + mset (ob_join_set t) = mset (ob_posted s) + mset (ob_join_set s)"
    unfolding t mset_remove_nth [OF i, symmetric] by simp
  with assms(1) show ?thesis
    unfolding outbox_ok_def frame PostDone by simp
qed (use assms in \<open>auto simp: outbox_ok_def ac_simps split: if_splits\<close>)

lemma outbox_ok_steps:
  "outbox_steps E config client sent s t \<Longrightarrow> outbox_ok E config client [] s \<Longrightarrow> outbox_ok E config client sent t"
  by (induction rule: outbox_steps.induct) (auto intro: outbox_ok_step)

lemma outbox_ok_start: "outbox_ok E config client [] (outbox_start w)"
  by (simp add: outbox_ok_def outbox_start_def command_requests_def)

subsection \<open>Properties\<close>

text \<open>C33: the health check of the component deems the API unreachable exactly at the first window
  of \<open>invalid_healthchecks_before_shutdown\<close> (at least one) failed checks in a row; otherwise it
  has ended for another reason or checked at every tick.\<close>

theorem healthcheck_ends_after_window:
  "case process_healthcheck E config client ticks w of (ended, w', checks) \<Rightarrow>
     (ended = Some CannotReach \<longleftrightarrow>
        failing_run (max 1 (unat (cf_invalid_healthchecks_before_shutdown config))) checks) \<and>
     \<not> failing_run (max 1 (unat (cf_invalid_healthchecks_before_shutdown config))) (butlast checks) \<and>
     (case ended of None \<Rightarrow> length checks = ticks | Some err \<Rightarrow> length checks \<le> ticks)"
  using healthcheck_loop_counted [of 0 "cf_invalid_healthchecks_before_shutdown config" E client ticks w]
    healthcheck_loop_length [of E client "cf_invalid_healthchecks_before_shutdown config" ticks 0 w]
  by (auto simp: process_healthcheck_def counted_def threshold_def split: prod.split option.split)

text \<open>A health check that gets no response at all is not counted as a failed one: the first
  request that fails ends the component, whatever number of failures is configured.\<close>

theorem healthcheck_first_network_error_ends:
  assumes "build_request client (health_check_request E) = Inr request"
    and "http_execute E request w = (Inl err, w1)"
  shows "process_healthcheck E config client (Suc ticks) w = (Some (HealthNotSent err), w1, [])"
  using assms by (simp add: process_healthcheck_def healthcheck_round_def execute_def io_bind_def
      io_map_err_def io_lift_def)

definition memory_client :: "(memory_url, unit) amplifier_api_client" where
  "memory_client = \<lparr>ac_inner = (), ac_url = ([''v1'', []], [])\<rparr>"

definition memory_component_config :: "(memory_url, unit) component_config" where
  "memory_component_config =
     \<lparr>cf_identity = Some (), cf_tls_public_certificate = None, cf_url = ([''v1'', []], []), cf_chain = ''solana'',
      cf_get_chains_poll_interval = default_get_chains_poll_interval,
      cf_get_chains_limit = default_get_chains_limit, cf_healthcheck_interval = default_healthcheck_interval,
      cf_invalid_healthchecks_before_shutdown = default_invalid_healthchecks_before_shutdown\<rparr>"

theorem healthcheck_first_network_error_ends_witness:
  "\<exists>err w1. process_healthcheck memory_http memory_component_config memory_client 5 \<lparr>ma_seen = [], ma_replies = []\<rparr> =
     (Some (HealthNotSent err), w1, [])"
proof -
  let ?w = "\<lparr>ma_seen = [], ma_replies = []\<rparr> :: memory_api"
  obtain request where request: "build_request memory_client (health_check_request memory_http) = Inr request"
    by (simp add: build_request_def health_check_request_def memory_http_def memory_client_def)
  have "http_execute memory_http request ?w = (Inl (ReqwestWithMiddleware (ExtError ''no connection'')), ?w)"
    by (simp add: memory_http_def)
  from healthcheck_first_network_error_ends [OF request this, of memory_component_config 4]
  show ?thesis by (auto simp: eval_nat_numeral)
qed

text \<open>C34: every command handed to the component is still waiting, or its request could not be
  built, or its request is under way, ended or aborted, exactly once; requests are aborted only
  after the last sender is dropped.\<close>

theorem outbox_accounts:
  assumes "outbox_steps E config client sent (outbox_start w) s"
  shows "\<exists>taken. sent = taken @ ob_commands s \<and>
    mset (ob_posted s) + mset (ob_join_set s) + mset (ob_aborted s) = mset (command_requests E config client taken) \<and>
    ob_unbuilt s = length (filter (\<lambda>c. isl (command_request E config client c)) taken) \<and>
    (ob_closed s \<or> ob_aborted s = [])"
  using outbox_ok_steps [OF assms outbox_ok_start] by (auto simp: outbox_ok_def)

definition one_event_command :: amplifier_command where
  "one_event_command = PublishEvents \<lparr>pr_events = []\<rparr>"

lemma one_event_request:
  "command_request memory_http memory_component_config memory_client one_event_command =
     Inr \<lparr>hr_client = (), hr_method = POST, hr_url = ([''v1'', ''chains'', ''solana'', ''events''], []), hr_body = []\<rparr>"
  by (simp add: command_request_def one_event_command_def build_request_def post_events_request_def
      post_events_path_def memory_http_def memory_component_config_def memory_client_def
      with_trailing_slash_new_def)

text \<open>The channel is closed behind a command: its request is aborted and never sent.\<close>

lemma closed_outbox_run:
  "\<exists>s. outbox_steps memory_http memory_component_config memory_client [one_event_command] (outbox_start w) s \<and>
     ob_ended s \<and> ob_posted s = [] \<and> length (ob_aborted s) = 1"
proof -
  let ?steps = "outbox_steps memory_http memory_component_config memory_client"
  let ?r = "\<lparr>hr_client = (), hr_method = POST, hr_url = ([''v1'', ''chains'', ''solana'', ''events''], []),
      hr_body = []\<rparr> :: (memory_url, unit) http_request"
  let ?s = "outbox_start w :: (memory_api, memory_url, unit) outbox"
  have "?steps [one_event_command] ?s (?s\<lparr>ob_commands := [one_event_command]\<rparr>)"
    using outbox_steps.more [OF outbox_steps.none, of memory_http memory_component_config memory_client
        "SendCommand one_event_command" ?s]
    by (simp add: outbox_start_def)
  from outbox_steps.more [OF this, of DropSender]
  have "?steps [one_event_command] ?s (?s\<lparr>ob_commands := [one_event_command], ob_closed := True\<rparr>)"
    by (simp add: outbox_start_def)
  from outbox_steps.more [OF this, of PollCommand]
  have "?steps [one_event_command] ?s (?s\<lparr>ob_closed := True, ob_join_set := [?r]\<rparr>)"
    by (simp add: outbox_start_def outbox_internal_def one_event_request)
  from outbox_steps.more [OF this, of PollClosed]
  have "?steps [one_event_command] ?s (?s\<lparr>ob_closed := True, ob_aborted := [?r]\<rparr>)"
    by (simp add: outbox_start_def)
  from outbox_steps.more [OF this, of PollClosed]
  have "?steps [one_event_command] ?s (?s\<lparr>ob_closed := True, ob_aborted := [?r], ob_ended := True\<rparr>)"
    by (simp add: outbox_start_def)
  then show ?thesis
    by (intro exI conjI) (auto simp: outbox_start_def)
qed

theorem outbox_accounts_witness:
  "\<exists>s. outbox_steps memory_http memory_component_config memory_client [one_event_command]
      (outbox_start \<lparr>ma_seen = [], ma_replies = []\<rparr>) s \<and> ob_ended s \<and> ob_posted s = [] \<and>
    (\<exists>taken. [one_event_command] = taken @ ob_commands s \<and> ob_unbuilt s = 0 \<and>
      mset (ob_join_set s) + mset (ob_aborted s) =
        mset (command_requests memory_http memory_component_config memory_client taken))"
proof -
  obtain s where s: "outbox_steps memory_http memory_component_config memory_client [one_event_command]
      (outbox_start \<lparr>ma_seen = [], ma_replies = []\<rparr>) s" "ob_ended s" "ob_posted s = []"
    using closed_outbox_run by blast
  obtain taken where taken: "[one_event_command] = taken @ ob_commands s"
    "mset (ob_posted s) + mset (ob_join_set s) + mset (ob_aborted s) =
      mset (command_requests memory_http memory_component_config memory_client taken)"
    "ob_unbuilt s = length (filter (\<lambda>c. isl (command_request memory_http memory_component_config memory_client c)) taken)"
    using outbox_accounts [OF s(1)] by blast
  have "set taken \<subseteq> {one_event_command}"
    using arg_cong [OF taken(1), of set] by auto
  then have "ob_unbuilt s = 0"
    using one_event_request unfolding taken(3) by (auto simp: filter_empty_conv)
  with s taken show ?thesis by auto
qed

end
