(* ===== verification/Relayer_Engine.thy ===== *)
theory Relayer_Engine
  imports Amplifier_Component
begin

text \<open>
  The relayer engine (crate \<open>relayer-engine\<close>): it spawns the components and a task that waits
  for Ctrl+C, handles the tasks as they end, and shuts all of them down at the first failure.
\<close>

subsection \<open>Configuration\<close>

record 'a engine_config =
  health_check_bind_addr :: 'a

text \<open>\<open>from_str\<close> is the parser of socket addresses of the standard library.\<close>

definition parse_health_check :: "(string \<Rightarrow> ext_error + 'a) \<Rightarrow> string \<Rightarrow> ext_error + 'a engine_config" where
  "parse_health_check from_str input = res_bind (from_str input) (\<lambda>addr. Inr \<lparr>health_check_bind_addr = addr\<rparr>)"

subsection \<open>The engine\<close>

text \<open>Task \<open>n\<close> of an engine of \<open>n\<close> components is the one that waits for the signal.\<close>

datatype 'e engine_error = ComponentError 'e | SignalFailed ext_error | CtrlCReceived

datatype 'e task_result = TaskOk | TaskErr "'e engine_error" | TaskPanicked

datatype 'e completion = ComponentDone nat "'e + unit" | ComponentPanicked nat | SignalDone "ext_error + unit"

fun completion_task :: "nat \<Rightarrow> 'e completion \<Rightarrow> nat" where
  "completion_task n (ComponentDone i r) = i"
| "completion_task n (ComponentPanicked i) = i"
| "completion_task n (SignalDone r) = n"

text \<open>The signal task fails when the signal arrives, as well as when it cannot be waited for.\<close>

fun completion_result :: "'e completion \<Rightarrow> 'e task_result" where
  "completion_result (ComponentDone i (Inr _)) = TaskOk"
| "completion_result (ComponentDone i (Inl err)) = TaskErr (ComponentError err)"
| "completion_result (ComponentPanicked i) = TaskPanicked"
| "completion_result (SignalDone (Inr _)) = TaskErr CtrlCReceived"
| "completion_result (SignalDone (Inl err)) = TaskErr (SignalFailed err)"

text \<open>
  The loop over \<open>join_next\<close>, with the tasks in the order they end: the tasks still running when
  it is left or when the order is exhausted, and whether it was left; those are then shut down.
\<close>

fun join_loop :: "nat \<Rightarrow> 'e completion list \<Rightarrow> nat list \<Rightarrow> nat list \<times> bool" where
  "join_loop n [] running = (running, running = [])"
| "join_loop n (c # cs) running =
     (if running = [] then ([], True)
      else let running = remove1 (completion_task n c) running
           in if completion_result c = TaskOk then join_loop n cs running else (running, True))"

definition spawn_tasks :: "nat \<Rightarrow> nat list" where
  "spawn_tasks n = [0..<n] @ [n]"

definition start_and_wait_for_shutdown :: "nat \<Rightarrow> 'e completion list \<Rightarrow> nat list \<times> bool" where
  "start_and_wait_for_shutdown n completions = join_loop n completions (spawn_tasks n)"

text \<open>An order in which tasks can end: each at most once, components by their numbers.\<close>

definition completions_ok :: "nat \<Rightarrow> 'e completion list \<Rightarrow> bool" where
  "completions_ok n cs \<longleftrightarrow>
     distinct (map (completion_task n) cs) \<and>
     list_all (\<lambda>c. case c of SignalDone r \<Rightarrow> True | _ \<Rightarrow> completion_task n c < n) cs"

text \<open>The ends the engine handles: up to and including the first failure.\<close>

fun handled :: "'e completion list \<Rightarrow> 'e completion list" where
  "handled [] = []"
| "handled (c # cs) = (if completion_result c = TaskOk then c # handled cs else [c])"

lemma task_ok_component: "completion_result c = TaskOk \<Longrightarrow> \<exists>i. c = ComponentDone i (Inr ())"
  by (cases c rule: completion_result.cases) auto

lemma join_loop_handled:
  assumes "completions_ok n cs" "distinct running" "n \<in> set running"
    and "completion_task n ` set cs \<subseteq> set running"
  shows "join_loop n cs running =
    (filter (\<lambda>i. i \<notin> completion_task n ` set (handled cs)) running,
     list_ex (\<lambda>c. completion_result c \<noteq> TaskOk) cs)"
  using assms
proof (induction cs arbitrary: running)
  case Nil
  then show ?case by auto
next
  case (Cons c cs)
  let ?t = "completion_task n c"
  have rest: "remove1 ?t running = filter (\<lambda>i. i \<noteq> ?t) running"
    using Cons.prems(2) by (auto simp: distinct_remove1_removeAll removeAll_filter_not_eq intro: filter_cong)
  show ?case
  proof (cases "completion_result c = TaskOk")
    case True
    then obtain i where i: "c = ComponentDone i (Inr ())" using task_ok_component by blast
    with Cons.prems(1) have "?t \<noteq> n" "?t \<notin> completion_task n ` set cs" "completions_ok n cs"
      by (auto simp: completions_ok_def)
    moreover have
      "completion_task n ` set cs \<subseteq> set (filter (\<lambda>i. i \<noteq> ?t) running)"
    proof (intro subsetI)
      fix j
      assume "j \<in> completion_task n ` set cs"
      with \<open>?t \<notin> completion_task n ` set cs\<close> Cons.prems(4)
      show "j \<in> set (filter (\<lambda>i. i \<noteq> ?t) running)" by (cases "j = ?t") auto
    qed
    ultimately have "join_loop n cs (filter (\<lambda>i. i \<noteq> ?t) running) =
        (filter (\<lambda>i. i \<notin> completion_task n ` set (handled cs)) (filter (\<lambda>i. i \<noteq> ?t) running),
         list_ex (\<lambda>c. completion_result c \<noteq> TaskOk) cs)"
      using Cons.prems(2,3) by (intro Cons.IH) auto
    with Cons.prems(3) True rest show ?thesis by (auto simp: conj_commute)
  next
    case False
    with Cons.prems(3) rest show ?thesis by auto
  qed
qed

lemma completions_range: "completions_ok n cs \<Longrightarrow> completion_task n ` set cs \<subseteq> set (spawn_tasks n)"
proof
  fix i
  assume ok: "completions_ok n cs" and "i \<in> completion_task n ` set cs"
  then obtain c where c: "c \<in> set cs" "i = completion_task n c" by blast
  with ok show "i \<in> set (spawn_tasks n)"
    by (cases c) (auto simp: completions_ok_def list_all_iff spawn_tasks_def)
qed

lemma spawn_tasks_distinct: "distinct (spawn_tasks n)" "n \<in> set (spawn_tasks n)"
  by (simp_all add: spawn_tasks_def)

lemmas engine_handled = join_loop_handled [OF _ spawn_tasks_distinct completions_range]

lemma process_internal_fails: "\<exists>err. process_internal E clock race a = Inl err"
  by (auto simp: process_internal_def res_bind_def split: sum.split)

subsection \<open>Properties\<close>

text \<open>C35: the engine leaves its loop exactly when a task has failed: a component that ends well
  stops nothing else, a component that returns an error or panics, and the signal, stop the
  whole; the tasks shut down are those that had not ended by then.\<close>

theorem engine_stops_at_first_failure:
  assumes "completions_ok n cs"
  shows "start_and_wait_for_shutdown n cs =
    (filter (\<lambda>i. i \<notin> completion_task n ` set (handled cs)) [0..<Suc n],
     list_ex (\<lambda>c. completion_result c \<noteq> TaskOk) cs)"
  unfolding start_and_wait_for_shutdown_def engine_handled [OF assms assms]
  by (simp add: spawn_tasks_def)

theorem engine_stops_at_first_failure_witness:
  "start_and_wait_for_shutdown 3 [ComponentDone 1 (Inr ()), ComponentDone 0 (Inl ''down''), SignalDone (Inr ())] =
     ([2, 3], True)"
  using engine_stops_at_first_failure
    [of 3 "[ComponentDone 1 (Inr ()), ComponentDone 0 (Inl ''down''), SignalDone (Inr ())]"]
  by (simp add: completions_ok_def upt_rec)

text \<open>C36: an engine does not outlive its Amplifier component: however that component ends, by its
  configuration, its client, or the first of its three tasks to stop, its result is an error,
  and the engine shuts down.\<close>

theorem amplifier_end_stops_engine:
  assumes "completions_ok n (cs @ [ComponentDone i (process_internal E clock race a)])"
  shows "snd (start_and_wait_for_shutdown n (cs @ [ComponentDone i (process_internal E clock race a)]))"
proof -
  obtain err where "process_internal E clock race a = Inl err"
    using process_internal_fails by blast
  then show ?thesis
    unfolding start_and_wait_for_shutdown_def engine_handled [OF assms assms] by simp
qed

theorem amplifier_end_stops_engine_witness:
  "snd (start_and_wait_for_shutdown 1 [ComponentDone 0
     (process_internal memory_http (Inr ()) (\<lambda>client. Inr () :: string + unit)
        (amplifier_new memory_component_config ()))])"
  using amplifier_end_stops_engine [of 1 "[]" 0 memory_http "Inr ()" "\<lambda>client. Inr ()"
      "amplifier_new memory_component_config ()"]
  by (simp add: completions_ok_def)

end
