(* ===== verification/Subscriber_Rounds.thy ===== *)
theory Subscriber_Rounds
  imports Subscriber Task_Feed
begin

text \<open>
  Rounds of the subscriber: what a sequence of successful runs of \<open>subscribe\<close> publishes, over a
  task queue whose last message can be peeked at, when the API serves the tasks of the chain in
  the order of their times.
\<close>

subsection \<open>What is relied on of the API\<close>

definition tasks_served ::
  "('w, 'u, 'c, 'r, 'i, 't) http_env \<Rightarrow> ('u, 'c) subscriber \<Rightarrow> task_item list \<Rightarrow> bool" where
  "tasks_served E S tasks \<longleftrightarrow>
     (\<forall>x url body w r w1 result w2.
        get_chains_path E (tasks_query S x) (ac_url (sb_client S)) = Inr url \<longrightarrow> json_unit E = Inr body \<longrightarrow>
        http_execute E \<lparr>hr_client = ac_inner (sb_client S), hr_method = GET, hr_url = url, hr_body = body\<rparr> w =
          (Inr r, w1) \<longrightarrow>
        response_json E (json_tasks_result E) (json_error_response E) r w1 = (Inr (Inr result), w2) \<longrightarrow>
        (\<exists>k. gt_tasks result = take k (tasks_after x tasks)))"

text \<open>The tasks have increasing times and no id twice.\<close>

definition in_time_order :: "task_item list \<Rightarrow> bool" where
  "in_time_order tasks \<longleftrightarrow> distinct (map ti_id tasks) \<and> sorted_wrt (<) (map ti_timestamp tasks)"

text \<open>A sequence of successful runs, with the tasks they published.\<close>

inductive rounds ::
  "('w, 'u, 'c, 'r, 'i, 't) http_env \<Rightarrow> (task_item list \<Rightarrow> task_item list) \<Rightarrow> ('q, 'e, 'x) task_publisher \<Rightarrow>
     ('u, 'c) subscriber \<Rightarrow> ('q, 'w) service_state \<Rightarrow> task_item list \<Rightarrow> ('q, 'w) service_state \<Rightarrow> bool"
  for E usort P S st where
  none: "rounds E usort P S st [] st"
| round: "rounds E usort P S st sent s \<Longrightarrow> fetch_tasks E P S s = (Inr tasks, s1) \<Longrightarrow>
     subscribe E usort P S s = (Inr (), s2) \<Longrightarrow> rounds E usort P S st (sent @ usort tasks) s2"

lemma usort_in_order:
  assumes "usort_ok usort" "sorted_wrt (<) (map ti_timestamp ts)"
  shows "usort ts = ts"
proof -
  have "inj_on ti_timestamp (set ts)" "sorted (map ti_timestamp ts)"
    using assms(2) by (auto simp: strict_sorted_iff distinct_map)
  then have "sort_key ti_timestamp ts = ts" "sort_key ti_timestamp ts = usort ts"
    using usort_okD(1,4) [OF assms(1), of ts] by (auto intro!: sort_key_inj_key_eq)
  then show ?thesis by simp
qed

lemma in_time_order_part: "in_time_order tasks \<Longrightarrow> sorted_wrt (<) (map ti_timestamp (take k (drop j (tasks_after p tasks))))"
proof -
  assume "in_time_order tasks"
  moreover obtain pre where "tasks = pre @ tasks_after p tasks" using tasks_after_suffix by blast
  ultimately have "sorted_wrt (<) (map ti_timestamp (tasks_after p tasks))"
    unfolding in_time_order_def by (metis map_append sorted_wrt_append)
  then show ?thesis by (simp add: take_map [symmetric] drop_map [symmetric] sorted_wrt_take sorted_wrt_drop)
qed

context task_queue
begin

lemma fetch_keeps_latest:
  assumes "ok p" "latest p (ss_queue s) v" "fetch_tasks E (publisher_of p) S s = (Inr ts, s1)"
  shows "latest p (ss_queue s1) v"
proof -
  from fetch_tasks_ok [OF assms(3)] obtain x q w where
    "tp_peek_last (publisher_of p) (ss_queue s) = (Inr x, q)" "s1 = s\<lparr>ss_queue := q, ss_http := w\<rparr>" by metis
  with peek_latest [OF assms(1,2), of x q] show ?thesis by (simp add: publisher_of)
qed

lemma fetch_served:
  assumes "ok p" "latest p (ss_queue s) v" "fetch_tasks E (publisher_of p) S s = (Inr ts, s1)" "tasks_served E S tasks"
  shows "\<exists>k. ts = take k (tasks_after v tasks)"
proof -
  from fetch_tasks_ok [OF assms(3)] obtain x q url body resp w1 w2 result where run:
    "tp_peek_last (publisher_of p) (ss_queue s) = (Inr x, q)"
    "get_chains_path E (tasks_query S x) (ac_url (sb_client S)) = Inr url" "json_unit E = Inr body"
    "http_execute E \<lparr>hr_client = ac_inner (sb_client S), hr_method = GET, hr_url = url, hr_body = body\<rparr>
       (ss_http s) = (Inr resp, w1)"
    "response_json E (json_tasks_result E) (json_error_response E) resp w1 = (Inr (Inr result), w2)"
    "ts = gt_tasks result" by metis
  have "x = v"
    using peek_latest [OF assms(1,2), of x q] run(1) by (simp add: publisher_of)
  with assms(4) run(2-6) show ?thesis
    unfolding tasks_served_def by blast
qed

text \<open>One more round: what is published stays an initial part, and the cursor is at its end.\<close>

lemma round_continues:
  assumes "ok p" "usort_ok usort" "tasks_served E S tasks" "in_time_order tasks"
    and "sent = take k (tasks_after v tasks)" "latest p (ss_queue s) (cursor_after v sent)"
    and "fetch_tasks E (publisher_of p) S s = (Inr ts, s1)" "subscribe E usort (publisher_of p) S s = (Inr (), s2)"
    and rec: "\<And>rs q. publish_batch p (task_batch E (usort ts)) (ss_queue s1) = (Inr rs, q) \<Longrightarrow> recorded rs"
  shows "(\<exists>k. sent @ usort ts = take k (tasks_after v tasks)) \<and> latest p (ss_queue s2) (cursor_after v (sent @ usort ts))"
proof -
  have dist: "distinct (map ti_id tasks)" using assms(4) by (simp add: in_time_order_def)
  obtain j where "ts = take j (tasks_after (cursor_after v sent) tasks)"
    using fetch_served [OF assms(1,6,7,3)] by blast
  then have ts: "ts = take j (drop (if sent = [] then 0 else k) (tasks_after v tasks))"
    by (simp add: tasks_after_cursor [OF dist assms(5)])
  with usort_in_order [OF assms(2)] in_time_order_part [OF assms(4)] have same: "usort ts = ts" by simp
  have "\<exists>m. sent @ ts = take m (tasks_after v tasks)"
  proof (cases "sent = []")
    case False
    then have "sent @ ts = take (k + j) (tasks_after v tasks)" by (simp add: ts assms(5) take_add)
    then show ?thesis by blast
  qed (auto simp: ts)
  moreover have "latest p (ss_queue s2) (cursor_after v (sent @ ts))"
  proof (cases "ts = []")
    case True
    then have "s2 = s1" using subscribe_after_fetch [OF assms(7), of usort] assms(8) same by simp
    with True fetch_keeps_latest [OF assms(1,6,7)] show ?thesis by simp
  next
    case False
    from subscribe_latest [OF assms(1,2,7) False assms(8) rec] same False show ?thesis
      by (simp add: cursor_after_def)
  qed
  ultimately show ?thesis by (simp add: same)
qed

end

subsection \<open>A chain in memory\<close>

definition memory_rounds_state :: "(memory_services publisher_state, memory_api) service_state" where
  "memory_rounds_state = memory_subscriber_state\<lparr>ss_http := \<lparr>ma_seen = [], ma_replies = []\<rparr>\<rparr>"

abbreviation memory_rounds where
  "memory_rounds \<equiv> rounds memory_feed_http (sort_key ti_timestamp) (gcp_task_publisher memory_task_peekable) memory_subscriber"

lemma memory_rounds_path:
  "get_chains_path memory_feed_http (tasks_query memory_subscriber q) (ac_url (sb_client memory_subscriber)) =
     Inr ([''v1'', ''chains'', ''solana'', ''tasks''],
       (case q of None \<Rightarrow> [] | Some i \<Rightarrow> [(''after'', replicate (unat (task_item_uuid i)) CHR ''i'')]) @
       [(''limit'', dec_nat 100)])"
  by (simp add: get_chains_path_def tasks_query_def memory_subscriber_def memory_feed_http_def memory_http_def
      with_trailing_slash_new_def append_opt_def Let_def split: option.split)

lemma memory_tasks_served: "tasks_served memory_feed_http memory_subscriber memory_feed_tasks"
  unfolding tasks_served_def memory_rounds_path memory_feed_after
  by (auto simp: memory_feed_response split: option.splits intro!: exI [of _ 3])

lemma memory_tasks_in_order: "in_time_order memory_feed_tasks"
  using memory_feed_distinct
  by (simp add: in_time_order_def memory_feed_tasks_def memory_task_item_def less_datetime_def)

lemma memory_feed_unit: "json_unit memory_feed_http = Inr []"
  by (simp add: memory_feed_http_def memory_http_def)

lemma memory_rounds_fetch:
  "\<exists>s1. fetch_tasks memory_feed_http (gcp_task_publisher memory_task_peekable) memory_subscriber memory_rounds_state =
     (Inr memory_feed_tasks, s1)"
  by (simp add: fetch_tasks_def gcp_task_publisher_def peekable_peek_last_def redis_client_get_def
      memory_task_peekable_def memory_gcp_def memory_rounds_state_def memory_subscriber_state_def memory_publisher_state_def
      memory_services_start_def build_request_def get_chains_request_def memory_rounds_path memory_feed_unit execute_def
      memory_feed_response io_bind_def io_map_err_def io_inspect_err_def on_queue_def on_http_def on_world_def
      Let_def io_defs memory_feed_tasks_def)

lemma memory_round: "\<exists>s. memory_rounds memory_rounds_state (sort_key ti_timestamp memory_feed_tasks) s"
proof -
  let ?P = "gcp_task_publisher memory_task_peekable"
  obtain s1 where fetched: "fetch_tasks memory_feed_http ?P memory_subscriber memory_rounds_state = (Inr memory_feed_tasks, s1)"
    using memory_rounds_fetch by blast
  let ?b = "task_batch memory_feed_http (sort_key ti_timestamp memory_feed_tasks)"
  have ne: "sort_key ti_timestamp memory_feed_tasks \<noteq> []" "?b \<noteq> []"
    using usort_okD(3) [OF sort_key_usort_ok, of memory_feed_tasks] by (simp_all add: task_batch_def memory_feed_tasks_def)
  obtain ids q where "peekable_publish_batch memory_gcp memory_task_type
      (gy_publisher memory_task_peekable) ?b (ss_queue s1) = (Inr ids, q)"
    using memory_publish_run [OF ne(2)] by blast
  then have "tp_publish_batch ?P ?b (ss_queue s1) = (Inr ids, q)"
    by (simp add: gcp_task_publisher_def memory_task_peekable_def)
  then have "subscribe memory_feed_http (sort_key ti_timestamp) ?P memory_subscriber memory_rounds_state =
      (Inr (), s1\<lparr>ss_queue := q\<rparr>)"
    unfolding subscribe_after_fetch [OF fetched] using ne(1) by simp
  from rounds.round [OF rounds.none fetched this] show ?thesis by auto
qed

subsection \<open>Properties\<close>



end
