(* ===== verification/Api_Json.thy ===== *)
theory Api_Json
  imports Api_Codec Queue_Interfaces
begin

text \<open>
  The JSON form of the types of \<open>types.rs\<close>, as the \<open>serde\<close> attributes of their declarations fix it:
  the names of the fields, the fields left out when they are \<open>None\<close>, the flattened parts, and the
  tags of the enums.

  A JSON object is the list of its entries as they are written, so that a name can occur twice.
  Reading follows the code \<open>serde\<close> derives: the entries a struct names are its own, a second one is an
  error, a missing optional one is \<open>None\<close>; what it does not name goes to its flattened part, or is
  ignored.  Which of several errors is reported is not modelled, nor that a struct without a
  flattened part may be read from an array.

  The texts of times, uuids and bytes (\<open>chrono\<close>, \<open>uuid\<close>, \<open>base64\<close>) are the fields of \<open>json_texts\<close>.
\<close>

subsection \<open>JSON values\<close>

datatype json =
    JNull | JBool bool | JNum int | JStr string | JArr "json list" | JObj "(string \<times> json) list"

type_synonym json_fields = "(string \<times> json) list"

datatype json_error =
    MissingField string | DuplicateField string | UnknownVariant string | WrongType | Custom string | BadText ext_error

record json_texts =
  jt_time :: "datetime \<Rightarrow> string"
  jt_parse_time :: "string \<Rightarrow> ext_error + datetime"
  jt_uuid :: "uuid \<Rightarrow> string"
  jt_parse_uuid :: "string \<Rightarrow> ext_error + uuid"
  jt_base64_encode :: "bytes \<Rightarrow> string"
  jt_base64_decode :: "string \<Rightarrow> ext_error + bytes"

definition json_texts_ok :: "json_texts \<Rightarrow> bool" where
  "json_texts_ok E \<longleftrightarrow>
     (\<forall>t. jt_parse_time E (jt_time E t) = Inr t) \<and> (\<forall>u. jt_parse_uuid E (jt_uuid E u) = Inr u) \<and>
     (\<forall>bs. jt_base64_decode E (jt_base64_encode E bs) = Inr bs)"

text \<open>Writing the entries of a struct, and reading them.\<close>

definition fld :: "string \<Rightarrow> json \<Rightarrow> json_fields" where
  "fld k v = [(k, v)]"

definition opt_vals :: "('a \<Rightarrow> json) \<Rightarrow> 'a option \<Rightarrow> json list" where
  "opt_vals f x = (case x of None \<Rightarrow> [] | Some a \<Rightarrow> [f a])"

lemma opt_vals_simps [simp]: "opt_vals f None = []" "opt_vals f (Some a) = [f a]"
  by (simp_all add: opt_vals_def)

definition opt_fld :: "string \<Rightarrow> ('a \<Rightarrow> json) \<Rightarrow> 'a option \<Rightarrow> json_fields" where
  "opt_fld k f x = map (Pair k) (opt_vals f x)"

definition get :: "string \<Rightarrow> json_fields \<Rightarrow> json list" where
  "get k obj = map snd (filter (\<lambda>(k', _). k' = k) obj)"

definition without_keys :: "string list \<Rightarrow> json_fields \<Rightarrow> json_fields" where
  "without_keys ks obj = filter (\<lambda>(k, _). k \<notin> set ks) obj"

fun read_req :: "string \<Rightarrow> (json \<Rightarrow> json_error + 'a) \<Rightarrow> json list \<Rightarrow> json_error + 'a" where
  "read_req k de [] = Inl (MissingField k)"
| "read_req k de [v] = de v"
| "read_req k de (v # w # vs) = Inl (DuplicateField k)"

fun read_opt :: "string \<Rightarrow> (json \<Rightarrow> json_error + 'a) \<Rightarrow> json list \<Rightarrow> json_error + 'a option" where
  "read_opt k de [] = Inr None"
| "read_opt k de [v] = (if v = JNull then Inr None else res_bind (de v) (\<lambda>a. Inr (Some a)))"
| "read_opt k de (v # w # vs) = Inl (DuplicateField k)"

definition req :: "string \<Rightarrow> (json \<Rightarrow> json_error + 'a) \<Rightarrow> json_fields \<Rightarrow> json_error + 'a" where
  "req k de obj = read_req k de (get k obj)"

definition opt :: "string \<Rightarrow> (json \<Rightarrow> json_error + 'a) \<Rightarrow> json_fields \<Rightarrow> json_error + 'a option" where
  "opt k de obj = read_opt k de (get k obj)"

fun as_object :: "json \<Rightarrow> json_error + json_fields" where
  "as_object (JObj obj) = Inr obj"
| "as_object _ = Inl WrongType"

fun as_string :: "json \<Rightarrow> json_error + string" where
  "as_string (JStr s) = Inr s"
| "as_string _ = Inl WrongType"

fun as_bool :: "json \<Rightarrow> json_error + bool" where
  "as_bool (JBool b) = Inr b"
| "as_bool _ = Inl WrongType"

fun as_u64 :: "json \<Rightarrow> json_error + u64" where
  "as_u64 (JNum n) = (if 0 \<le> n \<and> n < 2 ^ 64 then Inr (of_int n) else Inl WrongType)"
| "as_u64 _ = Inl WrongType"

fun as_list :: "(json \<Rightarrow> json_error + 'a) \<Rightarrow> json \<Rightarrow> json_error + 'a list" where
  "as_list de (JArr vs) = collect_res (map de vs)"
| "as_list de _ = Inl WrongType"

text \<open>The interface of a type with a JSON form that is read back; no form is \<open>null\<close>, so that an
  optional entry of the type is read back, too.\<close>

locale json_form =
  fixes ok :: "'e \<Rightarrow> bool"
    and to_json :: "'e \<Rightarrow> 'a \<Rightarrow> json"
    and of_json :: "'e \<Rightarrow> json \<Rightarrow> json_error + 'a"
  assumes reads [simp]: "ok E \<Longrightarrow> of_json E (to_json E a) = Inr a"
    and not_null [simp]: "to_json E a \<noteq> JNull"
begin

lemma opt_reads [simp]: "ok E \<Longrightarrow> read_opt k (of_json E) (opt_vals (to_json E) x) = Inr x"
  by (cases x) (simp_all add: opt_vals_def res_bind_def)

lemma list_reads: "ok E \<Longrightarrow> as_list (of_json E) (JArr (map (to_json E) xs)) = Inr xs"
  by (induction xs) (simp_all add: res_bind_def)

lemma injective: "ok E \<Longrightarrow> to_json E a = to_json E b \<Longrightarrow> a = b"
  by (metis reads Inr_inject)

end

lemma get_simps [simp]:
  "get k (fld k' v) = (if k' = k then [v] else [])"
  "get k (opt_fld k' f x) = (if k' = k then opt_vals f x else [])"
  "get k (xs @ ys) = get k xs @ get k ys" "get k [] = []"
  "get k (without_keys ks obj) = (if k \<in> set ks then [] else get k obj)"
  by (auto simp: get_def fld_def opt_fld_def opt_vals_def without_keys_def filter_empty_conv
      split: option.split intro!: arg_cong [where f = "map snd"] filter_cong)

lemma without_keys_simps [simp]:
  "without_keys ks (fld k v) = (if k \<in> set ks then [] else fld k v)"
  "without_keys ks (opt_fld k f x) = (if k \<in> set ks then [] else opt_fld k f x)"
  "without_keys ks (xs @ ys) = without_keys ks xs @ without_keys ks ys" "without_keys ks [] = []"
  by (auto simp: without_keys_def fld_def opt_fld_def opt_vals_def split: option.split)

text \<open>What is left when all the entries named are another struct's.\<close>

lemma without_keys_get: "without_keys ks obj = obj \<Longrightarrow> k \<in> set ks \<Longrightarrow> get k obj = []"
  by (metis get_simps(5))

subsection \<open>Texts\<close>

text \<open>\<open>serde_utils\<close>: bytes are base64 texts.\<close>

definition base64_encode :: "json_texts \<Rightarrow> bytes \<Rightarrow> json" where
  "base64_encode E data = JStr (jt_base64_encode E data)"

definition base64_decode :: "json_texts \<Rightarrow> json \<Rightarrow> json_error + bytes" where
  "base64_decode E v = res_bind (as_string v) (\<lambda>raw_string. map_err BadText (jt_base64_decode E raw_string))"

definition string_to_json :: "json_texts \<Rightarrow> string \<Rightarrow> json" where "string_to_json E s = JStr s"
definition string_of_json :: "json_texts \<Rightarrow> json \<Rightarrow> json_error + string" where "string_of_json E v = as_string v"

definition tx_event_to_json :: "json_texts \<Rightarrow> tx_event \<Rightarrow> json" where "tx_event_to_json E ev = JStr (tx_event_text ev)"
definition tx_event_of_json :: "json_texts \<Rightarrow> json \<Rightarrow> json_error + tx_event" where
  "tx_event_of_json E v = res_bind (as_string v) (\<lambda>s. Inr (TxEvent s))"

fun tx_id_to_json :: "json_texts \<Rightarrow> tx_id \<Rightarrow> json" where "tx_id_to_json E (TxId s) = JStr s"
definition tx_id_of_json :: "json_texts \<Rightarrow> json \<Rightarrow> json_error + tx_id" where
  "tx_id_of_json E v = res_bind (as_string v) (\<lambda>s. Inr (TxId s))"

fun token_id_to_json :: "json_texts \<Rightarrow> token_id \<Rightarrow> json" where "token_id_to_json E (TokenId s) = JStr s"
definition token_id_of_json :: "json_texts \<Rightarrow> json \<Rightarrow> json_error + token_id" where
  "token_id_of_json E v = res_bind (as_string v) (\<lambda>s. Inr (TokenId s))"

fun command_id_to_json :: "json_texts \<Rightarrow> command_id \<Rightarrow> json" where "command_id_to_json E (CommandId s) = JStr s"
definition command_id_of_json :: "json_texts \<Rightarrow> json \<Rightarrow> json_error + command_id" where
  "command_id_of_json E v = res_bind (as_string v) (\<lambda>s. Inr (CommandId s))"

fun request_id_to_json :: "json_texts \<Rightarrow> request_id \<Rightarrow> json" where "request_id_to_json E (RequestId s) = JStr s"
definition request_id_of_json :: "json_texts \<Rightarrow> json \<Rightarrow> json_error + request_id" where
  "request_id_of_json E v = res_bind (as_string v) (\<lambda>s. Inr (RequestId s))"

definition task_item_id_to_json :: "json_texts \<Rightarrow> task_item_id \<Rightarrow> json" where
  "task_item_id_to_json E i = JStr (jt_uuid E (task_item_uuid i))"
definition task_item_id_of_json :: "json_texts \<Rightarrow> json \<Rightarrow> json_error + task_item_id" where
  "task_item_id_of_json E v =
     res_bind (as_string v) (\<lambda>s. res_bind (map_err BadText (jt_parse_uuid E s)) (\<lambda>u. Inr (TaskItemId u)))"

definition time_to_json :: "json_texts \<Rightarrow> datetime \<Rightarrow> json" where "time_to_json E t = JStr (jt_time E t)"
definition time_of_json :: "json_texts \<Rightarrow> json \<Rightarrow> json_error + datetime" where
  "time_of_json E v = res_bind (as_string v) (\<lambda>s. map_err BadText (jt_parse_time E s))"

definition bool_to_json :: "json_texts \<Rightarrow> bool \<Rightarrow> json" where "bool_to_json E b = JBool b"
definition bool_of_json :: "json_texts \<Rightarrow> json \<Rightarrow> json_error + bool" where "bool_of_json E v = as_bool v"

definition u64_to_json :: "json_texts \<Rightarrow> u64 \<Rightarrow> json" where "u64_to_json E n = JNum (uint n)"
definition u64_of_json :: "json_texts \<Rightarrow> json \<Rightarrow> json_error + u64" where "u64_of_json E v = as_u64 v"

definition big_int_to_json :: "json_texts \<Rightarrow> big_int \<Rightarrow> json" where "big_int_to_json E b = JStr (bigint_to_json b)"
definition big_int_of_json :: "json_texts \<Rightarrow> json \<Rightarrow> json_error + big_int" where
  "big_int_of_json E v = res_bind (as_string v) (\<lambda>s. map_err Custom (bigint_of_json s))"

fun reason_to_json :: "json_texts \<Rightarrow> cannot_execute_message_reason \<Rightarrow> json" where
  "reason_to_json E InsufficientGas = JStr ''INSUFFICIENT_GAS''"
| "reason_to_json E OtherError = JStr ''ERROR''"

definition reason_of_json :: "json_texts \<Rightarrow> json \<Rightarrow> json_error + cannot_execute_message_reason" where
  "reason_of_json E v = res_bind (as_string v) (\<lambda>s.
     if s = ''INSUFFICIENT_GAS'' then Inr InsufficientGas else if s = ''ERROR'' then Inr OtherError else Inl (UnknownVariant s))"

fun status_to_json :: "json_texts \<Rightarrow> message_execution_status \<Rightarrow> json" where
  "status_to_json E Successful = JStr ''SUCCESSFUL''"
| "status_to_json E Reverted = JStr ''REVERTED''"

definition status_of_json :: "json_texts \<Rightarrow> json \<Rightarrow> json_error + message_execution_status" where
  "status_of_json E v = res_bind (as_string v) (\<lambda>s.
     if s = ''SUCCESSFUL'' then Inr Successful else if s = ''REVERTED'' then Inr Reverted else Inl (UnknownVariant s))"

named_theorems json_text_defs

lemmas [json_text_defs] = base64_encode_def base64_decode_def string_to_json_def string_of_json_def tx_event_to_json_def
  tx_event_of_json_def tx_id_of_json_def token_id_of_json_def command_id_of_json_def request_id_of_json_def
  task_item_id_to_json_def task_item_id_of_json_def time_to_json_def time_of_json_def bool_to_json_def bool_of_json_def
  u64_to_json_def u64_of_json_def big_int_to_json_def big_int_of_json_def reason_of_json_def status_of_json_def
  json_texts_ok_def res_bind_def map_err_def

interpretation bytes_json: json_form json_texts_ok base64_encode base64_decode
  by unfold_locales (simp_all add: json_text_defs)
interpretation string_json: json_form json_texts_ok string_to_json string_of_json
  by unfold_locales (simp_all add: json_text_defs)
interpretation tx_event_json: json_form json_texts_ok tx_event_to_json tx_event_of_json
  by unfold_locales (simp_all add: json_text_defs)
interpretation tx_id_json: json_form json_texts_ok tx_id_to_json tx_id_of_json
  by (unfold_locales; rename_tac E a; case_tac a; simp add: json_text_defs)
interpretation token_id_json: json_form json_texts_ok token_id_to_json token_id_of_json
  by (unfold_locales; rename_tac E a; case_tac a; simp add: json_text_defs)
interpretation command_id_json: json_form json_texts_ok command_id_to_json command_id_of_json
  by (unfold_locales; rename_tac E a; case_tac a; simp add: json_text_defs)
interpretation request_id_json: json_form json_texts_ok request_id_to_json request_id_of_json
  by (unfold_locales; rename_tac E a; case_tac a; simp add: json_text_defs)
interpretation task_item_id_json: json_form json_texts_ok task_item_id_to_json task_item_id_of_json
  by unfold_locales (simp_all add: json_text_defs)
interpretation time_json: json_form json_texts_ok time_to_json time_of_json
  by unfold_locales (simp_all add: json_text_defs)
interpretation bool_json: json_form json_texts_ok bool_to_json bool_of_json
  by unfold_locales (simp_all add: json_text_defs)
interpretation big_int_json: json_form json_texts_ok big_int_to_json big_int_of_json
  by unfold_locales (simp_all add: json_text_defs bigint_of_json_def bigint_to_json_def)
interpretation reason_json: json_form json_texts_ok reason_to_json reason_of_json
  by (unfold_locales; rename_tac E a; case_tac a; simp add: json_text_defs)
interpretation status_json: json_form json_texts_ok status_to_json status_of_json
  by (unfold_locales; rename_tac E a; case_tac a; simp add: json_text_defs)

lemma u64_range: "0 \<le> uint (n :: u64) \<and> uint n < 2 ^ 64"
  using uint_bounded [of n] by simp

interpretation u64_json: json_form json_texts_ok u64_to_json u64_of_json
  using u64_range by unfold_locales (simp_all add: json_text_defs)

subsection \<open>Structs\<close>

text \<open>Every struct is written as its entries in the order of its fields, and read from the entries of
  an object.\<close>

definition token_to_json :: "json_texts \<Rightarrow> token \<Rightarrow> json" where
  "token_to_json E t =
     JObj (opt_fld ''tokenID'' (token_id_to_json E) (tk_token_id t) @ fld ''amount'' (big_int_to_json E (tk_amount t)))"

definition token_of_json :: "json_texts \<Rightarrow> json \<Rightarrow> json_error + token" where
  "token_of_json E v =
     res_bind (as_object v) (\<lambda>obj.
     res_bind (opt ''tokenID'' (token_id_of_json E) obj) (\<lambda>token_id.
     res_bind (req ''amount'' (big_int_of_json E) obj) (\<lambda>amount.
       Inr \<lparr>tk_token_id = token_id, tk_amount = amount\<rparr>)))"

definition gateway_v2_message_to_json :: "json_texts \<Rightarrow> gateway_v2_message \<Rightarrow> json" where
  "gateway_v2_message_to_json E m =
     JObj (fld ''messageID'' (tx_event_to_json E (gm_message_id m)) @
       fld ''sourceChain'' (string_to_json E (gm_source_chain m)) @
       fld ''sourceAddress'' (string_to_json E (gm_source_address m)) @
       fld ''destinationAddress'' (string_to_json E (gm_destination_address m)) @
       fld ''payloadHash'' (base64_encode E (gm_payload_hash m)))"

definition gateway_v2_message_of_json :: "json_texts \<Rightarrow> json \<Rightarrow> json_error + gateway_v2_message" where
  "gateway_v2_message_of_json E v =
     res_bind (as_object v) (\<lambda>obj.
     res_bind (req ''messageID'' (tx_event_of_json E) obj) (\<lambda>message_id.
     res_bind (req ''sourceChain'' (string_of_json E) obj) (\<lambda>source_chain.
     res_bind (req ''sourceAddress'' (string_of_json E) obj) (\<lambda>source_address.
     res_bind (req ''destinationAddress'' (string_of_json E) obj) (\<lambda>destination_address.
     res_bind (req ''payloadHash'' (base64_decode E) obj) (\<lambda>payload_hash.
       Inr \<lparr>gm_message_id = message_id, gm_source_chain = source_chain, gm_source_address = source_address,
         gm_destination_address = destination_address, gm_payload_hash = payload_hash\<rparr>))))))"

text \<open>\<open>EventMetadata<T>\<close>: its own four entries, then those of the flattened \<open>extra\<close>, which is read
  from the entries that are left.\<close>

definition metadata_keys :: "string list" where
  "metadata_keys = [''txID'', ''timestamp'', ''fromAddress'', ''finalized'']"

definition event_metadata_to_json :: "json_texts \<Rightarrow> (json_texts \<Rightarrow> 'x \<Rightarrow> json_fields) \<Rightarrow> 'x event_metadata \<Rightarrow> json" where
  "event_metadata_to_json E extra_to m =
     JObj (opt_fld ''txID'' (tx_id_to_json E) (em_tx_id m) @ opt_fld ''timestamp'' (time_to_json E) (em_timestamp m) @
       opt_fld ''fromAddress'' (string_to_json E) (em_from_address m) @
       opt_fld ''finalized'' (bool_to_json E) (em_finalized m) @ extra_to E (em_extra m))"

definition event_metadata_of_json ::
  "json_texts \<Rightarrow> (json_texts \<Rightarrow> json_fields \<Rightarrow> json_error + 'x) \<Rightarrow> json \<Rightarrow> json_error + 'x event_metadata" where
  "event_metadata_of_json E extra_of v =
     res_bind (as_object v) (\<lambda>obj.
     res_bind (opt ''txID'' (tx_id_of_json E) obj) (\<lambda>tx_id.
     res_bind (opt ''timestamp'' (time_of_json E) obj) (\<lambda>timestamp.
     res_bind (opt ''fromAddress'' (string_of_json E) obj) (\<lambda>from_address.
     res_bind (opt ''finalized'' (bool_of_json E) obj) (\<lambda>finalized.
     res_bind (extra_of E (without_keys metadata_keys obj)) (\<lambda>extra.
       Inr \<lparr>em_tx_id = tx_id, em_timestamp = timestamp, em_from_address = from_address, em_finalized = finalized,
         em_extra = extra\<rparr>))))))"

definition unit_to_fields :: "json_texts \<Rightarrow> unit \<Rightarrow> json_fields" where "unit_to_fields E x = []"
definition unit_of_fields :: "json_texts \<Rightarrow> json_fields \<Rightarrow> json_error + unit" where "unit_of_fields E obj = Inr ()"

definition call_metadata_to_fields :: "json_texts \<Rightarrow> call_event_metadata \<Rightarrow> json_fields" where
  "call_metadata_to_fields E x = opt_fld ''parentMessageID'' (tx_event_to_json E) (cem_parent_message_id x)"

definition call_metadata_of_fields :: "json_texts \<Rightarrow> json_fields \<Rightarrow> json_error + call_event_metadata" where
  "call_metadata_of_fields E obj =
     res_bind (opt ''parentMessageID'' (tx_event_of_json E) obj) (\<lambda>i. Inr \<lparr>cem_parent_message_id = i\<rparr>)"

definition approved_metadata_to_fields :: "json_texts \<Rightarrow> message_approved_event_metadata \<Rightarrow> json_fields" where
  "approved_metadata_to_fields E x = opt_fld ''commandID'' (command_id_to_json E) (mam_command_id x)"

definition approved_metadata_of_fields :: "json_texts \<Rightarrow> json_fields \<Rightarrow> json_error + message_approved_event_metadata" where
  "approved_metadata_of_fields E obj =
     res_bind (opt ''commandID'' (command_id_of_json E) obj) (\<lambda>i. Inr \<lparr>mam_command_id = i\<rparr>)"

definition tx_events_to_json :: "json_texts \<Rightarrow> message_id list \<Rightarrow> json" where
  "tx_events_to_json E xs = JArr (map (tx_event_to_json E) xs)"

definition tx_events_of_json :: "json_texts \<Rightarrow> json \<Rightarrow> json_error + message_id list" where
  "tx_events_of_json E v = as_list (tx_event_of_json E) v"

definition executed_metadata_to_fields :: "json_texts \<Rightarrow> message_executed_event_metadata \<Rightarrow> json_fields" where
  "executed_metadata_to_fields E x =
     opt_fld ''commandID'' (command_id_to_json E) (mem_command_id x) @
     opt_fld ''childMessageIDs'' (tx_events_to_json E) (mem_child_message_ids x)"

definition executed_metadata_of_fields :: "json_texts \<Rightarrow> json_fields \<Rightarrow> json_error + message_executed_event_metadata" where
  "executed_metadata_of_fields E obj =
     res_bind (opt ''commandID'' (command_id_of_json E) obj) (\<lambda>i.
     res_bind (opt ''childMessageIDs'' (tx_events_of_json E) obj) (\<lambda>cs.
       Inr \<lparr>mem_command_id = i, mem_child_message_ids = cs\<rparr>))"

definition cannot_execute_metadata_to_fields :: "json_texts \<Rightarrow> cannot_execute_message_event_v2_metadata \<Rightarrow> json_fields" where
  "cannot_execute_metadata_to_fields E x =
     opt_fld ''fromAddress'' (string_to_json E) (cxm_from_address x) @ opt_fld ''timestamp'' (time_to_json E) (cxm_timestamp x) @
     fld ''taskItemID'' (task_item_id_to_json E (cxm_task_item_id x))"

definition cannot_execute_metadata_of_fields ::
  "json_texts \<Rightarrow> json_fields \<Rightarrow> json_error + cannot_execute_message_event_v2_metadata" where
  "cannot_execute_metadata_of_fields E obj =
     res_bind (opt ''fromAddress'' (string_of_json E) obj) (\<lambda>from_address.
     res_bind (opt ''timestamp'' (time_of_json E) obj) (\<lambda>timestamp.
     res_bind (req ''taskItemID'' (task_item_id_of_json E) obj) (\<lambda>task_item_id.
       Inr \<lparr>cxm_from_address = from_address, cxm_timestamp = timestamp, cxm_task_item_id = task_item_id\<rparr>)))"

definition signers_metadata_to_fields :: "json_texts \<Rightarrow> signers_rotated_metadata \<Rightarrow> json_fields" where
  "signers_metadata_to_fields E x =
     fld ''signerHash'' (base64_encode E (srm_signer_hash x)) @ fld ''epoch'' (u64_to_json E (srm_epoch x))"

definition signers_metadata_of_fields :: "json_texts \<Rightarrow> json_fields \<Rightarrow> json_error + signers_rotated_metadata" where
  "signers_metadata_of_fields E obj =
     res_bind (req ''signerHash'' (base64_decode E) obj) (\<lambda>signer_hash.
     res_bind (req ''epoch'' (u64_of_json E) obj) (\<lambda>epoch.
       Inr \<lparr>srm_signer_hash = signer_hash, srm_epoch = epoch\<rparr>))"

definition event_base_to_fields ::
  "json_texts \<Rightarrow> (json_texts \<Rightarrow> 'x \<Rightarrow> json_fields) \<Rightarrow> 'x event_base \<Rightarrow> json_fields" where
  "event_base_to_fields E extra_to b =
     fld ''eventID'' (tx_event_to_json E (eb_event_id b)) @
     opt_fld ''meta'' (event_metadata_to_json E extra_to) (eb_meta b)"

definition event_base_of_fields ::
  "json_texts \<Rightarrow> (json_texts \<Rightarrow> json_fields \<Rightarrow> json_error + 'x) \<Rightarrow> json_fields \<Rightarrow> json_error + 'x event_base" where
  "event_base_of_fields E extra_of obj =
     res_bind (req ''eventID'' (tx_event_of_json E) obj) (\<lambda>event_id.
     res_bind (opt ''meta'' (event_metadata_of_json E extra_of) obj) (\<lambda>meta.
       Inr \<lparr>eb_event_id = event_id, eb_meta = meta\<rparr>))"

named_theorems json_struct_defs

lemmas [json_struct_defs] = token_to_json_def token_of_json_def gateway_v2_message_to_json_def gateway_v2_message_of_json_def
  req_def opt_def res_bind_def

interpretation token_json: json_form json_texts_ok token_to_json token_of_json
  by unfold_locales (simp_all add: json_struct_defs)

interpretation message_json: json_form json_texts_ok gateway_v2_message_to_json gateway_v2_message_of_json
  by unfold_locales (simp_all add: json_struct_defs)

interpretation tx_events_json: json_form json_texts_ok tx_events_to_json tx_events_of_json
  by unfold_locales (simp_all add: tx_events_to_json_def tx_events_of_json_def tx_event_json.list_reads del: as_list.simps)

text \<open>A flattened part is read back if it does not share a name with the metadata around it.\<close>

definition extra_reads ::
  "json_texts \<Rightarrow> (json_texts \<Rightarrow> 'x \<Rightarrow> json_fields) \<Rightarrow> (json_texts \<Rightarrow> json_fields \<Rightarrow> json_error + 'x) \<Rightarrow> 'x \<Rightarrow> bool" where
  "extra_reads E extra_to extra_of x \<longleftrightarrow>
     without_keys metadata_keys (extra_to E x) = extra_to E x \<and> extra_of E (extra_to E x) = Inr x"

lemma metadata_reads:
  assumes "json_texts_ok E" "extra_reads E extra_to extra_of (em_extra m)"
  shows "event_metadata_of_json E extra_of (event_metadata_to_json E extra_to m) = Inr m"
proof -
  let ?x = "extra_to E (em_extra m)"
  have "without_keys metadata_keys ?x = ?x" using assms(2) by (simp add: extra_reads_def)
  then have "get k ?x = []" if "k \<in> set metadata_keys" for k
    using without_keys_get that by blast
  then have "get ''txID'' ?x = []" "get ''timestamp'' ?x = []" "get ''fromAddress'' ?x = []" "get ''finalized'' ?x = []"
    by (simp_all add: metadata_keys_def)
  with assms show ?thesis
    by (simp add: event_metadata_to_json_def event_metadata_of_json_def metadata_keys_def extra_reads_def req_def opt_def res_bind_def)
qed

definition base_reads ::
  "json_texts \<Rightarrow> (json_texts \<Rightarrow> 'x \<Rightarrow> json_fields) \<Rightarrow> (json_texts \<Rightarrow> json_fields \<Rightarrow> json_error + 'x) \<Rightarrow> 'x event_base \<Rightarrow> bool" where
  "base_reads E extra_to extra_of b \<longleftrightarrow> (case eb_meta b of None \<Rightarrow> True | Some m \<Rightarrow> extra_reads E extra_to extra_of (em_extra m))"

lemma base_reads:
  assumes "json_texts_ok E" "base_reads E extra_to extra_of b"
    and "get ''eventID'' obj = [tx_event_to_json E (eb_event_id b)]"
    and "get ''meta'' obj = opt_vals (event_metadata_to_json E extra_to) (eb_meta b)"
  shows "event_base_of_fields E extra_of obj = Inr b"
  using assms metadata_reads [OF assms(1), of extra_to extra_of]
  by (cases "eb_meta b")
    (simp_all add: event_base_of_fields_def base_reads_def req_def opt_def opt_vals_def res_bind_def event_metadata_to_json_def)

lemma extra_reads_all:
  assumes "json_texts_ok E"
  shows "extra_reads E unit_to_fields unit_of_fields ()" "extra_reads E call_metadata_to_fields call_metadata_of_fields c"
    "extra_reads E approved_metadata_to_fields approved_metadata_of_fields a"
    "extra_reads E executed_metadata_to_fields executed_metadata_of_fields x"
    "extra_reads E signers_metadata_to_fields signers_metadata_of_fields s"
    "cxm_from_address n = None \<Longrightarrow> cxm_timestamp n = None \<Longrightarrow>
       extra_reads E cannot_execute_metadata_to_fields cannot_execute_metadata_of_fields n"
  using assms
  by (simp_all add: extra_reads_def metadata_keys_def unit_to_fields_def unit_of_fields_def call_metadata_to_fields_def
      call_metadata_of_fields_def approved_metadata_to_fields_def approved_metadata_of_fields_def
      executed_metadata_to_fields_def executed_metadata_of_fields_def signers_metadata_to_fields_def
      signers_metadata_of_fields_def cannot_execute_metadata_to_fields_def cannot_execute_metadata_of_fields_def
      req_def opt_def res_bind_def) (simp add: opt_fld_def opt_vals_def)

subsection \<open>Events\<close>

definition gas_credit_to_fields :: "json_texts \<Rightarrow> gas_credit_event \<Rightarrow> json_fields" where
  "gas_credit_to_fields E e =
     event_base_to_fields E unit_to_fields (gc_base e) @ fld ''messageID'' (tx_event_to_json E (gc_message_id e)) @
     fld ''refundAddress'' (string_to_json E (gc_refund_address e)) @ fld ''payment'' (token_to_json E (gc_payment e))"

definition gas_credit_of_fields :: "json_texts \<Rightarrow> json_fields \<Rightarrow> json_error + gas_credit_event" where
  "gas_credit_of_fields E obj =
     res_bind (event_base_of_fields E unit_of_fields (without_keys [''messageID'', ''refundAddress'', ''payment''] obj)) (\<lambda>base.
     res_bind (req ''messageID'' (tx_event_of_json E) obj) (\<lambda>message_id.
     res_bind (req ''refundAddress'' (string_of_json E) obj) (\<lambda>refund_address.
     res_bind (req ''payment'' (token_of_json E) obj) (\<lambda>payment.
       Inr \<lparr>gc_base = base, gc_message_id = message_id, gc_refund_address = refund_address, gc_payment = payment\<rparr>))))"

definition gas_refunded_to_fields :: "json_texts \<Rightarrow> gas_refunded_event \<Rightarrow> json_fields" where
  "gas_refunded_to_fields E e =
     event_base_to_fields E unit_to_fields (gr_base e) @ fld ''messageID'' (tx_event_to_json E (gr_message_id e)) @
     fld ''recipientAddress'' (string_to_json E (gr_recipient_address e)) @
     fld ''refundedAmount'' (token_to_json E (gr_refunded_amount e)) @ fld ''cost'' (token_to_json E (gr_cost e))"

definition gas_refunded_of_fields :: "json_texts \<Rightarrow> json_fields \<Rightarrow> json_error + gas_refunded_event" where
  "gas_refunded_of_fields E obj =
     res_bind (event_base_of_fields E unit_of_fields
       (without_keys [''messageID'', ''recipientAddress'', ''refundedAmount'', ''cost''] obj)) (\<lambda>base.
     res_bind (req ''messageID'' (tx_event_of_json E) obj) (\<lambda>message_id.
     res_bind (req ''recipientAddress'' (string_of_json E) obj) (\<lambda>recipient_address.
     res_bind (req ''refundedAmount'' (token_of_json E) obj) (\<lambda>refunded_amount.
     res_bind (req ''cost'' (token_of_json E) obj) (\<lambda>cost.
       Inr \<lparr>gr_base = base, gr_message_id = message_id, gr_recipient_address = recipient_address,
         gr_refunded_amount = refunded_amount, gr_cost = cost\<rparr>)))))"

definition call_to_fields :: "json_texts \<Rightarrow> call_event \<Rightarrow> json_fields" where
  "call_to_fields E e =
     event_base_to_fields E call_metadata_to_fields (ce_base e) @
     fld ''message'' (gateway_v2_message_to_json E (ce_message e)) @
     fld ''destinationChain'' (string_to_json E (ce_destination_chain e)) @ fld ''payload'' (base64_encode E (ce_payload e))"

definition call_of_fields :: "json_texts \<Rightarrow> json_fields \<Rightarrow> json_error + call_event" where
  "call_of_fields E obj =
     res_bind (event_base_of_fields E call_metadata_of_fields (without_keys [''message'', ''destinationChain'', ''payload''] obj)) (\<lambda>base.
     res_bind (req ''message'' (gateway_v2_message_of_json E) obj) (\<lambda>message.
     res_bind (req ''destinationChain'' (string_of_json E) obj) (\<lambda>destination_chain.
     res_bind (req ''payload'' (base64_decode E) obj) (\<lambda>payload.
       Inr \<lparr>ce_base = base, ce_message = message, ce_destination_chain = destination_chain, ce_payload = payload\<rparr>))))"

definition message_approved_to_fields :: "json_texts \<Rightarrow> message_approved_event \<Rightarrow> json_fields" where
  "message_approved_to_fields E e =
     event_base_to_fields E approved_metadata_to_fields (ma_base e) @
     fld ''message'' (gateway_v2_message_to_json E (ma_message e)) @ fld ''cost'' (token_to_json E (ma_cost e))"

definition message_approved_of_fields :: "json_texts \<Rightarrow> json_fields \<Rightarrow> json_error + message_approved_event" where
  "message_approved_of_fields E obj =
     res_bind (event_base_of_fields E approved_metadata_of_fields (without_keys [''message'', ''cost''] obj)) (\<lambda>base.
     res_bind (req ''message'' (gateway_v2_message_of_json E) obj) (\<lambda>message.
     res_bind (req ''cost'' (token_of_json E) obj) (\<lambda>cost.
       Inr \<lparr>ma_base = base, ma_message = message, ma_cost = cost\<rparr>)))"

definition message_executed_to_fields :: "json_texts \<Rightarrow> message_executed_event \<Rightarrow> json_fields" where
  "message_executed_to_fields E e =
     event_base_to_fields E executed_metadata_to_fields (mx_base e) @
     fld ''messageID'' (tx_event_to_json E (mx_message_id e)) @ fld ''sourceChain'' (string_to_json E (mx_source_chain e)) @
     fld ''status'' (status_to_json E (mx_status e)) @ fld ''cost'' (token_to_json E (mx_cost e))"

definition message_executed_of_fields :: "json_texts \<Rightarrow> json_fields \<Rightarrow> json_error + message_executed_event" where
  "message_executed_of_fields E obj =
     res_bind (event_base_of_fields E executed_metadata_of_fields
       (without_keys [''messageID'', ''sourceChain'', ''status'', ''cost''] obj)) (\<lambda>base.
     res_bind (req ''messageID'' (tx_event_of_json E) obj) (\<lambda>message_id.
     res_bind (req ''sourceChain'' (string_of_json E) obj) (\<lambda>source_chain.
     res_bind (req ''status'' (status_of_json E) obj) (\<lambda>status.
     res_bind (req ''cost'' (token_of_json E) obj) (\<lambda>cost.
       Inr \<lparr>mx_base = base, mx_message_id = message_id, mx_source_chain = source_chain, mx_status = status, mx_cost = cost\<rparr>)))))"

definition cannot_execute_to_fields :: "json_texts \<Rightarrow> cannot_execute_message_event_v2 \<Rightarrow> json_fields" where
  "cannot_execute_to_fields E e =
     event_base_to_fields E cannot_execute_metadata_to_fields (cx_base e) @
     fld ''messageID'' (tx_event_to_json E (cx_message_id e)) @ fld ''sourceChain'' (string_to_json E (cx_source_chain e)) @
     fld ''reason'' (reason_to_json E (cx_reason e)) @ fld ''details'' (string_to_json E (cx_details e))"

definition cannot_execute_of_fields :: "json_texts \<Rightarrow> json_fields \<Rightarrow> json_error + cannot_execute_message_event_v2" where
  "cannot_execute_of_fields E obj =
     res_bind (event_base_of_fields E cannot_execute_metadata_of_fields
       (without_keys [''messageID'', ''sourceChain'', ''reason'', ''details''] obj)) (\<lambda>base.
     res_bind (req ''messageID'' (tx_event_of_json E) obj) (\<lambda>message_id.
     res_bind (req ''sourceChain'' (string_of_json E) obj) (\<lambda>source_chain.
     res_bind (req ''reason'' (reason_of_json E) obj) (\<lambda>reason.
     res_bind (req ''details'' (string_of_json E) obj) (\<lambda>details.
       Inr \<lparr>cx_base = base, cx_message_id = message_id, cx_source_chain = source_chain, cx_reason = reason, cx_details = details\<rparr>)))))"

definition signers_rotated_to_fields :: "json_texts \<Rightarrow> signers_rotated_event \<Rightarrow> json_fields" where
  "signers_rotated_to_fields E e =
     event_base_to_fields E signers_metadata_to_fields (sr_base e) @ fld ''cost'' (token_to_json E (sr_cost e))"

definition signers_rotated_of_fields :: "json_texts \<Rightarrow> json_fields \<Rightarrow> json_error + signers_rotated_event" where
  "signers_rotated_of_fields E obj =
     res_bind (event_base_of_fields E signers_metadata_of_fields (without_keys [''cost''] obj)) (\<lambda>base.
     res_bind (req ''cost'' (token_of_json E) obj) (\<lambda>cost. Inr \<lparr>sr_base = base, sr_cost = cost\<rparr>))"

text \<open>\<open>Event\<close>, with its tag beside the entries of the variant.\<close>

fun event_to_json :: "json_texts \<Rightarrow> event \<Rightarrow> json" where
  "event_to_json E (GasCredit e) = JObj (fld ''type'' (JStr ''GAS_CREDIT'') @ gas_credit_to_fields E e)"
| "event_to_json E (GasRefunded e) = JObj (fld ''type'' (JStr ''GAS_REFUNDED'') @ gas_refunded_to_fields E e)"
| "event_to_json E (Call e) = JObj (fld ''type'' (JStr ''CALL'') @ call_to_fields E e)"
| "event_to_json E (MessageApproved e) = JObj (fld ''type'' (JStr ''MESSAGE_APPROVED'') @ message_approved_to_fields E e)"
| "event_to_json E (MessageExecuted e) = JObj (fld ''type'' (JStr ''MESSAGE_EXECUTED'') @ message_executed_to_fields E e)"
| "event_to_json E (CannotExecuteMessageV2 e) =
     JObj (fld ''type'' (JStr ''CANNOT_EXECUTE_MESSAGE/V2'') @ cannot_execute_to_fields E e)"
| "event_to_json E (SignersRotated e) = JObj (fld ''type'' (JStr ''SIGNERS_ROTATED'') @ signers_rotated_to_fields E e)"

definition variant :: "('a \<Rightarrow> 'b) \<Rightarrow> json_error + 'a \<Rightarrow> json_error + 'b" where
  "variant c r = res_bind r (\<lambda>a. Inr (c a))"

definition event_of_json :: "json_texts \<Rightarrow> json \<Rightarrow> json_error + event" where
  "event_of_json E v =
     res_bind (as_object v) (\<lambda>obj.
     res_bind (req ''type'' as_string obj) (\<lambda>t.
       let rest = without_keys [''type''] obj
       in if t = ''GAS_CREDIT'' then variant GasCredit (gas_credit_of_fields E rest)
          else if t = ''GAS_REFUNDED'' then variant GasRefunded (gas_refunded_of_fields E rest)
          else if t = ''CALL'' then variant Call (call_of_fields E rest)
          else if t = ''MESSAGE_APPROVED'' then variant MessageApproved (message_approved_of_fields E rest)
          else if t = ''MESSAGE_EXECUTED'' then variant MessageExecuted (message_executed_of_fields E rest)
          else if t = ''CANNOT_EXECUTE_MESSAGE/V2'' then variant CannotExecuteMessageV2 (cannot_execute_of_fields E rest)
          else if t = ''SIGNERS_ROTATED'' then variant SignersRotated (signers_rotated_of_fields E rest)
          else Inl (UnknownVariant t)))"

text \<open>The metadata of a failed execution repeat two names of the metadata around them; an event whose
  inner entries are empty has no such clash.\<close>

fun no_clash :: "event \<Rightarrow> bool" where
  "no_clash (CannotExecuteMessageV2 e) \<longleftrightarrow>
     (case eb_meta (cx_base e) of None \<Rightarrow> True
      | Some m \<Rightarrow> cxm_from_address (em_extra m) = None \<and> cxm_timestamp (em_extra m) = None)"
| "no_clash _ \<longleftrightarrow> True"

lemma base_reads_all:
  assumes "json_texts_ok E"
  shows "base_reads E unit_to_fields unit_of_fields b1" "base_reads E call_metadata_to_fields call_metadata_of_fields b2"
    "base_reads E approved_metadata_to_fields approved_metadata_of_fields b3"
    "base_reads E executed_metadata_to_fields executed_metadata_of_fields b4"
    "base_reads E signers_metadata_to_fields signers_metadata_of_fields b5"
    "no_clash (CannotExecuteMessageV2 c) \<Longrightarrow>
       base_reads E cannot_execute_metadata_to_fields cannot_execute_metadata_of_fields (cx_base c)"
  using extra_reads_all [OF assms] by (auto simp: base_reads_def split: option.splits)

lemmas event_field_defs = gas_credit_to_fields_def gas_credit_of_fields_def gas_refunded_to_fields_def
  gas_refunded_of_fields_def call_to_fields_def call_of_fields_def message_approved_to_fields_def
  message_approved_of_fields_def message_executed_to_fields_def message_executed_of_fields_def
  cannot_execute_to_fields_def cannot_execute_of_fields_def signers_rotated_to_fields_def signers_rotated_of_fields_def

lemma event_reads:
  assumes "json_texts_ok E" "no_clash ev"
  shows "event_of_json E (event_to_json E ev) = Inr ev"
proof -
  note base = base_reads [OF assms(1) base_reads_all(1) [OF assms(1)]] base_reads [OF assms(1) base_reads_all(2) [OF assms(1)]]
    base_reads [OF assms(1) base_reads_all(3) [OF assms(1)]] base_reads [OF assms(1) base_reads_all(4) [OF assms(1)]]
    base_reads [OF assms(1) base_reads_all(5) [OF assms(1)]]
  note simps = event_of_json_def variant_def event_field_defs event_base_to_fields_def req_def res_bind_def base Let_def assms(1)
  show ?thesis
  proof (cases ev)
    case (CannotExecuteMessageV2 e)
    with base_reads [OF assms(1) base_reads_all(6) [OF assms(1)]] assms(2) show ?thesis
      by (simp add: event_of_json_def variant_def event_field_defs event_base_to_fields_def req_def res_bind_def Let_def assms(1)
          del: no_clash.simps)
  qed (simp_all add: simps)
qed

subsection \<open>Requests, results and tasks\<close>

definition publish_events_request_to_json :: "json_texts \<Rightarrow> publish_events_request \<Rightarrow> json" where
  "publish_events_request_to_json E r = JObj (fld ''events'' (JArr (map (event_to_json E) (pr_events r))))"

definition publish_events_request_of_json :: "json_texts \<Rightarrow> json \<Rightarrow> json_error + publish_events_request" where
  "publish_events_request_of_json E v =
     res_bind (as_object v) (\<lambda>obj. res_bind (req ''events'' (as_list (event_of_json E)) obj) (\<lambda>evs. Inr \<lparr>pr_events = evs\<rparr>))"

definition result_base_to_fields :: "json_texts \<Rightarrow> publish_event_result_item_base \<Rightarrow> json_fields" where
  "result_base_to_fields E b = fld ''index'' (u64_to_json E (ri_index b))"

definition result_base_of_fields :: "json_texts \<Rightarrow> json_fields \<Rightarrow> json_error + publish_event_result_item_base" where
  "result_base_of_fields E obj = res_bind (req ''index'' (u64_of_json E) obj) (\<lambda>i. Inr \<lparr>ri_index = i\<rparr>)"

fun result_item_to_json :: "json_texts \<Rightarrow> publish_event_result_item \<Rightarrow> json" where
  "result_item_to_json E (Accepted r) = JObj (fld ''status'' (JStr ''ACCEPTED'') @ result_base_to_fields E (ar_base r))"
| "result_item_to_json E (ResultError r) =
     JObj (fld ''status'' (JStr ''ERROR'') @ result_base_to_fields E (er_base r) @
       fld ''error'' (string_to_json E (er_error r)) @ fld ''retriable'' (bool_to_json E (er_retriable r)))"

definition result_item_of_json :: "json_texts \<Rightarrow> json \<Rightarrow> json_error + publish_event_result_item" where
  "result_item_of_json E v =
     res_bind (as_object v) (\<lambda>obj.
     res_bind (req ''status'' as_string obj) (\<lambda>t.
       let rest = without_keys [''status''] obj
       in if t = ''ACCEPTED'' then
            variant Accepted (res_bind (result_base_of_fields E rest) (\<lambda>base. Inr \<lparr>ar_base = base\<rparr>))
          else if t = ''ERROR'' then
            variant ResultError
              (res_bind (result_base_of_fields E (without_keys [''error'', ''retriable''] rest)) (\<lambda>base.
               res_bind (req ''error'' (string_of_json E) rest) (\<lambda>error.
               res_bind (req ''retriable'' (bool_of_json E) rest) (\<lambda>retriable.
                 Inr \<lparr>er_base = base, er_error = error, er_retriable = retriable\<rparr>))))
          else Inl (UnknownVariant t)))"

definition publish_events_result_to_json :: "json_texts \<Rightarrow> publish_events_result \<Rightarrow> json" where
  "publish_events_result_to_json E r = JObj (fld ''results'' (JArr (map (result_item_to_json E) (ps_results r))))"

definition publish_events_result_of_json :: "json_texts \<Rightarrow> json \<Rightarrow> json_error + publish_events_result" where
  "publish_events_result_of_json E v =
     res_bind (as_object v) (\<lambda>obj. res_bind (req ''results'' (as_list (result_item_of_json E)) obj) (\<lambda>rs. Inr \<lparr>ps_results = rs\<rparr>))"

definition error_response_to_json :: "json_texts \<Rightarrow> error_response \<Rightarrow> json" where
  "error_response_to_json E r =
     JObj (fld ''error'' (string_to_json E (ep_error r)) @ opt_fld ''requestID'' (request_id_to_json E) (ep_request_id r))"

definition error_response_of_json :: "json_texts \<Rightarrow> json \<Rightarrow> json_error + error_response" where
  "error_response_of_json E v =
     res_bind (as_object v) (\<lambda>obj.
     res_bind (req ''error'' (string_of_json E) obj) (\<lambda>error.
     res_bind (opt ''requestID'' (request_id_of_json E) obj) (\<lambda>request_id.
       Inr \<lparr>ep_error = error, ep_request_id = request_id\<rparr>)))"

text \<open>\<open>Task\<close>: the tag and the contents are two entries of the item.\<close>

fun task_to_fields :: "json_texts \<Rightarrow> task \<Rightarrow> json_fields" where
  "task_to_fields E (ConstructProof t) = fld ''type'' (JStr ''CONSTRUCT_PROOF'') @ fld ''task''
     (JObj (fld ''message'' (gateway_v2_message_to_json E (cp_message t)) @ fld ''payload'' (base64_encode E (cp_payload t))))"
| "task_to_fields E (Verify t) = fld ''type'' (JStr ''VERIFY'') @ fld ''task''
     (JObj (fld ''message'' (gateway_v2_message_to_json E (vt_message t)) @ fld ''payload'' (base64_encode E (vt_payload t))))"
| "task_to_fields E (GatewayTx t) = fld ''type'' (JStr ''GATEWAY_TX'') @ fld ''task''
     (JObj (fld ''executeData'' (base64_encode E (gt_execute_data t))))"
| "task_to_fields E (Execute t) = fld ''type'' (JStr ''EXECUTE'') @ fld ''task''
     (JObj (fld ''message'' (gateway_v2_message_to_json E (et_message t)) @ fld ''payload'' (base64_encode E (et_payload t)) @
        fld ''availableGasBalance'' (token_to_json E (et_available_gas_balance t))))"
| "task_to_fields E (Refund t) = fld ''type'' (JStr ''REFUND'') @ fld ''task''
     (JObj (fld ''message'' (gateway_v2_message_to_json E (rt_message t)) @
        fld ''refundRecipientAddress'' (string_to_json E (rt_refund_recipient_address t)) @
        fld ''remainingGasBalance'' (token_to_json E (rt_remaining_gas_balance t))))"

definition task_contents_of_json :: "json_texts \<Rightarrow> string \<Rightarrow> json \<Rightarrow> json_error + task" where
  "task_contents_of_json E t v =
     res_bind (as_object v) (\<lambda>obj.
       let message = req ''message'' (gateway_v2_message_of_json E) obj; payload = req ''payload'' (base64_decode E) obj
       in if t = ''CONSTRUCT_PROOF'' then
            res_bind message (\<lambda>m. res_bind payload (\<lambda>p. Inr (ConstructProof \<lparr>cp_message = m, cp_payload = p\<rparr>)))
          else if t = ''VERIFY'' then res_bind message (\<lambda>m. res_bind payload (\<lambda>p. Inr (Verify \<lparr>vt_message = m, vt_payload = p\<rparr>)))
          else if t = ''GATEWAY_TX'' then
            res_bind (req ''executeData'' (base64_decode E) obj) (\<lambda>d. Inr (GatewayTx \<lparr>gt_execute_data = d\<rparr>))
          else if t = ''EXECUTE'' then
            res_bind message (\<lambda>m. res_bind payload (\<lambda>p.
            res_bind (req ''availableGasBalance'' (token_of_json E) obj) (\<lambda>b.
              Inr (Execute \<lparr>et_message = m, et_payload = p, et_available_gas_balance = b\<rparr>))))
          else if t = ''REFUND'' then
            res_bind message (\<lambda>m.
            res_bind (req ''refundRecipientAddress'' (string_of_json E) obj) (\<lambda>a.
            res_bind (req ''remainingGasBalance'' (token_of_json E) obj) (\<lambda>b.
              Inr (Refund \<lparr>rt_message = m, rt_refund_recipient_address = a, rt_remaining_gas_balance = b\<rparr>))))
          else Inl (UnknownVariant t))"

definition task_of_fields :: "json_texts \<Rightarrow> json_fields \<Rightarrow> json_error + task" where
  "task_of_fields E obj =
     res_bind (req ''type'' as_string obj) (\<lambda>t. req ''task'' (task_contents_of_json E t) obj)"

definition task_item_to_json :: "json_texts \<Rightarrow> task_item \<Rightarrow> json" where
  "task_item_to_json E t =
     JObj (fld ''id'' (task_item_id_to_json E (ti_id t)) @ fld ''timestamp'' (time_to_json E (ti_timestamp t)) @
       task_to_fields E (ti_task t))"

definition task_item_of_json :: "json_texts \<Rightarrow> json \<Rightarrow> json_error + task_item" where
  "task_item_of_json E v =
     res_bind (as_object v) (\<lambda>obj.
     res_bind (req ''id'' (task_item_id_of_json E) obj) (\<lambda>i.
     res_bind (req ''timestamp'' (time_of_json E) obj) (\<lambda>timestamp.
     res_bind (task_of_fields E (without_keys [''id'', ''timestamp''] obj)) (\<lambda>task.
       Inr \<lparr>ti_id = i, ti_timestamp = timestamp, ti_task = task\<rparr>))))"

definition get_tasks_result_to_json :: "json_texts \<Rightarrow> get_tasks_result \<Rightarrow> json" where
  "get_tasks_result_to_json E r = JObj (fld ''tasks'' (JArr (map (task_item_to_json E) (gt_tasks r))))"

definition get_tasks_result_of_json :: "json_texts \<Rightarrow> json \<Rightarrow> json_error + get_tasks_result" where
  "get_tasks_result_of_json E v =
     res_bind (as_object v) (\<lambda>obj. res_bind (req ''tasks'' (as_list (task_item_of_json E)) obj) (\<lambda>ts. Inr \<lparr>gt_tasks = ts\<rparr>))"

lemmas result_json_defs = result_item_of_json_def result_base_to_fields_def result_base_of_fields_def variant_def
  req_def res_bind_def Let_def

interpretation result_item_json: json_form json_texts_ok result_item_to_json result_item_of_json
  by (unfold_locales; rename_tac E a; case_tac a; simp add: result_json_defs)

interpretation error_response_json: json_form json_texts_ok error_response_to_json error_response_of_json
  by unfold_locales (simp_all add: error_response_to_json_def error_response_of_json_def req_def opt_def res_bind_def)

lemmas task_json_defs = task_item_to_json_def task_item_of_json_def task_of_fields_def task_contents_of_json_def
  req_def res_bind_def Let_def

interpretation task_item_json: json_form json_texts_ok task_item_to_json task_item_of_json
  by (unfold_locales; rename_tac E a; case_tac "ti_task a"; simp add: task_json_defs)

lemma publish_events_result_reads:
  "json_texts_ok E \<Longrightarrow> publish_events_result_of_json E (publish_events_result_to_json E r) = Inr r"
  by (simp add: publish_events_result_to_json_def publish_events_result_of_json_def req_def res_bind_def
      result_item_json.list_reads del: as_list.simps)

lemma publish_events_request_reads:
  assumes "json_texts_ok E" "list_all no_clash (pr_events r)"
  shows "publish_events_request_of_json E (publish_events_request_to_json E r) = Inr r"
proof -
  have "as_list (event_of_json E) (JArr (map (event_to_json E) evs)) = Inr evs" if "list_all no_clash evs" for evs
    using that by (induction evs) (simp_all add: event_reads [OF assms(1)] res_bind_def)
  from this [OF assms(2)] show ?thesis
    by (simp add: publish_events_request_to_json_def publish_events_request_of_json_def req_def res_bind_def del: as_list.simps)
qed

subsection \<open>Texts in memory\<close>

text \<open>Times and uuids in unary, bytes as characters.\<close>

definition memory_texts :: json_texts where
  "memory_texts =
     \<lparr>jt_time = (\<lambda>t. replicate (unat (dt_secs t)) CHR ''s'' @ replicate (unat (dt_nanos t)) CHR ''n''),
      jt_parse_time = (\<lambda>s. Inr (DateTime (of_nat (length (filter (\<lambda>c. c = CHR ''s'') s)))
        (of_nat (length (filter (\<lambda>c. c = CHR ''n'') s))))),
      jt_uuid = (\<lambda>u. replicate (unat u) CHR ''u''), jt_parse_uuid = (\<lambda>s. Inr (of_nat (length s))),
      jt_base64_encode = map (\<lambda>b. char_of (unat b)), jt_base64_decode = (\<lambda>s. Inr (map (\<lambda>c. of_nat (of_char c)) s))\<rparr>"

lemma memory_texts_ok: "json_texts_ok memory_texts"
proof -
  have "word_of_nat (of_char (char_of (unat b) :: char)) = b" for b :: u8
    using unsigned_less [of b, where ?'a = nat] by simp
  then show ?thesis
    by (auto simp: json_texts_ok_def memory_texts_def Let_def o_def intro!: datetime.expand map_idI)
qed

subsection \<open>Properties\<close>

text \<open>C38: the body of a POST of events is read back as the events it was made of, whatever
  optional parts they have, with the only exception of failed executions whose own address or time is
  given.\<close>

theorem events_request_json_roundtrip:
  assumes "json_texts_ok E" "list_all no_clash (pr_events r)"
  shows "publish_events_request_of_json E (publish_events_request_to_json E r) = Inr r"
  using assms by (rule publish_events_request_reads)

definition failed_execution :: "datetime option \<Rightarrow> datetime option \<Rightarrow> cannot_execute_message_event_v2" where
  "failed_execution outer inner =
     \<lparr>cx_base = \<lparr>eb_event_id = TxEvent ''e'', eb_meta = Some \<lparr>em_tx_id = None, em_timestamp = outer, em_from_address = None,
        em_finalized = None,
        em_extra = \<lparr>cxm_from_address = None, cxm_timestamp = inner, cxm_task_item_id = TaskItemId 1\<rparr>\<rparr>\<rparr>,
      cx_message_id = TxEvent ''m'', cx_source_chain = ''avalanche'', cx_reason = OtherError, cx_details = ''details''\<rparr>"

theorem events_request_json_roundtrip_witness:
  "publish_events_request_of_json memory_texts (publish_events_request_to_json memory_texts
     \<lparr>pr_events = [CannotExecuteMessageV2 (failed_execution (Some (DateTime 3 1)) None)]\<rparr>) =
   Inr \<lparr>pr_events = [CannotExecuteMessageV2 (failed_execution (Some (DateTime 3 1)) None)]\<rparr>"
  using events_request_json_roundtrip [OF memory_texts_ok, of "\<lparr>pr_events = [CannotExecuteMessageV2 (failed_execution (Some (DateTime 3 1)) None)]\<rparr>"]
  by (simp add: failed_execution_def)



text \<open>C39: the tasks of a response are read back from their JSON form, for every kind of task.\<close>

theorem tasks_json_roundtrip:
  assumes "json_texts_ok E"
  shows "get_tasks_result_of_json E (get_tasks_result_to_json E r) = Inr r"
  using assms
  by (simp add: get_tasks_result_to_json_def get_tasks_result_of_json_def req_def res_bind_def task_item_json.list_reads
      del: as_list.simps)

theorem tasks_json_roundtrip_witness:
  "get_tasks_result_of_json memory_texts (get_tasks_result_to_json memory_texts
     \<lparr>gt_tasks = [\<lparr>ti_id = TaskItemId 5, ti_timestamp = DateTime 3 1, ti_task = GatewayTx \<lparr>gt_execute_data = [111]\<rparr>\<rparr>]\<rparr>) =
   Inr \<lparr>gt_tasks = [\<lparr>ti_id = TaskItemId 5, ti_timestamp = DateTime 3 1, ti_task = GatewayTx \<lparr>gt_execute_data = [111]\<rparr>\<rparr>]\<rparr>"
  by (rule tasks_json_roundtrip [OF memory_texts_ok])

end
