(* ===== verification/Gcp_Pipeline.thy ===== *)
theory Gcp_Pipeline
  imports Ingester
begin

text \<open>
  The ingester on Pub/Sub as a whole, from the delivery of a message to its acknowledgement: the
  callbacks of the read task (\<open>start_read_messages_task\<close>, \<open>forward_message\<close> of
  \<open>gcp/consumer.rs\<close>), the channel, and the messages the ingester works on (\<open>ingest\<close>,
  \<open>process_queue_msg\<close> of \<open>amplifier-ingester/src/lib.rs\<close>), interleaved at the points where the
  code waits for Redis, Pub/Sub or the API.

  A callback is a decoded message that waits for the look-up of its key, or (\<open>True\<close>) for the
  acknowledgement of a duplicate.  \<open>pl_accepted\<close> records the messages the API has accepted; it
  has no counterpart in the code.
\<close>

record ('w, 'x, 'h) pipeline =
  pl_service :: "(('w, 'x, event) consumer_state, 'h) service_state"
  pl_callbacks :: "(('x, event) gcp_message \<times> bool) list"
  pl_active :: "(('x, event) gcp_message \<times> (gcp_error ingest_error + unit) option) list"
  pl_accepted :: "('x, event) gcp_message list"

definition without :: "nat \<Rightarrow> 'a list \<Rightarrow> 'a list" where
  "without i xs = take i xs @ drop (Suc i) xs"

definition on_consumer ::
  "(('w, 'x, event) consumer_state \<Rightarrow> ('w, 'x, event) consumer_state) \<Rightarrow> ('w, 'x, 'h) pipeline \<Rightarrow>
     ('w, 'x, 'h) pipeline" where
  "on_consumer f p = p\<lparr>pl_service := (pl_service p)\<lparr>ss_queue := f (ss_queue (pl_service p))\<rparr>\<rparr>"

subsection \<open>The callbacks of the read task\<close>

text \<open>What the read task hands to the receiver of the library before the first callback.\<close>

record receive_config =
  rv_channel_capacity :: "u64 option"
  rv_worker_count :: u64
  rv_stream_ack_deadline_seconds :: i32

definition start_read_messages_task :: "'x receive_task \<Rightarrow> receive_config" where
  "start_read_messages_task T =
     \<lparr>rv_channel_capacity = rt_channel_capacity T, rv_worker_count = rt_worker_count T,
      rv_stream_ack_deadline_seconds = rt_ack_deadline T\<rparr>"

definition receive_step ::
  "('w, 'x) gcp_env \<Rightarrow> event message_content borsh_type \<Rightarrow> 'x receive_task \<Rightarrow> 'x \<Rightarrow>
     ('w, 'x, 'h) pipeline \<Rightarrow> ('w, 'x, 'h) pipeline" where
  "receive_step G C T received p =
     (let p = on_consumer (on_metrics con_record_received) p
      in case gcp_message_decode G C (rt_subscription_name T) received (rt_redis_connection T)
                (rt_ack_deadline T) (gs_world (ss_queue (pl_service p))) of
           Inl err \<Rightarrow> on_consumer (forward_message (Inl err)) p
         | Inr message \<Rightarrow> p\<lparr>pl_callbacks := pl_callbacks p @ [(message, False)]\<rparr>)"

definition check_step ::
  "('w, 'x) gcp_env \<Rightarrow> nat \<Rightarrow> ('x, event) gcp_message \<Rightarrow> ('w, 'x, 'h) pipeline \<Rightarrow> ('w, 'x, 'h) pipeline" where
  "check_step G i message p =
     (let (r, q) = is_processed G message (ss_queue (pl_service p)); p = on_consumer (\<lambda>_. q) p;
          done = p\<lparr>pl_callbacks := without i (pl_callbacks p)\<rparr>
      in case r of
           Inr True \<Rightarrow> (on_consumer (on_metrics con_record_duplicate) p)
                         \<lparr>pl_callbacks := (pl_callbacks p)[i := (message, True)]\<rparr>
         | Inr False \<Rightarrow> on_consumer (forward_message (Inr message)) done
         | Inl err \<Rightarrow> on_consumer (forward_message (Inl err)) done)"

definition ack_duplicate_step ::
  "('w, 'x) gcp_env \<Rightarrow> nat \<Rightarrow> ('x, event) gcp_message \<Rightarrow> ('w, 'x, 'h) pipeline \<Rightarrow> ('w, 'x, 'h) pipeline" where
  "ack_duplicate_step G i message p =
     (let (r, q) = io_map_err AckFailed (on_world (received_ack G (gx_msg message))) (ss_queue (pl_service p));
          done = (on_consumer (\<lambda>_. q) p)\<lparr>pl_callbacks := without i (pl_callbacks p)\<rparr>
      in case r of Inl err \<Rightarrow> on_consumer (forward_message (Inl err)) done | Inr _ \<Rightarrow> done)"

subsection \<open>The ingester\<close>

text \<open>The next item of the stream, as long as fewer messages than the limit are in flight.\<close>

definition next_step ::
  "('u, 'c) ingester \<Rightarrow> ('w, 'x, 'h) pipeline \<Rightarrow> ('w, 'x, 'h) pipeline option" where
  "next_step I p =
     (if unat (ig_concurrent_queue_items I) = 0 \<or> length (pl_active p) < unat (ig_concurrent_queue_items I)
      then case con_channel (ss_queue (pl_service p)) of
             [] \<Rightarrow> None
           | item # rest \<Rightarrow>
               let p = on_consumer (\<lambda>q. q\<lparr>con_channel := rest\<rparr>) p
               in Some (case item of
                     Inl err \<Rightarrow> p\<lparr>pl_service := service_record_error (pl_service p)\<rparr>
                   | Inr m \<Rightarrow> p\<lparr>pl_active := pl_active p @ [(m, None)]\<rparr>)
      else None)"

definition request_step ::
  "('h, 'u, 'c, 'y, 'i, 't) http_env \<Rightarrow> ('u, 'c) ingester \<Rightarrow> nat \<Rightarrow> ('x, event) gcp_message \<Rightarrow>
     ('w, 'x, 'h) pipeline \<Rightarrow> ('w, 'x, 'h) pipeline" where
  "request_step E I i m p =
     (let (result, st) = post_event E I (gx_decoded m) (pl_service p)
      in p\<lparr>pl_service := st, pl_active := (pl_active p)[i := (m, Some result)],
           pl_accepted := (if isl result then pl_accepted p else m # pl_accepted p)\<rparr>)"

definition answer_step ::
  "('w, 'x) gcp_env \<Rightarrow> nat \<Rightarrow> ('x, event) gcp_message \<Rightarrow> gcp_error ingest_error + unit \<Rightarrow>
     ('w, 'x, 'h) pipeline \<Rightarrow> ('w, 'x, 'h) pipeline" where
  "answer_step G i m result p =
     p\<lparr>pl_service := answer_msg (gcp_event_consumer G) result m (pl_service p),
       pl_active := without i (pl_active p)\<rparr>"

text \<open>
  The read task ends with the loop of the receiver, well after a cancellation or with an error
  (\<open>GcpError::ReceiverTaskCrash\<close>); nothing reads its result.  Dropping the consumer cancels it.
\<close>

definition read_task_result :: "ext_error + unit \<Rightarrow> gcp_error + unit" where
  "read_task_result received = map_err ReceiverTaskCrash received"

datatype 'x pipe_event =
    Deliver 'x | Lookup nat | AckDuplicate nat | ReceiverEnds "ext_error + unit" | DropConsumer
  | NextItem | Post nat | Answer nat

fun pipe_do ::
  "('w, 'x) gcp_env \<Rightarrow> event message_content borsh_type \<Rightarrow> 'x receive_task \<Rightarrow>
     ('h, 'u, 'c, 'y, 'i, 't) http_env \<Rightarrow> ('u, 'c) ingester \<Rightarrow> 'x pipe_event \<Rightarrow>
     ('w, 'x, 'h) pipeline \<Rightarrow> ('w, 'x, 'h) pipeline option" where
  "pipe_do G C T E I (Deliver received) p =
     (if con_task_finished (ss_queue (pl_service p)) then None else Some (receive_step G C T received p))"
| "pipe_do G C T E I (Lookup i) p =
     (if i < length (pl_callbacks p)
      then case pl_callbacks p ! i of (m, False) \<Rightarrow> Some (check_step G i m p) | _ \<Rightarrow> None else None)"
| "pipe_do G C T E I (AckDuplicate i) p =
     (if i < length (pl_callbacks p)
      then case pl_callbacks p ! i of (m, True) \<Rightarrow> Some (ack_duplicate_step G i m p) | _ \<Rightarrow> None else None)"
| "pipe_do G C T E I (ReceiverEnds received) p =
     (if con_task_finished (ss_queue (pl_service p)) \<or>
         \<not> isl (read_task_result received) \<and> \<not> con_cancelled (ss_queue (pl_service p)) then None
      else Some (on_consumer (\<lambda>s. s\<lparr>con_task_finished := True\<rparr>) p))"
| "pipe_do G C T E I DropConsumer p = Some (on_consumer gcp_consumer_drop p)"
| "pipe_do G C T E I NextItem p = next_step I p"
| "pipe_do G C T E I (Post i) p =
     (if i < length (pl_active p)
      then case pl_active p ! i of (m, None) \<Rightarrow> Some (request_step E I i m p) | _ \<Rightarrow> None else None)"
| "pipe_do G C T E I (Answer i) p =
     (if i < length (pl_active p)
      then case pl_active p ! i of (m, Some result) \<Rightarrow> Some (answer_step G i m result p) | _ \<Rightarrow> None else None)"

text \<open>
  Runs: events of the program, and changes of the services that it does not make (keys expire,
  messages are redelivered); those leave the acknowledgements as they are and add no key.
\<close>

inductive pipe_steps ::
  "('w, 'x) gcp_env \<Rightarrow> ('w, 'x) services_view \<Rightarrow> event message_content borsh_type \<Rightarrow> 'x receive_task \<Rightarrow>
     ('h, 'u, 'c, 'y, 'i, 't) http_env \<Rightarrow> ('u, 'c) ingester \<Rightarrow> ('w, 'x, 'h) pipeline \<Rightarrow>
     ('w, 'x, 'h) pipeline \<Rightarrow> bool"
  for G V C T E I where
  none: "pipe_steps G V C T E I p p"
| event: "pipe_steps G V C T E I p q \<Longrightarrow> pipe_do G C T E I e q = Some r \<Longrightarrow> pipe_steps G V C T E I p r"
| world: "pipe_steps G V C T E I p q \<Longrightarrow> w = gs_world (ss_queue (pl_service q)) \<Longrightarrow>
     sv_live V w' \<subseteq> sv_live V w \<Longrightarrow> (\<forall>x. sv_answered V x Ack w' \<longrightarrow> sv_answered V x Ack w) \<Longrightarrow>
     pipe_steps G V C T E I p (on_consumer (\<lambda>s. s\<lparr>gs_world := w'\<rparr>) q)"

fun pipe_run ::
  "('w, 'x) gcp_env \<Rightarrow> event message_content borsh_type \<Rightarrow> 'x receive_task \<Rightarrow>
     ('h, 'u, 'c, 'y, 'i, 't) http_env \<Rightarrow> ('u, 'c) ingester \<Rightarrow> 'x pipe_event list \<Rightarrow>
     ('w, 'x, 'h) pipeline \<Rightarrow> ('w, 'x, 'h) pipeline option" where
  "pipe_run G C T E I [] p = Some p"
| "pipe_run G C T E I (e # es) p =
     (case pipe_do G C T E I e p of Some q \<Rightarrow> pipe_run G C T E I es q | None \<Rightarrow> None)"

lemma pipe_steps_run:
  "pipe_steps G V C T E I p q \<Longrightarrow> pipe_run G C T E I es q = Some r \<Longrightarrow> pipe_steps G V C T E I p r"
  by (induction es arbitrary: q) (auto split: option.splits intro: pipe_steps.event)

lemma on_consumer_simps [simp]:
  "ss_queue (pl_service (on_consumer f p)) = f (ss_queue (pl_service p))"
  "pl_callbacks (on_consumer f p) = pl_callbacks p" "pl_active (on_consumer f p) = pl_active p"
  "pl_accepted (on_consumer f p) = pl_accepted p"
  by (simp_all add: on_consumer_def)

text \<open>A callback that is not interleaved with anything is \<open>on_received\<close>.\<close>

lemma callback_sequential:
  assumes "pl_callbacks p = []" "\<not> con_task_finished (ss_queue (pl_service p))"
  shows "\<exists>es q. pipe_run G C T E I (Deliver x # es) p = Some q \<and> pl_callbacks q = [] \<and>
    ss_queue (pl_service q) = on_received G C T x (ss_queue (pl_service p))"
proof -
  let ?s = "on_metrics con_record_received (ss_queue (pl_service p))"
  show ?thesis
  proof (cases "gcp_message_decode G C (rt_subscription_name T) x (rt_redis_connection T) (rt_ack_deadline T) (gs_world ?s)")
    case (Inl e)
    with assms have "pipe_run G C T E I [Deliver x] p = Some (receive_step G C T x p) \<and>
        pl_callbacks (receive_step G C T x p) = [] \<and>
        ss_queue (pl_service (receive_step G C T x p)) = on_received G C T x (ss_queue (pl_service p))"
      by (simp add: receive_step_def on_received_def Let_def)
    then show ?thesis by blast
  next
    case (Inr m)
    obtain r s where r: "is_processed G m ?s = (r, s)" by force
    show ?thesis
    proof (cases "r = Inr True")
      case True
      obtain a t where a: "io_map_err AckFailed (on_world (received_ack G (gx_msg m))) (on_metrics con_record_duplicate s) = (a, t)"
        by force
      have "\<exists>q. pipe_run G C T E I [Deliver x, Lookup 0, AckDuplicate 0] p = Some q \<and> pl_callbacks q = [] \<and>
          ss_queue (pl_service q) = on_received G C T x (ss_queue (pl_service p))"
        using assms Inr r a True
        by (simp add: receive_step_def check_step_def ack_duplicate_step_def on_received_def without_def Let_def
            split: sum.split)
      then show ?thesis by blast
    next
      case False
      have "\<exists>q. pipe_run G C T E I [Deliver x, Lookup 0] p = Some q \<and> pl_callbacks q = [] \<and>
          ss_queue (pl_service q) = on_received G C T x (ss_queue (pl_service p))"
        using assms Inr r False
        by (simp add: receive_step_def check_step_def on_received_def without_def Let_def
            split: sum.split bool.split)
      then show ?thesis by blast
    qed
  qed
qed

subsection \<open>What is relied on of Redis and Pub/Sub\<close>

text \<open>A change of the services: the keys that may become live, and the messages that may become
  acknowledged.\<close>

definition world_within ::
  "('w, 'x) services_view \<Rightarrow> string set \<Rightarrow> 'x set \<Rightarrow> 'w \<Rightarrow> 'w \<Rightarrow> bool" where
  "world_within V keys acks w w' \<longleftrightarrow>
     sv_live V w' \<subseteq> keys \<union> sv_live V w \<and> (\<forall>y. sv_answered V y Ack w' \<longrightarrow> sv_answered V y Ack w \<or> y \<in> acks)"

text \<open>Only an acknowledgement acknowledges a message, and only that message; only setting a key
  makes it live, and a look-up finds only live keys.\<close>

definition services_frame :: "('w, 'x) gcp_env \<Rightarrow> ('w, 'x) services_view \<Rightarrow> bool" where
  "services_frame G V \<longleftrightarrow>
     (\<forall>c k v t w. world_within V {k} {} w (snd (redis_set_ex G c k v t w))) \<and>
     (\<forall>c k w. world_within V {} {} w (snd (redis_exists G c k w))) \<and>
     (\<forall>c k w w'. redis_exists G c k w = (Inr True, w') \<longrightarrow> k \<in> sv_live V w) \<and>
     (\<forall>x w. world_within V {} {x} w (snd (received_ack G x w))) \<and>
     (\<forall>x w. world_within V {} {} w (snd (received_nack G x w)))"

lemma world_within_refl [simp]: "world_within V keys acks w w"
  by (simp add: world_within_def)

lemma world_within_trans:
  "world_within V keys acks w w1 \<Longrightarrow> world_within V keys acks w1 w2 \<Longrightarrow> world_within V keys acks w w2"
  unfolding world_within_def by blast

lemma world_within_mono:
  "world_within V k a w w' \<Longrightarrow> k \<subseteq> keys \<Longrightarrow> a \<subseteq> acks \<Longrightarrow> world_within V keys acks w w'"
  unfolding world_within_def by blast

lemma services_frameD:
  assumes "services_frame G V"
  shows "k \<in> keys \<Longrightarrow> redis_set_ex G c k v t w = (r1, w') \<Longrightarrow> world_within V keys acks w w'"
    and "redis_exists G c k w = (r2, w') \<Longrightarrow> world_within V keys acks w w'"
    and "redis_exists G c k w = (Inr True, w') \<Longrightarrow> k \<in> sv_live V w"
    and "x \<in> acks \<Longrightarrow> received_ack G x w = (r3, w') \<Longrightarrow> world_within V keys acks w w'"
    and "received_nack G x w = (r3, w') \<Longrightarrow> world_within V keys acks w w'"
proof -
  have frame: "world_within V {k} {} w (snd (redis_set_ex G c k v t w))"
    "world_within V {} {} w (snd (redis_exists G c k w))"
    "redis_exists G c k w = (Inr True, w') \<Longrightarrow> k \<in> sv_live V w"
    "world_within V {} {x} w (snd (received_ack G x w))"
    "world_within V {} {} w (snd (received_nack G x w))"
    using assms unfolding services_frame_def by metis+
  show "world_within V keys acks w w'" if "k \<in> keys" "redis_set_ex G c k v t w = (r1, w')"
    using world_within_mono [OF frame(1), of keys acks] that by simp
  show "world_within V keys acks w w'" if "redis_exists G c k w = (r2, w')"
    using world_within_mono [OF frame(2), of keys acks] that by simp
  show "k \<in> sv_live V w" if "redis_exists G c k w = (Inr True, w')"
    using frame(3) that .
  show "world_within V keys acks w w'" if "x \<in> acks" "received_ack G x w = (r3, w')"
    using world_within_mono [OF frame(4), of keys acks] that by simp
  show "world_within V keys acks w w'" if "received_nack G x w = (r3, w')"
    using world_within_mono [OF frame(5), of keys acks] that by simp
qed

subsection \<open>Where an acknowledgement comes from\<close>

definition dedup_key :: "'x receive_task \<Rightarrow> string \<Rightarrow> string" where
  "dedup_key T i = ''dedup:'' @ rt_subscription_name T @ '':id:'' @ i"

text \<open>What the read task hands on is decoded from a message of its subscription.\<close>

definition message_of :: "('w, 'x) gcp_env \<Rightarrow> 'x receive_task \<Rightarrow> ('x, event) gcp_message \<Rightarrow> bool" where
  "message_of G T m \<longleftrightarrow>
     gx_subscription_name m = rt_subscription_name T \<and>
     ps_attributes (received_message G (gx_msg m)) ''Msg-Id'' = Some (gx_id m)"

fun callback_ok :: "('w, 'x) gcp_env \<Rightarrow> 'x receive_task \<Rightarrow> string set \<Rightarrow> ('x, event) gcp_message \<times> bool \<Rightarrow> bool" where
  "callback_ok G T ids (m, dup) \<longleftrightarrow> message_of G T m \<and> (dup \<longrightarrow> gx_id m \<in> ids)"

fun item_ok :: "('w, 'x) gcp_env \<Rightarrow> 'x receive_task \<Rightarrow> gcp_error + ('x, event) gcp_message \<Rightarrow> bool" where
  "item_ok G T (Inl err) \<longleftrightarrow> True"
| "item_ok G T (Inr m) \<longleftrightarrow> message_of G T m"

fun active_ok ::
  "('w, 'x) gcp_env \<Rightarrow> 'x receive_task \<Rightarrow> string set \<Rightarrow>
     ('x, event) gcp_message \<times> (gcp_error ingest_error + unit) option \<Rightarrow> bool" where
  "active_ok G T ids (m, Some (Inr _)) \<longleftrightarrow> message_of G T m \<and> gx_id m \<in> ids"
| "active_ok G T ids (m, _) \<longleftrightarrow> message_of G T m"

definition accepted_ids :: "('w, 'x, 'h) pipeline \<Rightarrow> string set" where
  "accepted_ids p = gx_id ` set (pl_accepted p)"

definition messages_ok :: "('w, 'x) gcp_env \<Rightarrow> 'x receive_task \<Rightarrow> ('w, 'x, 'h) pipeline \<Rightarrow> bool" where
  "messages_ok G T p \<longleftrightarrow>
     list_all (callback_ok G T (accepted_ids p)) (pl_callbacks p) \<and>
     list_all (item_ok G T) (con_channel (ss_queue (pl_service p))) \<and>
     list_all (active_ok G T (accepted_ids p)) (pl_active p)"

text \<open>A world in which the keys of the subscription and the acknowledgements that were not there
  in \<open>w0\<close> are those of accepted messages.\<close>

definition justified ::
  "('w, 'x) gcp_env \<Rightarrow> ('w, 'x) services_view \<Rightarrow> 'x receive_task \<Rightarrow> 'w \<Rightarrow> string set \<Rightarrow> 'w \<Rightarrow> bool" where
  "justified G V T w0 ids w \<longleftrightarrow>
     (\<forall>i. dedup_key T i \<in> sv_live V w \<longrightarrow> i \<in> ids) \<and>
     (\<forall>x. sv_answered V x Ack w \<longrightarrow>
        sv_answered V x Ack w0 \<or> (\<exists>i \<in> ids. ps_attributes (received_message G x) ''Msg-Id'' = Some i))"

definition pipe_ok ::
  "('w, 'x) gcp_env \<Rightarrow> ('w, 'x) services_view \<Rightarrow> 'x receive_task \<Rightarrow> 'w \<Rightarrow> ('w, 'x, 'h) pipeline \<Rightarrow> bool" where
  "pipe_ok G V T w0 p \<longleftrightarrow>
     messages_ok G T p \<and>
     justified G V T w0 (accepted_ids p) (gs_world (ss_queue (pl_service p)))"

lemma dedup_key_inj [simp]: "dedup_key T i = dedup_key T j \<longleftrightarrow> i = j"
  by (simp add: dedup_key_def)

lemma message_of_key: "message_of G T m \<Longrightarrow> redis_id_key m = dedup_key T (gx_id m)"
  by (simp add: message_of_def redis_id_key_def dedup_key_def)

lemma justified_within:
  assumes "justified G V T w0 ids w" "world_within V keys acks w w'"
    and "\<And>i. dedup_key T i \<in> keys \<Longrightarrow> i \<in> ids"
    and "\<And>x. x \<in> acks \<Longrightarrow> \<exists>i \<in> ids. ps_attributes (received_message G x) ''Msg-Id'' = Some i"
  shows "justified G V T w0 ids w'"
  using assms unfolding justified_def world_within_def by blast

lemma justified_more: "justified G V T w0 ids w \<Longrightarrow> ids \<subseteq> ids' \<Longrightarrow> justified G V T w0 ids' w"
  unfolding justified_def by blast

lemma decoded_message_of:
  assumes "gcp_message_decode G C (rt_subscription_name T) x conn d w = Inr m"
  shows "message_of G T m"
  using assms by (auto simp: gcp_message_decode_def message_of_def Let_def res_bind_eq_Inr ok_or_def split: option.splits)

lemma forward_message_channel:
  "set (con_channel (forward_message r s)) \<subseteq> insert r (set (con_channel s))"
  "gs_world (forward_message r s) = gs_world s"
  by (auto simp: forward_message_def Let_def)

lemma list_all_without: "list_all P xs \<Longrightarrow> list_all P (without i xs)"
  by (auto simp: without_def list_all_iff dest: in_set_takeD in_set_dropD)

lemma list_all_update: "list_all P xs \<Longrightarrow> P y \<Longrightarrow> list_all P (xs[i := y])"
  by (auto simp: list_all_iff dest!: set_update_subset_insert [THEN subsetD])

text \<open>The answers of the ingester leave the channel alone and change the services only as they say.\<close>

lemma gcp_ack_within:
  assumes "services_frame G V" "gcp_message_ack G k m st = (r, m', st')" "k \<noteq> Progress"
  shows "world_within V (if k = Ack then {redis_id_key m} else {}) (if k = Ack then {gx_msg m} else {})
      (gs_world st) (gs_world st') \<and> con_channel st' = con_channel st"
proof (cases "k = Ack")
  case True
  note D = services_frameD [OF assms(1)]
  have "world_within V {redis_id_key m} {gx_msg m} (gs_world st) (gs_world st')"
    using assms(2) [unfolded True]
  proof (cases rule: gcp_ack_cases)
    case (refused e w1)
    show ?thesis
      using D(4) [OF singletonI refused(1)] by (simp add: refused(4))
  next
    case (unrecorded e w1 w2)
    show ?thesis
      unfolding unrecorded(5) by (rule world_within_trans [OF D(4) [OF singletonI unrecorded(1)] D(1) [OF singletonI unrecorded(2)]])
  next
    case (acked s w1 w2)
    show ?thesis
      unfolding acked(5) by (rule world_within_trans [OF D(4) [OF singletonI acked(1)] D(1) [OF singletonI acked(2)]])
  qed
  moreover have "con_channel st' = con_channel st"
    using assms(2) True
    by (auto simp: gcp_message_ack_def io_bind_def io_map_err_def on_world_def io_do_def io_ok_def Let_def
        split: prod.splits sum.splits)
  ultimately show ?thesis by (simp add: True)
next
  case False
  with assms(3) have k: "k = Nak" by (cases k) auto
  obtain a w' where a: "received_nack G (gx_msg m) (gs_world st) = (a, w')" by force
  have "gs_world st' = w' \<and> con_channel st' = con_channel st"
    using assms(2) a
    by (auto simp: k gcp_message_ack_def io_bind_def io_map_err_def io_inspect_err_def on_world_def io_do_def io_ok_def Let_def
        split: prod.splits sum.splits)
  with services_frameD(5) [OF assms(1) a] show ?thesis by (simp add: k)
qed

lemma answer_msg_within:
  fixes st :: "(('w, 'x, event) consumer_state, 'h) service_state"
  assumes "services_frame G V"
  shows "world_within V (if isl r then {} else {redis_id_key m}) (if isl r then {} else {gx_msg m})
      (gs_world (ss_queue st)) (gs_world (ss_queue (answer_msg (gcp_event_consumer G) r m st))) \<and>
    con_channel (ss_queue (answer_msg (gcp_event_consumer G) r m st)) = con_channel (ss_queue st)"
proof -
  let ?k = "if isl r then Nak else Ack"
  obtain a m' q where a: "gcp_message_ack G ?k m (ss_queue st) = (a, m', q)" by (metis prod_cases3)
  have "ss_queue (answer_msg (gcp_event_consumer G) r m st) = q"
    using a by (cases r) (auto simp: answer_msg_def send_ack_def gcp_event_consumer_def Let_def split: prod.splits)
  with gcp_ack_within [OF assms a] show ?thesis by (auto split: if_splits)
qed

subsection \<open>The steps keep the invariant\<close>

lemmas pipe_ok_defs = pipe_ok_def messages_ok_def

lemma accepted_ids_simps [simp]:
  "accepted_ids (on_consumer f p) = accepted_ids p" "accepted_ids (p\<lparr>pl_service := s\<rparr>) = accepted_ids p"
  "accepted_ids (p\<lparr>pl_callbacks := cs\<rparr>) = accepted_ids p" "accepted_ids (p\<lparr>pl_active := a\<rparr>) = accepted_ids p"
  by (simp_all add: accepted_ids_def)

lemma pipe_okD:
  assumes "pipe_ok G V T w0 p"
  shows "list_all (callback_ok G T (accepted_ids p)) (pl_callbacks p)"
    "list_all (item_ok G T) (con_channel (ss_queue (pl_service p)))"
    "list_all (active_ok G T (accepted_ids p)) (pl_active p)"
    "justified G V T w0 (accepted_ids p) (gs_world (ss_queue (pl_service p)))"
  using assms by (simp_all add: pipe_ok_defs)

lemma active_ok_more: "list_all (active_ok G T ids) as \<Longrightarrow> ids \<subseteq> ids' \<Longrightarrow> list_all (active_ok G T ids') as"
  and callback_ok_more: "list_all (callback_ok G T ids) cs \<Longrightarrow> ids \<subseteq> ids' \<Longrightarrow> list_all (callback_ok G T ids') cs"
proof -
  assume "list_all (active_ok G T ids) as" "ids \<subseteq> ids'"
  moreover have "active_ok G T ids a \<Longrightarrow> ids \<subseteq> ids' \<Longrightarrow> active_ok G T ids' a" for a :: "(_, event) gcp_message \<times> (gcp_error ingest_error + unit) option"
    by (cases "(G, T, ids, a)" rule: active_ok.cases) auto
  ultimately show "list_all (active_ok G T ids') as" by (auto simp: list_all_iff)
next
  assume "list_all (callback_ok G T ids) cs" "ids \<subseteq> ids'"
  moreover have "callback_ok G T ids c \<Longrightarrow> ids \<subseteq> ids' \<Longrightarrow> callback_ok G T ids' c" for c :: "(_, event) gcp_message \<times> bool"
    by (cases c) auto
  ultimately show "list_all (callback_ok G T ids') cs" by (auto simp: list_all_iff)
qed

lemma list_all_forward:
  "list_all P (con_channel s) \<Longrightarrow> P r \<Longrightarrow> list_all P (con_channel (forward_message r s))"
  using forward_message_channel(1) [of r s] by (auto simp: list_all_iff)

lemma receive_step_ok:
  assumes "pipe_ok G V T w0 p"
  shows "pipe_ok G V T w0 (receive_step G C T x p)"
  using assms decoded_message_of
  by (auto simp: receive_step_def pipe_ok_defs Let_def forward_message_channel intro!: list_all_forward split: sum.split)

lemma check_step_ok:
  assumes "services_frame G V" "pipe_ok G V T w0 p" "i < length (pl_callbacks p)" "pl_callbacks p ! i = (m, False)"
  shows "pipe_ok G V T w0 (check_step G i m p)"
proof -
  have m: "message_of G T m"
    using pipe_okD(1) [OF assms(2)] assms(3,4) by (auto simp: list_all_length dest!: spec [of _ i])
  obtain b w1 where b: "redis_exists G (gx_redis_connection m) (redis_id_key m) (gs_world (ss_queue (pl_service p))) = (b, w1)"
    by force
  have live: "gx_id m \<in> accepted_ids p" if "b = Inr True"
    using services_frameD(3) [OF assms(1) b [unfolded that]] assms(2) message_of_key [OF m]
    by (auto simp: pipe_ok_def justified_def)
  have w1: "justified G V T w0 (accepted_ids p) w1"
    by (rule justified_within [OF _ services_frameD(2) [OF assms(1) b, of "{}" "{}"]])
      (use assms(2) in \<open>auto simp: pipe_ok_def\<close>)
  consider e where "b = Inl e" | "b = Inr True" | "b = Inr False" by (cases b) auto
  then show ?thesis
    using assms(2) m live w1 b
    by cases (auto simp: check_step_def pipe_ok_defs is_processed_def io_map_err_def on_world_def Let_def
        forward_message_channel intro!: list_all_forward list_all_without list_all_update)
qed

lemma ack_duplicate_step_ok:
  assumes "services_frame G V" "pipe_ok G V T w0 p" "i < length (pl_callbacks p)" "pl_callbacks p ! i = (m, True)"
  shows "pipe_ok G V T w0 (ack_duplicate_step G i m p)"
proof -
  have m: "message_of G T m" "gx_id m \<in> accepted_ids p"
    using pipe_okD(1) [OF assms(2)] assms(3,4) by (auto simp: list_all_length dest!: spec [of _ i])
  obtain a w1 where a: "received_ack G (gx_msg m) (gs_world (ss_queue (pl_service p))) = (a, w1)" by force
  have w1: "justified G V T w0 (accepted_ids p) w1"
    by (rule justified_within [OF _ services_frameD(4) [OF assms(1) singletonI a, of "{}"]])
      (use assms(2) m in \<open>auto simp: pipe_ok_def message_of_def\<close>)
  show ?thesis
    using assms(2) w1 a
    by (cases a) (auto simp: ack_duplicate_step_def pipe_ok_defs io_map_err_def on_world_def Let_def
        forward_message_channel intro!: list_all_forward list_all_without)
qed

lemma next_step_ok: "pipe_ok G V T w0 p \<Longrightarrow> next_step I p = Some q \<Longrightarrow> pipe_ok G V T w0 q"
  by (auto simp: next_step_def pipe_ok_defs Let_def split: if_splits list.splits sum.splits)

lemma request_step_ok:
  assumes "pipe_ok G V T w0 p" "i < length (pl_active p)" "pl_active p ! i = (m, None)"
  shows "pipe_ok G V T w0 (request_step E I i m p)"
proof -
  have m: "message_of G T m"
    using pipe_okD(3) [OF assms(1)] assms(2,3) by (auto simp: list_all_length dest!: spec [of _ i])
  obtain r st where r: "post_event E I (gx_decoded m) (pl_service p) = (r :: gcp_error ingest_error + unit, st)" by force
  have same: "ss_queue st = ss_queue (pl_service p)" using post_event_metrics [OF r] by simp
  show ?thesis
  proof (cases r)
    case (Inl err)
    with pipe_okD [OF assms(1)] r m same show ?thesis
      by (auto simp: request_step_def pipe_ok_defs intro!: list_all_update)
  next
    case (Inr u)
    let ?q = "request_step E I i m p"
    have q: "?q = p\<lparr>pl_service := st, pl_active := (pl_active p)[i := (m, Some (Inr u))], pl_accepted := m # pl_accepted p\<rparr>"
      using r Inr by (simp add: request_step_def)
    have more: "accepted_ids p \<subseteq> accepted_ids ?q" "gx_id m \<in> accepted_ids ?q"
      by (auto simp: accepted_ids_def q)
    show ?thesis
      unfolding pipe_ok_defs
      using pipe_okD(2) [OF assms(1)] callback_ok_more [OF pipe_okD(1) [OF assms(1)] more(1)] same m more(2)
        list_all_update [OF active_ok_more [OF pipe_okD(3) [OF assms(1)] more(1)], of "(m, Some (Inr u))" i]
        justified_more [OF pipe_okD(4) [OF assms(1)] more(1)]
      by (simp add: q)
  qed
qed

lemma answer_step_ok:
  assumes "services_frame G V" "pipe_ok G V T w0 p" "i < length (pl_active p)" "pl_active p ! i = (m, Some r)"
  shows "pipe_ok G V T w0 (answer_step G i m r p)"
proof -
  have m: "message_of G T m" "isl r \<or> gx_id m \<in> accepted_ids p"
    using pipe_okD(3) [OF assms(2)] assms(3,4) by (cases r; auto simp: list_all_length dest!: spec [of _ i])+
  note ans = answer_msg_within [OF assms(1), of r m "pl_service p"]
  have "justified G V T w0 (accepted_ids p)
      (gs_world (ss_queue (answer_msg (gcp_event_consumer G) r m (pl_service p))))"
    by (rule justified_within [OF _ ans [THEN conjunct1]])
      (use assms(2) m message_of_key [OF m(1)] in \<open>auto simp: pipe_ok_def message_of_def split: if_splits\<close>)
  with assms(2) ans [THEN conjunct2] show ?thesis
    by (auto simp: answer_step_def pipe_ok_defs intro!: list_all_without)
qed

lemma pipe_ok_step:
  assumes "services_frame G V" "pipe_ok G V T w0 p" "pipe_do G C T E I e p = Some q"
  shows "pipe_ok G V T w0 q"
  using assms(3)
proof (cases e)
  case (Deliver x)
  with assms(2,3) show ?thesis by (auto simp: receive_step_ok split: if_splits)
next
  case (Lookup i)
  with assms(3) show ?thesis
    by (auto simp: check_step_ok [OF assms(1,2)] split: if_splits prod.splits bool.splits)
next
  case (AckDuplicate i)
  with assms(3) show ?thesis
    by (auto simp: ack_duplicate_step_ok [OF assms(1,2)] split: if_splits prod.splits bool.splits)
next
  case (ReceiverEnds r)
  with assms(2,3) show ?thesis by (auto simp: pipe_ok_defs split: if_splits)
next
  case DropConsumer
  with assms(2,3) show ?thesis by (auto simp: pipe_ok_defs gcp_consumer_drop_def)
next
  case NextItem
  with assms(2,3) show ?thesis by (auto intro: next_step_ok)
next
  case (Post i)
  with assms(3) show ?thesis
    by (auto simp: request_step_ok [OF assms(2)] split: if_splits prod.splits option.splits)
next
  case (Answer i)
  with assms(3) show ?thesis
    by (auto simp: answer_step_ok [OF assms(1,2)] split: if_splits prod.splits option.splits)
qed

lemma pipe_ok_steps:
  assumes "services_frame G V" "pipe_steps G V C T E I p q" "pipe_ok G V T w0 p"
  shows "pipe_ok G V T w0 q"
  using assms(2,3)
proof induction
  case (event p q e r)
  then show ?case using pipe_ok_step [OF assms(1)] by blast
next
  case (world p q w w')
  then have "world_within V {} {} w w'" by (auto simp: world_within_def)
  with world justified_within [of G V T w0 _ w "{}" "{}" w'] show ?case
    by (auto simp: pipe_ok_defs)
qed

lemma accepted_step:
  fixes p :: "('w, 'x, 'h) pipeline"
  assumes "pipe_do G C T E I e p = Some q" "m \<in> set (pl_accepted q)"
  shows "m \<in> set (pl_accepted p) \<or>
    (\<exists>(st :: (('w, 'x, event) consumer_state, 'h) service_state) st1.
       post_event E I (gx_decoded m) st = (Inr () :: gcp_error ingest_error + unit, st1))"
proof (cases e)
  case (Post i)
  with assms obtain n where q: "q = request_step E I i n p"
    by (auto split: if_splits prod.splits option.splits)
  obtain r :: "gcp_error ingest_error + unit" and st where r: "post_event E I (gx_decoded n) (pl_service p) = (r, st)"
    by force
  show ?thesis
  proof (cases r)
    case (Inr u)
    with assms(2) q r show ?thesis by (cases "m = n") (auto simp: request_step_def)
  qed (use assms(2) q r in \<open>simp add: request_step_def\<close>)
qed (use assms in \<open>auto simp: receive_step_def check_step_def ack_duplicate_step_def next_step_def answer_step_def Let_def
    split: if_splits prod.splits sum.splits bool.splits option.splits list.splits\<close>)

lemma accepted_steps:
  fixes p :: "('w, 'x, 'h) pipeline"
  shows "pipe_steps G V C T E I p q \<Longrightarrow> m \<in> set (pl_accepted q) \<Longrightarrow> m \<in> set (pl_accepted p) \<or>
    (\<exists>(st :: (('w, 'x, event) consumer_state, 'h) service_state) st1. post_event E I (gx_decoded m) st = (Inr () :: gcp_error ingest_error + unit, st1))"
  by (induction rule: pipe_steps.induct) (auto dest: accepted_step)

lemma acked_accepted:
  assumes "services_frame G V"
    and "pl_callbacks p = []" "con_channel (ss_queue (pl_service p)) = []" "pl_active p = []"
    and "\<And>i. dedup_key T i \<in> sv_live V (gs_world (ss_queue (pl_service p))) \<Longrightarrow> i \<in> accepted_ids p"
    and "pipe_steps G V C T E I p q"
    and "sv_answered V x Ack (gs_world (ss_queue (pl_service q)))"
    and "\<not> sv_answered V x Ack (gs_world (ss_queue (pl_service p)))"
  shows "\<exists>m \<in> set (pl_accepted q). ps_attributes (received_message G x) ''Msg-Id'' = Some (gx_id m)"
proof -
  have "pipe_ok G V T (gs_world (ss_queue (pl_service p))) p"
    using assms(2-5) by (auto simp: pipe_ok_defs justified_def)
  from pipe_ok_steps [OF assms(1,6) this] assms(7,8) show ?thesis
    by (auto simp: pipe_ok_defs justified_def accepted_ids_def)
qed

subsection \<open>A pipeline in memory\<close>

definition memory_event_content :: "event message_content borsh_type" where
  "memory_event_content = \<lparr>to_vec = (\<lambda>m. Inr []), from_slice = (\<lambda>bs. Inr (message_content_new sample_event))\<rparr>"

definition memory_pipeline :: "(nat \<times> bytes) list \<Rightarrow> (memory_services, nat, memory_api) pipeline" where
  "memory_pipeline replies =
     \<lparr>pl_service = memory_ingester_state memory_event_state replies, pl_callbacks = [], pl_active = [], pl_accepted = []\<rparr>"

abbreviation memory_pipe_run where
  "memory_pipe_run \<equiv> pipe_run memory_gcp memory_event_content memory_task memory_http memory_ingester"

text \<open>The services in memory with other contents of the messages received.\<close>

definition memory_gcp_with :: "(nat \<Rightarrow> pubsub_message) \<Rightarrow> (memory_services, nat) gcp_env" where
  "memory_gcp_with contents = memory_gcp\<lparr>received_message := contents\<rparr>"

lemma memory_gcp_with_own: "memory_gcp_with (received_message memory_gcp) = memory_gcp"
  by (simp add: memory_gcp_with_def)

lemma memory_services_frame_with: "services_frame (memory_gcp_with contents) memory_services_view"
  by (auto simp: services_frame_def world_within_def memory_gcp_with_def memory_gcp_def memory_services_view_def io_do_def)

lemma memory_services_frame: "services_frame memory_gcp memory_services_view"
  using memory_services_frame_with [of "received_message memory_gcp"] by (simp add: memory_gcp_with_own)

lemmas pipe_step_defs = receive_step_def check_step_def ack_duplicate_step_def next_step_def request_step_def
  answer_step_def on_consumer_def without_def

lemma memory_pipe_decode:
  "gcp_message_decode memory_gcp memory_event_content (rt_subscription_name memory_task) 7
     (rt_redis_connection memory_task) (rt_ack_deadline memory_task) w = Inr memory_event_message"
  by (simp add: gcp_message_decode_def memory_gcp_def memory_event_content_def memory_task_def memory_event_message_def
      message_content_new_def dec_nat_small digit_char_def char_of_def bit_0 ok_or_def Let_def)

lemma memory_ingester_queue:
  "(memory_ingester_state q r)\<lparr>ss_queue := q'\<rparr> = memory_ingester_state q' r"
  "ss_queue (memory_ingester_state q r) = q"
  by (simp_all add: memory_ingester_state_def)

text \<open>A delivery that is looked up, taken, posted and answered.\<close>

lemma memory_pipeline_run_with:
  fixes contents :: "nat \<Rightarrow> pubsub_message" and C :: "event message_content borsh_type"
  defines "G \<equiv> memory_gcp_with contents"
  assumes "\<And>w. gcp_message_decode G C (rt_subscription_name memory_task) 7 (rt_redis_connection memory_task)
      (rt_ack_deadline memory_task) w = Inr memory_event_message"
  shows "\<exists>q. pipe_run G C memory_task memory_http memory_ingester [Deliver 7, Lookup 0, NextItem, Post 0, Answer 0] (memory_pipeline [(200, [])]) = Some q \<and>
     pl_accepted q = [memory_event_message] \<and> sv_answered memory_services_view 7 Ack (gs_world (ss_queue (pl_service q)))"
proof -
  let ?I = memory_ingester and ?q0 = "on_metrics con_record_received memory_event_state"
  let ?p = "\<lambda>q cs as acc. \<lparr>pl_service = memory_ingester_state q [(200, [])], pl_callbacks = cs, pl_active = as, pl_accepted = acc\<rparr>
      :: (memory_services, nat, memory_api) pipeline"
  have 1: "receive_step G C memory_task 7 (memory_pipeline [(200, [])]) =
      ?p ?q0 [(memory_event_message, False)] [] []"
    by (simp add: receive_step_def assms(2) memory_pipeline_def on_consumer_def memory_ingester_queue Let_def)
  have 2: "check_step G 0 memory_event_message (?p ?q0 [(memory_event_message, False)] [] []) =
      ?p (?q0\<lparr>con_channel := [Inr memory_event_message]\<rparr>) [] [] []"
    by (simp add: check_step_def is_processed_def io_map_err_def on_world_def on_consumer_def memory_ingester_queue
        without_def forward_message_def G_def memory_gcp_with_def memory_gcp_def memory_event_state_def memory_services_start_def on_metrics_def Let_def)
  have 3: "next_step ?I (?p (?q0\<lparr>con_channel := [Inr memory_event_message]\<rparr>) [] [] []) =
      Some (?p (?q0\<lparr>con_channel := []\<rparr>) [] [(memory_event_message, None)] [])"
    by (simp add: next_step_def memory_ingester_def on_consumer_def memory_ingester_queue)
  obtain st where 4: "request_step memory_http ?I 0 memory_event_message (?p (?q0\<lparr>con_channel := []\<rparr>) [] [(memory_event_message, None)] []) =
      \<lparr>pl_service = st, pl_callbacks = [], pl_active = [(memory_event_message, Some (Inr ()))], pl_accepted = [memory_event_message]\<rparr>"
    by (simp add: request_step_def memory_post_event)
  have 5: "sv_answered memory_services_view 7 Ack (gs_world (ss_queue (pl_service (answer_step G 0 memory_event_message (Inr ())
      \<lparr>pl_service = st, pl_callbacks = [], pl_active = [(memory_event_message, Some (Inr ()))], pl_accepted = [memory_event_message]\<rparr>))))"
    by (simp add: answer_step_def answer_msg_def send_ack_def gcp_event_consumer_def gcp_message_ack_def G_def memory_gcp_with_def memory_gcp_def
        memory_services_view_def memory_event_message_def io_bind_def io_map_err_def on_world_def io_do_def io_ok_def
        on_metrics_def Let_def split: prod.split)
  have "\<not> con_task_finished (ss_queue (pl_service (memory_pipeline [(200, [])])))"
    by (simp add: memory_pipeline_def memory_ingester_queue memory_event_state_def)
  with 5 show ?thesis by (simp add: 1 2 3 4) (simp add: answer_step_def)
qed

lemma memory_pipeline_run:
  "\<exists>q. memory_pipe_run [Deliver 7, Lookup 0, NextItem, Post 0, Answer 0] (memory_pipeline [(200, [])]) = Some q \<and>
     pl_accepted q = [memory_event_message] \<and> sv_answered memory_services_view 7 Ack (gs_world (ss_queue (pl_service q)))"
  using memory_pipeline_run_with [of "received_message memory_gcp" memory_event_content]
  by (simp add: memory_gcp_with_own memory_pipe_decode)

subsection \<open>Properties\<close>

text \<open>C15: on Pub/Sub no event is lost between the delivery of its message and the API: whatever the
  order of the callbacks, the messages in flight, redeliveries and expiring keys, a message is
  acknowledged only if the API has accepted a message with its \<open>Msg-Id\<close>, either in this run
  or, as the keys in Redis at the start say, in an earlier one.\<close>

theorem acked_only_if_accepted:
  fixes p :: "('w, 'x, 'h) pipeline"
  assumes "services_frame G V"
    and "pl_callbacks p = []" "con_channel (ss_queue (pl_service p)) = []" "pl_active p = []"
    and "\<And>i. ''dedup:'' @ rt_subscription_name T @ '':id:'' @ i \<in> sv_live V (gs_world (ss_queue (pl_service p))) \<Longrightarrow>
      i \<in> gx_id ` set (pl_accepted p)"
    and "pipe_steps G V C T E I p q"
    and "sv_answered V x Ack (gs_world (ss_queue (pl_service q)))"
    and "\<not> sv_answered V x Ack (gs_world (ss_queue (pl_service p)))"
  shows "\<exists>m \<in> set (pl_accepted q). ps_attributes (received_message G x) ''Msg-Id'' = Some (gx_id m) \<and>
    (m \<in> set (pl_accepted p) \<or>
     (\<exists>(st :: (('w, 'x, event) consumer_state, 'h) service_state) st1.
        post_event E I (gx_decoded m) st = (Inr () :: gcp_error ingest_error + unit, st1)))"
  using acked_accepted [OF assms(1-4) _ assms(6-8)] assms(5) accepted_steps [OF assms(6)]
  unfolding dedup_key_def accepted_ids_def by blast

theorem acked_only_if_accepted_witness:
  "\<exists>q. memory_pipe_run [Deliver 7, Lookup 0, NextItem, Post 0, Answer 0] (memory_pipeline [(200, [])]) = Some q \<and>
     (\<exists>m \<in> set (pl_accepted q). ps_attributes (received_message memory_gcp 7) ''Msg-Id'' = Some (gx_id m))"
proof -
  obtain q where q: "memory_pipe_run [Deliver 7, Lookup 0, NextItem, Post 0, Answer 0] (memory_pipeline [(200, [])]) = Some q"
    "sv_answered memory_services_view 7 Ack (gs_world (ss_queue (pl_service q)))"
    using memory_pipeline_run by blast
  have start: "gs_world (ss_queue (pl_service (memory_pipeline [(200, [])]))) = memory_services_start"
    "con_channel (ss_queue (pl_service (memory_pipeline [(200, [])]))) = []"
    by (simp_all add: memory_pipeline_def memory_ingester_queue memory_event_state_def)
  have empty: "sv_live memory_services_view memory_services_start = {}"
    "\<not> sv_answered memory_services_view 7 Ack memory_services_start"
    by (simp_all add: memory_services_view_def memory_services_start_def)
  have "pl_callbacks (memory_pipeline [(200, [])]) = []" "pl_active (memory_pipeline [(200, [])]) = []"
    by (simp_all add: memory_pipeline_def)
  from acked_only_if_accepted [OF memory_services_frame this(1) start(2) this(2) _ pipe_steps_run [OF pipe_steps.none q(1)] q(2)]
  show ?thesis using q(1) by (auto simp: start(1) empty)
qed

end
