(* ===== verification/Nats_Rounds.thy ===== *)
theory Nats_Rounds
  imports Subscriber_Rounds
begin

text \<open>
  The subscriber on NATS over any number of runs of \<open>subscribe\<close>, failed ones included.  The task
  stream is a log of message ids and payloads; a publish that fails, or whose acknowledgement is
  lost, may have added its message or not.  The cursor is the last message of the log itself, so
  a run goes on exactly where the stream ends.
\<close>

subsection \<open>What is relied on of JetStream\<close>

text \<open>What was ever stored in a stream, with its last sequence number.\<close>

record ('w, 'x) stream_view =
  st_log :: "'x \<Rightarrow> 'w \<Rightarrow> (string \<times> bytes) list"
  st_last :: "'x \<Rightarrow> 'w \<Rightarrow> u64"

definition adds_or_not :: "('w, 'x) stream_view \<Rightarrow> 'x \<Rightarrow> string \<times> bytes \<Rightarrow> 'w \<Rightarrow> 'w \<Rightarrow> bool" where
  "adds_or_not V stream m w w' \<longleftrightarrow> st_log V stream w' = st_log V stream w \<or> st_log V stream w' = st_log V stream w @ [m]"

text \<open>
  A publish adds its message at the end or adds nothing; it is acknowledged as new only when it
  was added, and as a duplicate only when a message with its id is in the stream.  Reading leaves
  the stream as it is: the information names the last sequence number, and a message read at that
  number is the last one.
\<close>

definition publish_logged :: "('w, 'x) nats_env \<Rightarrow> ('w, 'x) stream_view \<Rightarrow> 'x nats_publisher \<Rightarrow> bool" where
  "publish_logged N V P \<longleftrightarrow>
     (\<forall>i data w r w1. publish_with_headers N (np_context P) (np_subject P) [(nats_msg_id_header, i)] data w = (r, w1) \<longrightarrow>
        (case r of
           Inl _ \<Rightarrow> adds_or_not V (np_stream P) (i, data) w w1
         | Inr pending \<Rightarrow> \<forall>a w2. await_publish_ack N pending w1 = (a, w2) \<longrightarrow>
             adds_or_not V (np_stream P) (i, data) w w2 \<and>
             (case a of
                Inl _ \<Rightarrow> True
              | Inr ack \<Rightarrow> if pa_duplicate ack then i \<in> fst ` set (st_log V (np_stream P) w)
                  else st_log V (np_stream P) w2 = st_log V (np_stream P) w @ [(i, data)])))"

definition reads_logged :: "('w, 'x) nats_env \<Rightarrow> ('w, 'x) stream_view \<Rightarrow> 'x \<Rightarrow> bool" where
  "reads_logged N V stream \<longleftrightarrow>
     (\<forall>w. st_last V stream w = 0 \<longleftrightarrow> st_log V stream w = []) \<and>
     (\<forall>w r w'. stream_info N stream w = (r, w') \<longrightarrow>
        st_log V stream w' = st_log V stream w \<and> (\<forall>n. r = Inr n \<longrightarrow> n = st_last V stream w \<and> st_last V stream w' = n)) \<and>
     (\<forall>n w r w'. direct_get N stream n w = (r, w') \<longrightarrow>
        st_log V stream w' = st_log V stream w \<and>
        (\<forall>payload. r = Inr payload \<longrightarrow> n = st_last V stream w \<longrightarrow> st_log V stream w \<noteq> [] \<longrightarrow>
           payload = snd (last (st_log V stream w))))"

abbreviation task_text :: "('w, 'u, 'c, 'r, 'i, 't) http_env \<Rightarrow> task_item \<Rightarrow> string" where
  "task_text E t \<equiv> task_item_id_display (uuid_hyphenated E) (ti_id t)"

text \<open>A part of the log that holds the given tasks, one message for each; the id at its end.\<close>

definition holds_tasks ::
  "('w, 'u, 'c, 'r, 'i, 't) http_env \<Rightarrow> task_item borsh_type \<Rightarrow> (string \<times> bytes) list \<Rightarrow> task_item list \<Rightarrow> bool" where
  "holds_tasks E C log tasks \<longleftrightarrow> list_all2 (\<lambda>(i, data) t. i = task_text E t \<and> to_vec C t = Inr data) log tasks"

definition log_ends_at :: "task_item borsh_type \<Rightarrow> (string \<times> bytes) list \<Rightarrow> task_item_id option \<Rightarrow> bool" where
  "log_ends_at C log v \<longleftrightarrow>
     (case v of None \<Rightarrow> log = []
      | Some i \<Rightarrow> log \<noteq> [] \<and> (\<exists>t. from_slice C (snd (last log)) = Inr t \<and> task_msg_id t = i))"

lemma holds_tasks_Nil [simp]: "holds_tasks E C [] ts \<longleftrightarrow> ts = []" "holds_tasks E C log [] \<longleftrightarrow> log = []"
  by (simp_all add: holds_tasks_def)

lemma holds_tasks_append: "holds_tasks E C l ts \<Longrightarrow> holds_tasks E C l' ts' \<Longrightarrow> holds_tasks E C (l @ l') (ts @ ts')"
  by (simp add: holds_tasks_def list_all2_appendI)

lemma holds_tasks_texts: "holds_tasks E C log ts \<Longrightarrow> map fst log = map (task_text E) ts"
  by (auto simp: holds_tasks_def list_all2_conv_all_nth intro!: nth_equalityI)

lemma log_ends_after:
  assumes "borsh_type_ok C" "log_ends_at C log v" "holds_tasks E C es ts"
  shows "log_ends_at C (log @ es) (cursor_after v ts)"
proof (cases "ts = []")
  case False
  with assms(3) have "es \<noteq> []" by auto
  with assms(3) False have "to_vec C (last ts) = Inr (snd (last es))"
    by (auto simp: holds_tasks_def list_all2_conv_all_nth last_conv_nth split_beta)
  with borsh_type_okD [OF assms(1)] False \<open>es \<noteq> []\<close> show ?thesis
    by (simp add: log_ends_at_def cursor_after_def task_msg_id_def)
qed (use assms in \<open>simp add: cursor_after_def\<close>)

subsection \<open>Publishing and peeking\<close>

lemma nats_publish_logged:
  assumes "publish_logged N V P" "nats_publish N C P msg w = (r, w')"
    and "deduplication_id msg \<notin> fst ` set (st_log V (np_stream P) w)"
  shows "st_log V (np_stream P) w' = st_log V (np_stream P) w \<and> isl r \<or>
    (\<exists>data. to_vec C (pm_data msg) = Inr data \<and>
       st_log V (np_stream P) w' = st_log V (np_stream P) w @ [(deduplication_id msg, data)])"
proof (cases "to_vec C (pm_data msg)")
  case (Inl e)
  with assms(2) show ?thesis by (auto simp: nats_publish_def io_bind_def io_defs Let_def)
next
  case (Inr data)
  obtain h w1 where sent: "publish_with_headers N (np_context P) (np_subject P)
      [(nats_msg_id_header, deduplication_id msg)] data w = (h, w1)" by force
  show ?thesis
  proof (cases h)
    case (Inl e)
    with sent assms(1) have "adds_or_not V (np_stream P) (deduplication_id msg, data) w w1"
      unfolding publish_logged_def by fastforce
    with Inl Inr sent assms(2) show ?thesis
      by (auto simp: nats_publish_def io_bind_def io_map_err_def io_defs Let_def adds_or_not_def)
  next
    case (Inr pending)
    obtain a w2 where ack: "await_publish_ack N pending w1 = (a, w2)" by force
    with sent Inr assms(1) have "adds_or_not V (np_stream P) (deduplication_id msg, data) w w2 \<and>
        (case a of Inl _ \<Rightarrow> True
         | Inr ack \<Rightarrow> if pa_duplicate ack then deduplication_id msg \<in> fst ` set (st_log V (np_stream P) w)
             else st_log V (np_stream P) w2 = st_log V (np_stream P) w @ [(deduplication_id msg, data)])"
      unfolding publish_logged_def by fastforce
    with Inr \<open>to_vec C (pm_data msg) = Inr data\<close> sent ack assms(2,3) show ?thesis
      by (cases a) (auto simp: nats_publish_def io_bind_def io_map_err_def io_defs Let_def adds_or_not_def split: if_splits)
  qed
qed

text \<open>A batch of new tasks adds an initial part of them, all of them when it succeeds.\<close>

lemma nats_batch_logged:
  assumes "publish_logged N V P"
  shows "nats_publish_batch N C P (task_batch E ts) w = (r, w') \<Longrightarrow> distinct (map (task_text E) ts) \<Longrightarrow>
    set (map (task_text E) ts) \<inter> fst ` set (st_log V (np_stream P) w) = {} \<Longrightarrow>
    \<exists>k es. st_log V (np_stream P) w' = st_log V (np_stream P) w @ es \<and> holds_tasks E C es (take k ts)"
proof (induction ts arbitrary: w r)
  case Nil
  then have "w' = w" by (simp add: task_batch_def io_defs)
  then show ?case by (auto intro!: exI [of _ "[]"])
next
  case (Cons t ts)
  let ?msg = "publish_message_from task_msg_id (task_item_id_display (uuid_hyphenated E)) t"
  have msg: "deduplication_id ?msg = task_text E t" "pm_data ?msg = t"
    by (simp_all add: publish_message_from_def task_msg_id_def)
  have batch: "task_batch E (t # ts) = ?msg # task_batch E ts" by (simp add: task_batch_def)
  obtain a w1 where first: "nats_publish N C P ?msg w = (a, w1)" by force
  have "deduplication_id ?msg \<notin> fst ` set (st_log V (np_stream P) w)"
    using Cons.prems(3) by (auto simp: msg)
  from nats_publish_logged [OF assms first this] consider
      "st_log V (np_stream P) w1 = st_log V (np_stream P) w" "isl a"
    | data where "to_vec C t = Inr data" "st_log V (np_stream P) w1 = st_log V (np_stream P) w @ [(task_text E t, data)]"
    by (auto simp: msg)
  then show ?case
  proof cases
    case 1
    with first Cons.prems(1) have "w' = w1" by (auto simp: batch io_bind_def isl_def)
    with 1 show ?thesis by (auto intro!: exI [of _ "[]"] exI [of _ "0::nat"])
  next
    case (2 data)
    have one: "holds_tasks E C [(task_text E t, data)] [t]" using 2(1) by (simp add: holds_tasks_def)
    show ?thesis
    proof (cases a)
      case (Inl e)
      with first Cons.prems(1) have "w' = w1" by (auto simp: batch io_bind_def)
      with 2 one show ?thesis by (intro exI [of _ 1] exI [of _ "[(task_text E t, data)]"]) simp
    next
      case (Inr ack)
      obtain r' where rest: "nats_publish_batch N C P (task_batch E ts) w1 = (r', w')"
        using Cons.prems(1) first Inr by (auto simp: batch io_bind_def io_defs split: prod.splits sum.splits)
      have "set (map (task_text E) ts) \<inter> fst ` set (st_log V (np_stream P) w1) = {}"
        using Cons.prems(2,3) by (auto simp: 2)
      with Cons.IH [OF rest] Cons.prems(2) obtain k es where
        "st_log V (np_stream P) w' = st_log V (np_stream P) w1 @ es" "holds_tasks E C es (take k ts)" by auto
      with 2 holds_tasks_append [OF one] show ?thesis
        by (intro exI [of _ "Suc k"] exI [of _ "(task_text E t, data) # es"]) force
    qed
  qed
qed

lemma nats_peek_logged:
  assumes "reads_logged N V (np_stream P)" "nats_peek_last N C task_msg_id P w = (r, w')"
  shows "st_log V (np_stream P) w' = st_log V (np_stream P) w"
    and "log_ends_at C (st_log V (np_stream P) w) v \<Longrightarrow> r = Inr x \<Longrightarrow> x = v"
proof -
  let ?s = "np_stream P"
  obtain n w1 where info: "stream_info N ?s w = (n, w1)" by force
  with assms(1) have i: "st_log V ?s w1 = st_log V ?s w" "\<And>m. n = Inr m \<Longrightarrow> m = st_last V ?s w \<and> st_last V ?s w1 = m"
    unfolding reads_logged_def by metis+
  have zero: "st_last V ?s w = 0 \<longleftrightarrow> st_log V ?s w = []" using assms(1) unfolding reads_logged_def by blast
  have "st_log V ?s w' = st_log V ?s w \<and> (\<forall>x. log_ends_at C (st_log V ?s w) v \<longrightarrow> r = Inr x \<longrightarrow> x = v)"
  proof (cases n)
    case (Inl e)
    with info assms(2) i(1) show ?thesis by (auto simp: nats_peek_last_def io_bind_def io_map_err_def)
  next
    case (Inr m)
    note m = i(2) [OF Inr]
    show ?thesis
    proof (cases "m = 0")
      case True
      with Inr info m zero assms(2) i(1) show ?thesis
        by (auto simp: nats_peek_last_def io_bind_def io_map_err_def io_defs log_ends_at_def split: option.splits)
    next
      case False
      obtain p w2 where got: "direct_get N ?s m w1 = (p, w2)" by force
      with assms(1) have g: "st_log V ?s w2 = st_log V ?s w1"
        "\<And>pl. p = Inr pl \<Longrightarrow> m = st_last V ?s w1 \<Longrightarrow> st_log V ?s w1 \<noteq> [] \<Longrightarrow> pl = snd (last (st_log V ?s w1))"
        unfolding reads_logged_def by metis+
      from False Inr info got assms(2) have "w' = w2"
        by (auto simp: nats_peek_last_def io_bind_def io_map_err_def io_defs split: sum.splits)
      moreover have "x = v" if "log_ends_at C (st_log V ?s w) v" "r = Inr x" for x
      proof -
        from that(2) False Inr info got assms(2) obtain pl t where
          "p = Inr pl" "from_slice C pl = Inr t" "x = Some (task_msg_id t)"
          by (auto simp: nats_peek_last_def io_bind_def io_map_err_def io_defs map_err_def split: sum.splits)
        with g(2) m i(1) False zero that(1) show ?thesis
          by (auto simp: log_ends_at_def split: option.splits)
      qed
      ultimately show ?thesis using g(1) i(1) by simp
    qed
  qed
  then show "st_log V ?s w' = st_log V ?s w" "log_ends_at C (st_log V ?s w) v \<Longrightarrow> r = Inr x \<Longrightarrow> x = v" by blast+
qed

subsection \<open>Runs of \<open>subscribe\<close>\<close>

text \<open>Any number of runs, each with any result.\<close>

inductive attempts ::
  "('w, 'u, 'c, 'r, 'i, 't) http_env \<Rightarrow> (task_item list \<Rightarrow> task_item list) \<Rightarrow> ('q, 'e, 'x) task_publisher \<Rightarrow>
     ('u, 'c) subscriber \<Rightarrow> ('q, 'w) service_state \<Rightarrow> ('q, 'w) service_state \<Rightarrow> bool"
  for E usort P S st where
  none: "attempts E usort P S st st"
| attempt: "attempts E usort P S st s \<Longrightarrow> subscribe E usort P S s = (r, s') \<Longrightarrow> attempts E usort P S st s'"

lemma fetch_tasks_queue:
  assumes "fetch_tasks E P S st = (r, st1)"
  shows "\<exists>x. tp_peek_last P (ss_queue st) = (x, ss_queue st1)"
proof -
  obtain x q where "tp_peek_last P (ss_queue st) = (x, q)" by force
  with assms show ?thesis
    by (auto simp: fetch_tasks_def io_bind_def io_map_err_def on_queue_def on_http_def io_lift_def io_ok_def
        split: prod.splits sum.splits)
qed

text \<open>What holds between the runs: the stream has got an initial part of the tasks after the cursor.\<close>

definition log_continues ::
  "('w, 'u, 'c, 'r, 'i, 't) http_env \<Rightarrow> task_item borsh_type \<Rightarrow> (string \<times> bytes) list \<Rightarrow> task_item list \<Rightarrow>
     (string \<times> bytes) list \<Rightarrow> bool" where
  "log_continues E C start expected log \<longleftrightarrow>
     (\<exists>k es. log = start @ es \<and> holds_tasks E C es (take k expected))"

lemma run_continues:
  assumes ok: "publish_logged (ny_env Y) V (ny_publisher Y)" "reads_logged (ny_env Y) V (np_stream (ny_publisher Y))"
    and codec: "borsh_type_ok (ny_codec Y)" "ny_id Y = task_msg_id" "usort_ok usort"
    and api: "tasks_served E S tasks" "in_time_order tasks" "distinct (map (task_text E) tasks)"
    and start: "log_ends_at (ny_codec Y) start p"
      "\<And>t. t \<in> set (tasks_after p tasks) \<Longrightarrow> task_text E t \<notin> fst ` set start"
    and log: "log_continues E (ny_codec Y) start (tasks_after p tasks) (st_log V (np_stream (ny_publisher Y)) (ss_queue s))"
    and run: "subscribe E usort (nats_task_publisher Y) S s = (r, s')"
  shows "log_continues E (ny_codec Y) start (tasks_after p tasks) (st_log V (np_stream (ny_publisher Y)) (ss_queue s'))"
proof -
  let ?log = "\<lambda>s. st_log V (np_stream (ny_publisher Y)) (ss_queue s)" and ?C = "ny_codec Y" and ?P = "nats_task_publisher Y"
  let ?rest = "tasks_after p tasks"
  from log obtain k es where es: "?log s = start @ es" "holds_tasks E ?C es (take k ?rest)"
    by (auto simp: log_continues_def)
  obtain f s1 where fetched: "fetch_tasks E ?P S s = (f, s1)" by force
  obtain x where peek: "nats_peek_last (ny_env Y) ?C task_msg_id (ny_publisher Y) (ss_queue s) = (x, ss_queue s1)"
    using fetch_tasks_queue [OF fetched] codec(2) by (auto simp: nats_task_publisher_def)
  note same = nats_peek_logged(1) [OF ok(2) peek]
  show ?thesis
  proof (cases f)
    case (Inl e)
    with subscribe_fetch_failed [of E ?P S s e s1 usort] fetched run same log show ?thesis by simp
  next
    case (Inr ts)
    from fetch_tasks_ok [OF fetched [unfolded Inr]] obtain c q url body resp w1 w2 v where got:
      "tp_peek_last ?P (ss_queue s) = (Inr c, q)"
      "get_chains_path E (tasks_query S c) (ac_url (sb_client S)) = Inr url" "json_unit E = Inr body"
      "http_execute E \<lparr>hr_client = ac_inner (sb_client S), hr_method = GET, hr_url = url, hr_body = body\<rparr> (ss_http s) =
        (Inr resp, w1)"
      "response_json E (json_tasks_result E) (json_error_response E) resp w1 = (Inr (Inr v), w2)"
      "ts = gt_tasks v" by metis
    have "x = Inr c" using peek got(1) codec(2) by (simp add: nats_task_publisher_def)
    with nats_peek_logged(2) [OF ok(2) peek] log_ends_after [OF codec(1) start(1) es(2)] es(1)
    have cursor: "c = cursor_after p (take k ?rest)" by simp
    from api(1) got obtain j where "ts = take j (tasks_after c tasks)"
      unfolding tasks_served_def by blast
    moreover have "distinct (map ti_id tasks)" using api(2) by (simp add: in_time_order_def)
    ultimately obtain n where ts: "ts = take j (drop n ?rest)" and n: "take k ?rest = take n ?rest"
      using tasks_after_cursor [of tasks "take k ?rest" k p] that [of 0] that [of k]
      by (cases "take k ?rest = []") (simp_all add: cursor)
    with usort_in_order [OF codec(3)] in_time_order_part [OF api(2)] have sorted: "usort ts = ts" by simp
    show ?thesis
    proof (cases "ts = []")
      case True
      with subscribe_after_fetch [OF fetched [unfolded Inr], of usort] run sorted same log show ?thesis by simp
    next
      case False
      obtain b where batch: "nats_publish_batch (ny_env Y) ?C (ny_publisher Y) (task_batch E ts) (ss_queue s1) = (b, ss_queue s')"
        using subscribe_after_fetch [OF fetched [unfolded Inr], of usort] run sorted False
        by (auto simp: nats_task_publisher_def split: prod.splits sum.splits)
      have whole: "take k ?rest @ ts @ drop j (drop n ?rest) = ?rest"
        by (simp only: ts n append_take_drop_id)
      obtain pre where pre: "tasks = pre @ ?rest" using tasks_after_suffix by blast
      have dist: "distinct (map (task_text E) ?rest)"
        using api(3) pre by (metis distinct_append map_append)
      have "distinct (map (task_text E) (take k ?rest @ ts @ drop j (drop n ?rest)))"
        by (simp only: whole dist)
      then have new: "distinct (map (task_text E) ts)"
        "set (map (task_text E) ts) \<inter> set (map (task_text E) (take k ?rest)) = {}" by auto
      have "set ts \<subseteq> set ?rest" by (subst whole [symmetric]) auto
      then have "set (map (task_text E) ts) \<inter> fst ` set start = {}"
        using start(2) by auto
      moreover have "fst ` set es = set (map (task_text E) (take k ?rest))"
        using holds_tasks_texts [OF es(2)] by (metis list.set_map)
      ultimately have "set (map (task_text E) ts) \<inter> fst ` set (?log s1) = {}"
        using new(2) by (auto simp: same es(1) image_Un)
      from nats_batch_logged [OF ok(1) batch new(1) this] obtain m es' where
        "?log s' = ?log s1 @ es'" "holds_tasks E ?C es' (take m ts)" by blast
      moreover have "take k ?rest @ take m ts = take (n + min m j) ?rest"
        by (simp only: ts n take_take take_add)
      ultimately show ?thesis
        using holds_tasks_append [OF es(2)] same es(1) unfolding log_continues_def by fastforce
    qed
  qed
qed

subsection \<open>A stream in memory\<close>

text \<open>The state is the log itself.  The acknowledgement of the first message is lost, so that the
  first run fails after its first task.\<close>

definition log_last :: "(string \<times> bytes) list \<Rightarrow> u64" where
  "log_last log = (if length log < 2 ^ 64 then of_nat (length log) else - 1)"

definition memory_log :: "((string \<times> bytes) list, u64) nats_env" where
  "memory_log =
     \<lparr>connect_with_options = (\<lambda>urls retry. io_ok 0), new_inbox = (\<lambda>client w. (''_INBOX'', w)),
      new_uuid = (\<lambda>w. (''uuid'', w)), get_or_create_stream = (\<lambda>ctx cfg. io_ok 1),
      create_consumer = (\<lambda>stream cfg. io_ok 2), create_key_value = (\<lambda>ctx cfg. io_ok 3),
      publish_with_headers = (\<lambda>ctx subject headers data w.
        let i = snd (hd headers) in if i \<in> fst ` set w then (Inr 1, w) else (Inr 0, w @ [(i, data)])),
      await_publish_ack = (\<lambda>h w. if length w = 1 then (Inl (ExtError ''timeout''), w)
        else (Inr \<lparr>pa_sequence = log_last w, pa_duplicate = (h = 1)\<rparr>, w)),
      get_info = (\<lambda>stream w. (Inr 0, w)),
      stream_info = (\<lambda>stream w. (Inr (log_last w), w)),
      direct_get = (\<lambda>stream n w.
        if n = log_last w \<and> w \<noteq> [] then (Inr (snd (last w)), w) else (Inl (ExtError ''no message''), w)),
      consumer_messages = (\<lambda>consumer. io_ok []), consumer_info = (\<lambda>consumer. io_ok ()),
      message_payload = (\<lambda>m. []), ack_with = (\<lambda>m k. io_ok ()),
      store_update = (\<lambda>store key data rev. io_ok 0), store_put = (\<lambda>store key data. io_ok 0),
      store_entry = (\<lambda>store key. io_ok None)\<rparr>"

definition memory_log_view :: "((string \<times> bytes) list, u64) stream_view" where
  "memory_log_view = \<lparr>st_log = (\<lambda>stream w. w), st_last = (\<lambda>stream w. log_last w)\<rparr>"

definition memory_task_codec :: "task_item borsh_type" where
  "memory_task_codec =
     \<lparr>to_vec = (\<lambda>t. case find (\<lambda>n. memory_task_item n = t) [1, 2, 3] of
        Some n \<Rightarrow> Inr [n] | None \<Rightarrow> Inl (OtherIo ''unknown'')),
      from_slice = (\<lambda>bs. Inr (memory_task_item (hd bs)))\<rparr>"

definition memory_log_peekable :: "((string \<times> bytes) list, u64, task_item, task_item_id) nats_peekable" where
  "memory_log_peekable =
     \<lparr>ny_env = memory_log, ny_view = \<lparr>jv_last = (\<lambda>s w. 0), jv_payload = (\<lambda>s w n. None), jv_entry = (\<lambda>s k w. None),
        jv_answered = (\<lambda>x k w. False)\<rparr>,
      ny_codec = memory_task_codec, ny_id = task_msg_id, ny_publisher = nats_publisher_new 0 1 ''tasks''\<rparr>"

definition memory_log_state :: "((string \<times> bytes) list, memory_api) service_state" where
  "memory_log_state =
     \<lparr>ss_queue = [], ss_http = \<lparr>ma_seen = [], ma_replies = []\<rparr>,
      ss_metrics = simple_metrics_new ''amplifier-subscriber'' []\<rparr>"

abbreviation memory_log_subscribe where
  "memory_log_subscribe \<equiv> subscribe memory_feed_http (sort_key ti_timestamp) (nats_task_publisher memory_log_peekable) memory_subscriber"

abbreviation memory_attempts where
  "memory_attempts \<equiv> attempts memory_feed_http (sort_key ti_timestamp) (nats_task_publisher memory_log_peekable) memory_subscriber"

lemma memory_log_fields:
  "ny_env memory_log_peekable = memory_log" "ny_codec memory_log_peekable = memory_task_codec"
  "ny_id memory_log_peekable = task_msg_id" "np_stream (ny_publisher memory_log_peekable) = 1"
  "st_log memory_log_view x w = w" "st_last memory_log_view x w = log_last w"
  by (simp_all add: memory_log_peekable_def memory_log_view_def nats_publisher_new_def)

lemma memory_publish_logged: "publish_logged memory_log memory_log_view P"
  by (auto simp: publish_logged_def adds_or_not_def memory_log_def memory_log_view_def Let_def split: if_splits)

lemma log_last_0: "log_last w = 0 \<longleftrightarrow> w = []"
proof
  assume "log_last w = 0"
  then have small: "length w < 2 ^ 64" and "of_nat (length w) = (0 :: u64)" by (auto simp: log_last_def split: if_splits)
  then have "unat (of_nat (length w) :: u64) = 0" by simp
  with small show "w = []" by (simp add: unat_of_nat take_bit_eq_mod)
qed (simp add: log_last_def)

lemma memory_reads_logged: "reads_logged memory_log memory_log_view stream"
  by (auto simp: reads_logged_def memory_log_def memory_log_view_def log_last_0 split: if_splits)

lemma memory_task_codec_ok: "borsh_type_ok memory_task_codec"
  by (auto simp: borsh_type_ok_def memory_task_codec_def split: if_splits)

lemma memory_log_peek:
  "nats_peek_last memory_log memory_task_codec task_msg_id (ny_publisher memory_log_peekable) w =
     (Inr (if w = [] then None else Some (ti_id (memory_task_item (hd (snd (last w)))))), w)"
  by (simp add: nats_peek_last_def memory_log_def memory_task_codec_def log_last_0 io_bind_def io_map_err_def io_defs task_msg_id_def)

text \<open>What one run asks for and publishes.\<close>

lemma memory_log_fetch:
  assumes "ss_queue s = w" "q = (if w = [] then None else Some (ti_id (memory_task_item (hd (snd (last w))))))"
  shows "\<exists>h. fetch_tasks memory_feed_http (nats_task_publisher memory_log_peekable) memory_subscriber s =
    (Inr (map memory_task_item (memory_feed_body
       ((case q of None \<Rightarrow> [] | Some i \<Rightarrow> [(''after'', replicate (unat (task_item_uuid i)) CHR ''i'')]) @ [(''limit'', dec_nat 100)]))),
     s\<lparr>ss_queue := w, ss_http := h\<rparr>)"
  using assms
  by (auto simp: fetch_tasks_def nats_task_publisher_def memory_log_fields memory_log_peek build_request_def
      get_chains_request_def memory_rounds_path memory_feed_unit execute_def memory_feed_response io_bind_def
      io_map_err_def on_queue_def on_http_def io_defs Let_def)

lemma replicate_2_3: "replicate 2 x = [x, x]" "replicate 3 x = [x, x, x]"
  by (simp_all add: eval_nat_numeral)

lemma memory_log_batch:
  "nats_publish_batch memory_log memory_task_codec (ny_publisher memory_log_peekable)
     (task_batch memory_feed_http (map memory_task_item [1, 2, 3])) [] =
   (Inl (nats_error.Publish (ExtError ''timeout'')), [(''i'', [1])])"
  "\<exists>acks. nats_publish_batch memory_log memory_task_codec (ny_publisher memory_log_peekable)
     (task_batch memory_feed_http (map memory_task_item [2, 3])) [(''i'', [1])] =
   (Inr acks, [(''i'', [1]), (''ii'', [2]), (''iii'', [3])])"
  by (simp_all add: task_batch_def publish_message_from_def task_msg_id_def memory_task_item_def memory_feed_http_def
      task_item_id_display_def nats_publish_def memory_log_def memory_task_codec_def io_bind_def io_map_err_def io_defs Let_def
      replicate_2_3)

lemma memory_log_runs:
  "\<exists>r1 s1 s2. memory_log_subscribe memory_log_state = (Inl r1, s1) \<and> memory_log_subscribe s1 = (Inr (), s2) \<and>
     ss_queue s2 = [(''i'', [1]), (''ii'', [2]), (''iii'', [3])]"
proof -
  let ?P = "nats_task_publisher memory_log_peekable"
  have batch: "tp_publish_batch ?P = nats_publish_batch memory_log memory_task_codec (ny_publisher memory_log_peekable)"
    by (simp add: nats_task_publisher_def memory_log_fields)
  obtain h where 1: "fetch_tasks memory_feed_http ?P memory_subscriber memory_log_state =
      (Inr (map memory_task_item [1, 2, 3]), memory_log_state\<lparr>ss_http := h\<rparr>)"
    using memory_log_fetch [of memory_log_state "[]" None] by (auto simp: memory_log_state_def)
  let ?s1 = "memory_log_state\<lparr>ss_http := h, ss_queue := [(''i'', [1])]\<rparr>"
  have sort: "sort_key ti_timestamp (map memory_task_item [1, 2, 3]) = map memory_task_item [1, 2, 3]"
    "sort_key ti_timestamp (map memory_task_item [2, 3]) = map memory_task_item [2, 3]"
    by (simp_all add: memory_task_item_def less_datetime_def less_eq_datetime_def)
  have first: "memory_log_subscribe memory_log_state = (Inl (PublishFailed (nats_error.Publish (ExtError ''timeout''))), ?s1)"
    unfolding subscribe_after_fetch [OF 1] sort batch
    using memory_log_batch(1) by (simp add: memory_log_state_def)
  obtain h' where 2: "fetch_tasks memory_feed_http ?P memory_subscriber ?s1 =
      (Inr (map memory_task_item [2, 3]), ?s1\<lparr>ss_http := h'\<rparr>)"
    using memory_log_fetch [of ?s1 "[(''i'', [1])]"] by (auto simp: memory_task_item_def)
  obtain acks where "nats_publish_batch memory_log memory_task_codec (ny_publisher memory_log_peekable)
      (task_batch memory_feed_http (map memory_task_item [2, 3])) [(''i'', [1])] =
     (Inr acks, [(''i'', [1]), (''ii'', [2]), (''iii'', [3])])"
    using memory_log_batch(2) by blast
  then have "memory_log_subscribe ?s1 = (Inr (), ?s1\<lparr>ss_http := h', ss_queue := [(''i'', [1]), (''ii'', [2]), (''iii'', [3])]\<rparr>)"
    unfolding subscribe_after_fetch [OF 2] sort batch by simp
  with first show ?thesis by fastforce
qed

subsection \<open>Properties\<close>

text \<open>C12: on NATS the subscriber loses and repeats no task, whatever fails: over any number of runs,
  ended by errors at any point or not, with messages stored whose acknowledgement was lost, what the
  task stream gets is an initial part of the tasks of the chain after the one at its end before, in
  order and each once.\<close>

theorem nats_attempts_exactly_once:
  assumes "publish_logged (ny_env Y) V (ny_publisher Y)" "reads_logged (ny_env Y) V (np_stream (ny_publisher Y))"
    and "borsh_type_ok (ny_codec Y)" "ny_id Y = task_msg_id" "usort_ok usort"
    and "tasks_served E S tasks" "in_time_order tasks" "distinct (map (task_text E) tasks)"
    and "log_ends_at (ny_codec Y) (st_log V (np_stream (ny_publisher Y)) (ss_queue st)) p"
    and "\<And>t. t \<in> set (tasks_after p tasks) \<Longrightarrow>
      task_text E t \<notin> fst ` set (st_log V (np_stream (ny_publisher Y)) (ss_queue st))"
    and "attempts E usort (nats_task_publisher Y) S st s"
  shows "\<exists>k es. st_log V (np_stream (ny_publisher Y)) (ss_queue s) =
      st_log V (np_stream (ny_publisher Y)) (ss_queue st) @ es \<and>
    holds_tasks E (ny_codec Y) es (take k (tasks_after p tasks))"
  using assms(11)
proof induction
  case none
  show ?case by (intro exI [of _ 0] exI [of _ "[]"]) simp
next
  case (attempt s r s')
  then have "log_continues E (ny_codec Y) (st_log V (np_stream (ny_publisher Y)) (ss_queue st)) (tasks_after p tasks)
      (st_log V (np_stream (ny_publisher Y)) (ss_queue s))"
    by (simp add: log_continues_def)
  from run_continues [OF assms(1-10) this attempt.hyps(2)] show ?case by (simp add: log_continues_def)
qed

theorem nats_attempts_exactly_once_witness:
  "\<exists>r1 s1 s2. memory_log_subscribe memory_log_state = (Inl r1, s1) \<and> memory_log_subscribe s1 = (Inr (), s2) \<and>
     (\<exists>k es. ss_queue s2 = es \<and> length es = 3 \<and>
        holds_tasks memory_feed_http memory_task_codec es (take k memory_feed_tasks))"
proof -
  obtain r1 s1 s2 where run: "memory_log_subscribe memory_log_state = (Inl r1, s1)" "memory_log_subscribe s1 = (Inr (), s2)"
    "ss_queue s2 = [(''i'', [1]), (''ii'', [2]), (''iii'', [3])]"
    using memory_log_runs by blast
  have steps: "memory_attempts memory_log_state s2"
    using attempts.attempt [OF attempts.attempt [OF attempts.none run(1)] run(2)] .
  have "\<exists>k es. ss_queue s2 = [] @ es \<and> holds_tasks memory_feed_http memory_task_codec es (take k memory_feed_tasks)"
    using nats_attempts_exactly_once [of memory_log_peekable memory_log_view, OF _ _ _ _ sort_key_usort_ok memory_tasks_served
        memory_tasks_in_order _ _ _ steps, of None]
    by (simp add: memory_log_fields memory_publish_logged memory_reads_logged memory_task_codec_ok log_ends_at_def
        memory_log_state_def tasks_after_def memory_feed_tasks_def memory_task_item_def memory_feed_http_def
        task_item_id_display_def replicate_2_3)
  with run show ?thesis by fastforce
qed

end
