(* ===== verification/Api_Borsh.thy ===== *)
theory Api_Borsh
  imports Queue_Interfaces
begin

text \<open>
  The Borsh forms of the data of \<open>amplifier-api/src/types.rs\<close> that pass through a queue or a
  store: what \<open>#[derive(BorshSerialize, BorshDeserialize)]\<close> makes of the declarations, as the
  Borsh specification documents it.  A struct is its fields in the order of the declaration, an enum
  the index of its variant in the declaration as one byte and then the content of the variant, an
  option a flag byte, a vector its length in four bytes and its elements; a field with a
  \<open>#[borsh(serialize_with, deserialize_with)]\<close> attribute is written by the functions the attribute
  names, those of \<open>Api_Codec\<close>.

  The primitives stay parameters, the fields of \<open>borsh_prims\<close>.  What is relied on of them is
  \<open>borsh_prims_ok\<close>; the law of every derived form, \<open>codec_ok\<close>, is proved from it, and with it
  \<open>borsh_type_ok\<close>, the law the queues and the stores rely on.
\<close>

record 'a borsh_codec =
  bc_ser :: "'a \<Rightarrow> bytes \<Rightarrow> io_error + bytes"
  bc_de :: "bytes \<Rightarrow> io_error + 'a \<times> bytes"

record 'dt borsh_prims =
  bp_env :: "'dt borsh_env"
  bp_u32 :: "u32 borsh_codec"
  bp_u64 :: "u64 borsh_codec"
  bp_uuid :: "uuid borsh_codec"

definition codec_ok :: "'a borsh_codec \<Rightarrow> bool" where
  "codec_ok A \<longleftrightarrow> (\<forall>x. reads_back (bc_ser A) (bc_de A) x)"

definition borsh_prims_ok :: "'dt borsh_prims \<Rightarrow> bool" where
  "borsh_prims_ok B \<longleftrightarrow> borsh_ok (bp_env B) \<and> codec_ok (bp_u32 B) \<and> codec_ok (bp_u64 B) \<and> codec_ok (bp_uuid B)"

named_theorems borsh_intros \<open>the derived forms read back what they write\<close>

lemma codec_okD: "codec_ok A \<Longrightarrow> reads_back (bc_ser A) (bc_de A) x"
  by (simp add: codec_ok_def)

lemma codec_okI: "(\<And>x. reads_back (bc_ser A) (bc_de A) x) \<Longrightarrow> codec_ok A"
  by (simp add: codec_ok_def)

lemma borsh_prims_okD:
  assumes "borsh_prims_ok B"
  shows "borsh_ok (bp_env B)" "codec_ok (bp_u32 B)" "codec_ok (bp_u64 B)" "codec_ok (bp_uuid B)"
  using assms by (simp_all add: borsh_prims_ok_def)

subsection \<open>Structs, options, vectors, enums\<close>

definition pair_borsh :: "'a borsh_codec \<Rightarrow> 'b borsh_codec \<Rightarrow> ('a \<times> 'b) borsh_codec" where
  "pair_borsh A B =
     \<lparr>bc_ser = (\<lambda>(a, b) writer. res_bind (bc_ser A a writer) (bc_ser B b)),
      bc_de = (\<lambda>reader. res_bind (bc_de A reader) (\<lambda>(a, reader).
         res_bind (bc_de B reader) (\<lambda>(b, reader). Inr ((a, b), reader))))\<rparr>"

text \<open>A struct: its fields, as a tuple in the order of the declaration, and back.\<close>

definition struct_borsh :: "('a \<Rightarrow> 'f) \<Rightarrow> ('f \<Rightarrow> 'a) \<Rightarrow> 'f borsh_codec \<Rightarrow> 'a borsh_codec" where
  "struct_borsh parts build F =
     \<lparr>bc_ser = (\<lambda>x. bc_ser F (parts x)),
      bc_de = (\<lambda>reader. res_bind (bc_de F reader) (\<lambda>(f, reader). Inr (build f, reader)))\<rparr>"

definition unit_borsh :: "unit borsh_codec" where
  "unit_borsh = \<lparr>bc_ser = (\<lambda>_ writer. Inr writer), bc_de = (\<lambda>reader. Inr ((), reader))\<rparr>"

definition u8_borsh :: "'dt borsh_prims \<Rightarrow> u8 borsh_codec" where
  "u8_borsh B = \<lparr>bc_ser = ser_u8 (bp_env B), bc_de = de_u8 (bp_env B)\<rparr>"

definition string_borsh :: "'dt borsh_prims \<Rightarrow> string borsh_codec" where
  "string_borsh B = \<lparr>bc_ser = ser_string (bp_env B), bc_de = de_string (bp_env B)\<rparr>"

text \<open>An enum: \<open>variant\<close> is the index of a value and the writer of its content, \<open>content\<close> the reader of
  the content of an index, none for an index without a variant.\<close>

definition enum_borsh ::
  "'dt borsh_prims \<Rightarrow> ('a \<Rightarrow> u8 \<times> (bytes \<Rightarrow> io_error + bytes)) \<Rightarrow>
     (u8 \<Rightarrow> (bytes \<Rightarrow> io_error + 'a \<times> bytes) option) \<Rightarrow> 'a borsh_codec" where
  "enum_borsh B variant content =
     \<lparr>bc_ser = (\<lambda>x writer. res_bind (bc_ser (u8_borsh B) (fst (variant x)) writer) (snd (variant x))),
      bc_de = (\<lambda>reader. res_bind (bc_de (u8_borsh B) reader) (\<lambda>(tag, reader).
         case content tag of Some body \<Rightarrow> body reader | None \<Rightarrow> Inl (InvalidData ''Unexpected variant tag'')))\<rparr>"

definition variant_de :: "('a \<Rightarrow> 'b) \<Rightarrow> 'a borsh_codec \<Rightarrow> bytes \<Rightarrow> io_error + 'b \<times> bytes" where
  "variant_de K A reader = res_bind (bc_de A reader) (\<lambda>(x, reader). Inr (K x, reader))"

definition option_borsh :: "'dt borsh_prims \<Rightarrow> 'a borsh_codec \<Rightarrow> 'a option borsh_codec" where
  "option_borsh B A = enum_borsh B
     (\<lambda>v. case v of None \<Rightarrow> (0, Inr) | Some x \<Rightarrow> (1, bc_ser A x))
     (\<lambda>tag. if tag = 0 then Some (variant_de (\<lambda>_. None) unit_borsh)
        else if tag = 1 then Some (variant_de Some A) else None)"

definition bool_borsh :: "'dt borsh_prims \<Rightarrow> bool borsh_codec" where
  "bool_borsh B = enum_borsh B (\<lambda>b. (if b then 1 else 0, Inr))
     (\<lambda>tag. if tag = 0 then Some (variant_de (\<lambda>_. False) unit_borsh)
        else if tag = 1 then Some (variant_de (\<lambda>_. True) unit_borsh) else None)"

fun ser_many :: "'a borsh_codec \<Rightarrow> 'a list \<Rightarrow> bytes \<Rightarrow> io_error + bytes" where
  "ser_many A [] writer = Inr writer"
| "ser_many A (x # xs) writer = res_bind (bc_ser A x writer) (ser_many A xs)"

fun de_many :: "'a borsh_codec \<Rightarrow> nat \<Rightarrow> bytes \<Rightarrow> io_error + 'a list \<times> bytes" where
  "de_many A 0 reader = Inr ([], reader)"
| "de_many A (Suc n) reader = res_bind (bc_de A reader) (\<lambda>(x, reader).
     res_bind (de_many A n reader) (\<lambda>(xs, reader). Inr (x # xs, reader)))"

definition vec_borsh :: "'dt borsh_prims \<Rightarrow> 'a borsh_codec \<Rightarrow> 'a list borsh_codec" where
  "vec_borsh B A =
     \<lparr>bc_ser = (\<lambda>xs writer.
         if length xs < 2 ^ 32 then res_bind (bc_ser (bp_u32 B) (of_nat (length xs)) writer) (ser_many A xs)
         else Inl (InvalidData ''length does not fit in u32'')),
      bc_de = (\<lambda>reader. res_bind (bc_de (bp_u32 B) reader) (\<lambda>(n, reader). de_many A (unat n) reader))\<rparr>"

subsection \<open>The law of the forms\<close>

text \<open>One form after the other, with what is made of the two values read.\<close>

lemma reads_back_then:
  assumes "reads_back s d x" "reads_back s' d' y"
    and "\<And>out. ser z out = res_bind (s x out) (s' y)"
    and "\<And>r r' rest. d r = Inr (x, r') \<Longrightarrow> d' r' = Inr (y, rest) \<Longrightarrow> de r = Inr (z, rest)"
  shows "reads_back ser de z"
proof (rule reads_backI)
  fix out out'
  assume "ser z out = Inr out'"
  with assms(3) obtain mid where mid: "s x out = Inr mid" "s' y mid = Inr out'"
    by (auto simp: res_bind_eq_Inr)
  obtain as where "as": "mid = out @ as" "\<And>rest. d (as @ rest) = Inr (x, rest)"
    using reads_backD [OF assms(1) mid(1)] by metis
  obtain bs where bs: "out' = mid @ bs" "\<And>rest. d' (bs @ rest) = Inr (y, rest)"
    using reads_backD [OF assms(2) mid(2)] by metis
  have "out' = out @ (as @ bs) \<and> (\<forall>rest. de ((as @ bs) @ rest) = Inr (z, rest))"
    using "as" bs assms(4) by (metis append.assoc)
  then show "\<exists>bs. out' = out @ bs \<and> (\<forall>rest. de (bs @ rest) = Inr (z, rest))" by blast
qed

lemma reads_back_as:
  assumes "reads_back s d y" "\<And>out. ser x out = s y out"
    and "\<And>r rest. d r = Inr (y, rest) \<Longrightarrow> de r = Inr (x, rest)"
  shows "reads_back ser de x"
proof (rule reads_backI)
  fix out out'
  assume "ser x out = Inr out'"
  then have "s y out = Inr out'" using assms(2) by simp
  then obtain bs where "out' = out @ bs" "\<And>rest. d (bs @ rest) = Inr (y, rest)"
    using reads_backD [OF assms(1)] by metis
  with assms(3) show "\<exists>bs. out' = out @ bs \<and> (\<forall>rest. de (bs @ rest) = Inr (x, rest))" by blast
qed

lemma reads_back_nothing: "(\<And>r. de r = Inr (x, r)) \<Longrightarrow> (\<And>out. ser x out = Inr out) \<Longrightarrow> reads_back ser de x"
  by (auto intro: reads_backI)

lemma pair_borsh_ok [borsh_intros]: "codec_ok A \<Longrightarrow> codec_ok B \<Longrightarrow> codec_ok (pair_borsh A B)"
proof (rule codec_okI)
  fix p :: "'a \<times> 'b"
  assume ok: "codec_ok A" "codec_ok B"
  obtain a b where p: "p = (a, b)" by force
  show "reads_back (bc_ser (pair_borsh A B)) (bc_de (pair_borsh A B)) p"
    by (rule reads_back_then [OF codec_okD [OF ok(1), of a] codec_okD [OF ok(2), of b]])
      (simp_all add: pair_borsh_def p)
qed

lemma struct_borsh_ok [borsh_intros]:
  assumes "codec_ok F" "\<And>x. build (parts x) = x"
  shows "codec_ok (struct_borsh parts build F)"
proof (rule codec_okI)
  fix x
  show "reads_back (bc_ser (struct_borsh parts build F)) (bc_de (struct_borsh parts build F)) x"
    by (rule reads_back_as [OF codec_okD [OF assms(1)], of _ _ "parts x"]) (simp_all add: struct_borsh_def assms(2))
qed

lemma u8_borsh_ok [borsh_intros]: "borsh_prims_ok B \<Longrightarrow> codec_ok (u8_borsh B)"
  and string_borsh_ok [borsh_intros]: "borsh_prims_ok B \<Longrightarrow> codec_ok (string_borsh B)"
  and unit_borsh_ok [borsh_intros]: "codec_ok unit_borsh"
  by (auto simp: codec_ok_def u8_borsh_def string_borsh_def unit_borsh_def
      intro: borsh_okD(1,3) borsh_prims_okD(1) reads_back_nothing)

lemma variant_de_ok: "codec_ok A \<Longrightarrow> reads_back (\<lambda>_. bc_ser A x) (variant_de K A) (K x)"
  by (rule reads_back_as [OF codec_okD, of A _ _ x]) (simp_all add: variant_de_def)

lemma variant_unit_ok: "reads_back (\<lambda>_. Inr) (variant_de (\<lambda>_. c) unit_borsh) c"
  by (auto simp: variant_de_def unit_borsh_def intro: reads_back_nothing)

lemma enum_borsh_ok:
  assumes "borsh_prims_ok B"
    and "\<And>x. \<exists>body. content (fst (variant x)) = Some body \<and> reads_back (\<lambda>_. snd (variant x)) body x"
  shows "codec_ok (enum_borsh B variant content)"
proof (rule codec_okI)
  fix x
  obtain body where body: "content (fst (variant x)) = Some body" "reads_back (\<lambda>_. snd (variant x)) body x"
    using assms(2) by blast
  show "reads_back (bc_ser (enum_borsh B variant content)) (bc_de (enum_borsh B variant content)) x"
    by (rule reads_back_then [OF codec_okD [OF u8_borsh_ok [OF assms(1)], of "fst (variant x)"] body(2)])
      (simp_all add: enum_borsh_def body(1))
qed

lemma option_borsh_ok [borsh_intros]: "borsh_prims_ok B \<Longrightarrow> codec_ok A \<Longrightarrow> codec_ok (option_borsh B A)"
  unfolding option_borsh_def
  by (rule enum_borsh_ok) (auto split: option.splits intro: variant_de_ok variant_unit_ok)

lemma bool_borsh_ok [borsh_intros]: "borsh_prims_ok B \<Longrightarrow> codec_ok (bool_borsh B)"
  unfolding bool_borsh_def
proof (rule enum_borsh_ok)
  show "\<exists>body. (if fst (if b then 1 else 0 :: u8, Inr :: bytes \<Rightarrow> io_error + bytes) = 0 then Some (variant_de (\<lambda>_. False) unit_borsh)
      else if fst (if b then 1 else 0 :: u8, Inr :: bytes \<Rightarrow> io_error + bytes) = 1 then Some (variant_de (\<lambda>_. True) unit_borsh) else None) = Some body \<and>
    reads_back (\<lambda>_. snd (if b then 1 else 0 :: u8, Inr)) body b" for b
    using variant_unit_ok [of b] by (cases b) simp_all
qed

lemma ser_many_ok:
  assumes "codec_ok A"
  shows "reads_back (ser_many A) (de_many A (length xs)) xs"
proof (induction xs)
  case Nil
  then show ?case by (simp add: reads_back_nothing)
next
  case (Cons x xs)
  then show ?case
    by (rule_tac reads_back_then [OF codec_okD [OF assms, of x] Cons.IH]) simp_all
qed

lemma vec_borsh_ok [borsh_intros]:
  assumes "borsh_prims_ok B" "codec_ok A"
  shows "codec_ok (vec_borsh B A)"
proof (rule codec_okI)
  fix xs
  show "reads_back (bc_ser (vec_borsh B A)) (bc_de (vec_borsh B A)) xs"
  proof (cases "length xs < 2 ^ 32")
    case True
    then have "unat (of_nat (length xs) :: u32) = length xs" by (simp add: unat_of_nat)
    with True show ?thesis
      by (rule_tac reads_back_then [OF codec_okD [OF borsh_prims_okD(2) [OF assms(1)], of "of_nat (length xs)"]
          ser_many_ok [OF assms(2), of xs]]) (simp_all add: vec_borsh_def)
  qed (simp add: vec_borsh_def reads_back_def)
qed

subsection \<open>Fields with functions of their own\<close>

definition utc_borsh :: "'dt borsh_prims \<Rightarrow> 'dt borsh_codec" where
  "utc_borsh B = \<lparr>bc_ser = serialize_utc (bp_env B), bc_de = deserialize_utc (bp_env B)\<rparr>"

definition option_utc_borsh :: "'dt borsh_prims \<Rightarrow> 'dt option borsh_codec" where
  "option_utc_borsh B = \<lparr>bc_ser = serialize_option_utc (bp_env B), bc_de = deserialize_option_utc (bp_env B)\<rparr>"

definition big_int_borsh :: "'dt borsh_prims \<Rightarrow> big_int borsh_codec" where
  "big_int_borsh B = \<lparr>bc_ser = bigint_serialize (bp_env B), bc_de = bigint_deserialize (bp_env B)\<rparr>"

lemma attribute_borsh_ok [borsh_intros]:
  assumes "borsh_prims_ok B"
  shows "codec_ok (utc_borsh B)" "codec_ok (option_utc_borsh B)" "codec_ok (big_int_borsh B)"
  using borsh_prims_okD(1) [OF assms]
  by (simp_all add: codec_ok_def utc_borsh_def option_utc_borsh_def big_int_borsh_def
      reads_back_utc reads_back_option_utc reads_back_bigint)

lemma prims_borsh_ok [borsh_intros]:
  "borsh_prims_ok B \<Longrightarrow> codec_ok (bp_u64 B)" "borsh_prims_ok B \<Longrightarrow> codec_ok (bp_uuid B)"
  by (simp_all add: borsh_prims_ok_def)

subsection \<open>Identifiers\<close>

definition tx_id_borsh :: "'dt borsh_prims \<Rightarrow> tx_id borsh_codec" where
  "tx_id_borsh B = struct_borsh (\<lambda>i. case i of TxId s \<Rightarrow> s) TxId (string_borsh B)"

definition token_id_borsh :: "'dt borsh_prims \<Rightarrow> token_id borsh_codec" where
  "token_id_borsh B = struct_borsh (\<lambda>i. case i of TokenId s \<Rightarrow> s) TokenId (string_borsh B)"

definition tx_event_borsh :: "'dt borsh_prims \<Rightarrow> tx_event borsh_codec" where
  "tx_event_borsh B = struct_borsh tx_event_text TxEvent (string_borsh B)"

definition task_item_id_borsh :: "'dt borsh_prims \<Rightarrow> task_item_id borsh_codec" where
  "task_item_id_borsh B = struct_borsh task_item_uuid TaskItemId (bp_uuid B)"

definition command_id_borsh :: "'dt borsh_prims \<Rightarrow> command_id borsh_codec" where
  "command_id_borsh B = struct_borsh (\<lambda>i. case i of CommandId s \<Rightarrow> s) CommandId (string_borsh B)"

subsection \<open>Parts of events and tasks\<close>

definition cannot_execute_message_reason_borsh :: "'dt borsh_prims \<Rightarrow> cannot_execute_message_reason borsh_codec" where
  "cannot_execute_message_reason_borsh B = enum_borsh B
     (\<lambda>r. case r of InsufficientGas \<Rightarrow> (0, Inr) | OtherError \<Rightarrow> (1, Inr))
     (\<lambda>tag. if tag = 0 then Some (variant_de (\<lambda>_. InsufficientGas) unit_borsh)
        else if tag = 1 then Some (variant_de (\<lambda>_. OtherError) unit_borsh) else None)"

definition message_execution_status_borsh :: "'dt borsh_prims \<Rightarrow> message_execution_status borsh_codec" where
  "message_execution_status_borsh B = enum_borsh B
     (\<lambda>s. case s of Successful \<Rightarrow> (0, Inr) | Reverted \<Rightarrow> (1, Inr))
     (\<lambda>tag. if tag = 0 then Some (variant_de (\<lambda>_. Successful) unit_borsh)
        else if tag = 1 then Some (variant_de (\<lambda>_. Reverted) unit_borsh) else None)"

definition token_borsh :: "'dt borsh_prims \<Rightarrow> token borsh_codec" where
  "token_borsh B = struct_borsh
     (\<lambda>t. (tk_token_id t, tk_amount t)) (\<lambda>(i, a). \<lparr>tk_token_id = i, tk_amount = a\<rparr>)
     (pair_borsh (option_borsh B (token_id_borsh B)) (big_int_borsh B))"

definition event_metadata_borsh :: "datetime borsh_prims \<Rightarrow> 'x borsh_codec \<Rightarrow> 'x event_metadata borsh_codec" where
  "event_metadata_borsh B X = struct_borsh
     (\<lambda>m. (em_tx_id m, em_timestamp m, em_from_address m, em_finalized m, em_extra m))
     (\<lambda>(i, t, a, f, x). \<lparr>em_tx_id = i, em_timestamp = t, em_from_address = a, em_finalized = f, em_extra = x\<rparr>)
     (pair_borsh (option_borsh B (tx_id_borsh B)) (pair_borsh (option_utc_borsh B)
       (pair_borsh (option_borsh B (string_borsh B)) (pair_borsh (option_borsh B (bool_borsh B)) X))))"

definition call_event_metadata_borsh :: "'dt borsh_prims \<Rightarrow> call_event_metadata borsh_codec" where
  "call_event_metadata_borsh B = struct_borsh cem_parent_message_id (\<lambda>i. \<lparr>cem_parent_message_id = i\<rparr>)
     (option_borsh B (tx_event_borsh B))"

definition message_approved_event_metadata_borsh :: "'dt borsh_prims \<Rightarrow> message_approved_event_metadata borsh_codec" where
  "message_approved_event_metadata_borsh B = struct_borsh mam_command_id (\<lambda>i. \<lparr>mam_command_id = i\<rparr>)
     (option_borsh B (command_id_borsh B))"

definition message_executed_event_metadata_borsh :: "'dt borsh_prims \<Rightarrow> message_executed_event_metadata borsh_codec" where
  "message_executed_event_metadata_borsh B = struct_borsh
     (\<lambda>m. (mem_command_id m, mem_child_message_ids m))
     (\<lambda>(i, ids). \<lparr>mem_command_id = i, mem_child_message_ids = ids\<rparr>)
     (pair_borsh (option_borsh B (command_id_borsh B)) (option_borsh B (vec_borsh B (tx_event_borsh B))))"

definition cannot_execute_metadata_borsh ::
  "datetime borsh_prims \<Rightarrow> cannot_execute_message_event_v2_metadata borsh_codec" where
  "cannot_execute_metadata_borsh B = struct_borsh
     (\<lambda>m. (cxm_from_address m, cxm_timestamp m, cxm_task_item_id m))
     (\<lambda>(a, t, i). \<lparr>cxm_from_address = a, cxm_timestamp = t, cxm_task_item_id = i\<rparr>)
     (pair_borsh (option_borsh B (string_borsh B)) (pair_borsh (option_utc_borsh B) (task_item_id_borsh B)))"

definition signers_rotated_metadata_borsh :: "'dt borsh_prims \<Rightarrow> signers_rotated_metadata borsh_codec" where
  "signers_rotated_metadata_borsh B = struct_borsh
     (\<lambda>m. (srm_signer_hash m, srm_epoch m)) (\<lambda>(h, e). \<lparr>srm_signer_hash = h, srm_epoch = e\<rparr>)
     (pair_borsh (vec_borsh B (u8_borsh B)) (bp_u64 B))"

definition gateway_v2_message_borsh :: "'dt borsh_prims \<Rightarrow> gateway_v2_message borsh_codec" where
  "gateway_v2_message_borsh B = struct_borsh
     (\<lambda>m. (gm_message_id m, gm_source_chain m, gm_source_address m, gm_destination_address m, gm_payload_hash m))
     (\<lambda>(i, c, s, d, h). \<lparr>gm_message_id = i, gm_source_chain = c, gm_source_address = s,
        gm_destination_address = d, gm_payload_hash = h\<rparr>)
     (pair_borsh (tx_event_borsh B) (pair_borsh (string_borsh B) (pair_borsh (string_borsh B)
       (pair_borsh (string_borsh B) (vec_borsh B (u8_borsh B))))))"

definition event_base_borsh :: "datetime borsh_prims \<Rightarrow> 'x borsh_codec \<Rightarrow> 'x event_base borsh_codec" where
  "event_base_borsh B X = struct_borsh
     (\<lambda>b. (eb_event_id b, eb_meta b)) (\<lambda>(i, m). \<lparr>eb_event_id = i, eb_meta = m\<rparr>)
     (pair_borsh (tx_event_borsh B) (option_borsh B (event_metadata_borsh B X)))"

subsection \<open>Events\<close>

definition gas_credit_event_borsh :: "datetime borsh_prims \<Rightarrow> gas_credit_event borsh_codec" where
  "gas_credit_event_borsh B = struct_borsh
     (\<lambda>e. (gc_base e, gc_message_id e, gc_refund_address e, gc_payment e))
     (\<lambda>(b, i, a, p). \<lparr>gc_base = b, gc_message_id = i, gc_refund_address = a, gc_payment = p\<rparr>)
     (pair_borsh (event_base_borsh B unit_borsh) (pair_borsh (tx_event_borsh B)
       (pair_borsh (string_borsh B) (token_borsh B))))"

definition gas_refunded_event_borsh :: "datetime borsh_prims \<Rightarrow> gas_refunded_event borsh_codec" where
  "gas_refunded_event_borsh B = struct_borsh
     (\<lambda>e. (gr_base e, gr_message_id e, gr_recipient_address e, gr_refunded_amount e, gr_cost e))
     (\<lambda>(b, i, a, r, c). \<lparr>gr_base = b, gr_message_id = i, gr_recipient_address = a, gr_refunded_amount = r, gr_cost = c\<rparr>)
     (pair_borsh (event_base_borsh B unit_borsh) (pair_borsh (tx_event_borsh B)
       (pair_borsh (string_borsh B) (pair_borsh (token_borsh B) (token_borsh B)))))"

definition call_event_borsh :: "datetime borsh_prims \<Rightarrow> call_event borsh_codec" where
  "call_event_borsh B = struct_borsh
     (\<lambda>e. (ce_base e, ce_message e, ce_destination_chain e, ce_payload e))
     (\<lambda>(b, m, d, p). \<lparr>ce_base = b, ce_message = m, ce_destination_chain = d, ce_payload = p\<rparr>)
     (pair_borsh (event_base_borsh B (call_event_metadata_borsh B)) (pair_borsh (gateway_v2_message_borsh B)
       (pair_borsh (string_borsh B) (vec_borsh B (u8_borsh B)))))"

definition message_approved_event_borsh :: "datetime borsh_prims \<Rightarrow> message_approved_event borsh_codec" where
  "message_approved_event_borsh B = struct_borsh
     (\<lambda>e. (ma_base e, ma_message e, ma_cost e)) (\<lambda>(b, m, c). \<lparr>ma_base = b, ma_message = m, ma_cost = c\<rparr>)
     (pair_borsh (event_base_borsh B (message_approved_event_metadata_borsh B))
       (pair_borsh (gateway_v2_message_borsh B) (token_borsh B)))"

definition signers_rotated_event_borsh :: "datetime borsh_prims \<Rightarrow> signers_rotated_event borsh_codec" where
  "signers_rotated_event_borsh B = struct_borsh
     (\<lambda>e. (sr_base e, sr_cost e)) (\<lambda>(b, c). \<lparr>sr_base = b, sr_cost = c\<rparr>)
     (pair_borsh (event_base_borsh B (signers_rotated_metadata_borsh B)) (token_borsh B))"

definition message_executed_event_borsh :: "datetime borsh_prims \<Rightarrow> message_executed_event borsh_codec" where
  "message_executed_event_borsh B = struct_borsh
     (\<lambda>e. (mx_base e, mx_message_id e, mx_source_chain e, mx_status e, mx_cost e))
     (\<lambda>(b, i, s, t, c). \<lparr>mx_base = b, mx_message_id = i, mx_source_chain = s, mx_status = t, mx_cost = c\<rparr>)
     (pair_borsh (event_base_borsh B (message_executed_event_metadata_borsh B)) (pair_borsh (tx_event_borsh B)
       (pair_borsh (string_borsh B) (pair_borsh (message_execution_status_borsh B) (token_borsh B)))))"

definition cannot_execute_message_event_v2_borsh :: "datetime borsh_prims \<Rightarrow> cannot_execute_message_event_v2 borsh_codec" where
  "cannot_execute_message_event_v2_borsh B = struct_borsh
     (\<lambda>e. (cx_base e, cx_message_id e, cx_source_chain e, cx_reason e, cx_details e))
     (\<lambda>(b, i, s, r, d). \<lparr>cx_base = b, cx_message_id = i, cx_source_chain = s, cx_reason = r, cx_details = d\<rparr>)
     (pair_borsh (event_base_borsh B (cannot_execute_metadata_borsh B)) (pair_borsh (tx_event_borsh B)
       (pair_borsh (string_borsh B) (pair_borsh (cannot_execute_message_reason_borsh B) (string_borsh B)))))"

definition event_variant :: "datetime borsh_prims \<Rightarrow> event \<Rightarrow> u8 \<times> (bytes \<Rightarrow> io_error + bytes)" where
  "event_variant B ev =
     (case ev of
        GasCredit x \<Rightarrow> (0, bc_ser (gas_credit_event_borsh B) x)
      | GasRefunded x \<Rightarrow> (1, bc_ser (gas_refunded_event_borsh B) x)
      | Call x \<Rightarrow> (2, bc_ser (call_event_borsh B) x)
      | MessageApproved x \<Rightarrow> (3, bc_ser (message_approved_event_borsh B) x)
      | MessageExecuted x \<Rightarrow> (4, bc_ser (message_executed_event_borsh B) x)
      | CannotExecuteMessageV2 x \<Rightarrow> (5, bc_ser (cannot_execute_message_event_v2_borsh B) x)
      | SignersRotated x \<Rightarrow> (6, bc_ser (signers_rotated_event_borsh B) x))"

definition event_content :: "datetime borsh_prims \<Rightarrow> u8 \<Rightarrow> (bytes \<Rightarrow> io_error + event \<times> bytes) option" where
  "event_content B tag =
     (if tag = 0 then Some (variant_de GasCredit (gas_credit_event_borsh B))
      else if tag = 1 then Some (variant_de GasRefunded (gas_refunded_event_borsh B))
      else if tag = 2 then Some (variant_de Call (call_event_borsh B))
      else if tag = 3 then Some (variant_de MessageApproved (message_approved_event_borsh B))
      else if tag = 4 then Some (variant_de MessageExecuted (message_executed_event_borsh B))
      else if tag = 5 then Some (variant_de CannotExecuteMessageV2 (cannot_execute_message_event_v2_borsh B))
      else if tag = 6 then Some (variant_de SignersRotated (signers_rotated_event_borsh B))
      else None)"

definition event_borsh :: "datetime borsh_prims \<Rightarrow> event borsh_codec" where
  "event_borsh B = enum_borsh B (event_variant B) (event_content B)"

subsection \<open>Tasks\<close>

definition construct_proof_task_borsh :: "'dt borsh_prims \<Rightarrow> construct_proof_task borsh_codec" where
  "construct_proof_task_borsh B = struct_borsh
     (\<lambda>t. (cp_message t, cp_payload t)) (\<lambda>(m, p). \<lparr>cp_message = m, cp_payload = p\<rparr>)
     (pair_borsh (gateway_v2_message_borsh B) (vec_borsh B (u8_borsh B)))"

definition verify_task_borsh :: "'dt borsh_prims \<Rightarrow> verify_task borsh_codec" where
  "verify_task_borsh B = struct_borsh
     (\<lambda>t. (vt_message t, vt_payload t)) (\<lambda>(m, p). \<lparr>vt_message = m, vt_payload = p\<rparr>)
     (pair_borsh (gateway_v2_message_borsh B) (vec_borsh B (u8_borsh B)))"

definition gateway_transaction_task_borsh :: "'dt borsh_prims \<Rightarrow> gateway_transaction_task borsh_codec" where
  "gateway_transaction_task_borsh B = struct_borsh gt_execute_data (\<lambda>d. \<lparr>gt_execute_data = d\<rparr>) (vec_borsh B (u8_borsh B))"

definition execute_task_borsh :: "'dt borsh_prims \<Rightarrow> execute_task borsh_codec" where
  "execute_task_borsh B = struct_borsh
     (\<lambda>t. (et_message t, et_payload t, et_available_gas_balance t))
     (\<lambda>(m, p, b). \<lparr>et_message = m, et_payload = p, et_available_gas_balance = b\<rparr>)
     (pair_borsh (gateway_v2_message_borsh B) (pair_borsh (vec_borsh B (u8_borsh B)) (token_borsh B)))"

definition refund_task_borsh :: "'dt borsh_prims \<Rightarrow> refund_task borsh_codec" where
  "refund_task_borsh B = struct_borsh
     (\<lambda>t. (rt_message t, rt_refund_recipient_address t, rt_remaining_gas_balance t))
     (\<lambda>(m, a, b). \<lparr>rt_message = m, rt_refund_recipient_address = a, rt_remaining_gas_balance = b\<rparr>)
     (pair_borsh (gateway_v2_message_borsh B) (pair_borsh (string_borsh B) (token_borsh B)))"

definition task_variant :: "'dt borsh_prims \<Rightarrow> task \<Rightarrow> u8 \<times> (bytes \<Rightarrow> io_error + bytes)" where
  "task_variant B t =
     (case t of
        ConstructProof x \<Rightarrow> (0, bc_ser (construct_proof_task_borsh B) x)
      | Verify x \<Rightarrow> (1, bc_ser (verify_task_borsh B) x)
      | GatewayTx x \<Rightarrow> (2, bc_ser (gateway_transaction_task_borsh B) x)
      | Execute x \<Rightarrow> (3, bc_ser (execute_task_borsh B) x)
      | Refund x \<Rightarrow> (4, bc_ser (refund_task_borsh B) x))"

definition task_content :: "'dt borsh_prims \<Rightarrow> u8 \<Rightarrow> (bytes \<Rightarrow> io_error + task \<times> bytes) option" where
  "task_content B tag =
     (if tag = 0 then Some (variant_de ConstructProof (construct_proof_task_borsh B))
      else if tag = 1 then Some (variant_de Verify (verify_task_borsh B))
      else if tag = 2 then Some (variant_de GatewayTx (gateway_transaction_task_borsh B))
      else if tag = 3 then Some (variant_de Execute (execute_task_borsh B))
      else if tag = 4 then Some (variant_de Refund (refund_task_borsh B))
      else None)"

definition task_borsh :: "'dt borsh_prims \<Rightarrow> task borsh_codec" where
  "task_borsh B = enum_borsh B (task_variant B) (task_content B)"

definition task_item_borsh :: "datetime borsh_prims \<Rightarrow> task_item borsh_codec" where
  "task_item_borsh B = struct_borsh
     (\<lambda>t. (ti_id t, ti_timestamp t, ti_task t)) (\<lambda>(i, s, t). \<lparr>ti_id = i, ti_timestamp = s, ti_task = t\<rparr>)
     (pair_borsh (task_item_id_borsh B) (pair_borsh (utc_borsh B) (task_borsh B)))"

subsection \<open>The law of the types\<close>

text \<open>The field readers in the order of the fields put the struct together again: \<open>struct_borsh_ok\<close>,
  with what the record package knows.\<close>

lemma ids_borsh_ok [borsh_intros]:
  assumes "borsh_prims_ok B"
  shows "codec_ok (tx_id_borsh B)" "codec_ok (token_id_borsh B)" "codec_ok (tx_event_borsh B)"
    "codec_ok (task_item_id_borsh B)" "codec_ok (command_id_borsh B)"
  by (simp_all add: tx_id_borsh_def token_id_borsh_def tx_event_borsh_def task_item_id_borsh_def
      command_id_borsh_def borsh_intros assms split: tx_id.split token_id.split command_id.split)

lemma reason_borsh_ok [borsh_intros]: "borsh_prims_ok B \<Longrightarrow> codec_ok (cannot_execute_message_reason_borsh B)"
  unfolding cannot_execute_message_reason_borsh_def
  by (rule enum_borsh_ok) (auto split: cannot_execute_message_reason.splits intro: variant_unit_ok)

lemma status_borsh_ok [borsh_intros]: "borsh_prims_ok B \<Longrightarrow> codec_ok (message_execution_status_borsh B)"
  unfolding message_execution_status_borsh_def
  by (rule enum_borsh_ok) (auto split: message_execution_status.splits intro: variant_unit_ok)

lemma parts_borsh_ok [borsh_intros]:
  assumes "borsh_prims_ok B"
  shows "codec_ok (token_borsh B)" "codec_ok (call_event_metadata_borsh B)"
    "codec_ok (message_approved_event_metadata_borsh B)" "codec_ok (message_executed_event_metadata_borsh B)"
    "codec_ok (signers_rotated_metadata_borsh B)" "codec_ok (gateway_v2_message_borsh B)"
  by (simp_all add: token_borsh_def call_event_metadata_borsh_def message_approved_event_metadata_borsh_def
      message_executed_event_metadata_borsh_def signers_rotated_metadata_borsh_def gateway_v2_message_borsh_def
      borsh_intros assms)

lemma bases_borsh_ok [borsh_intros]:
  assumes "borsh_prims_ok B"
  shows "codec_ok X \<Longrightarrow> codec_ok (event_metadata_borsh B X)" "codec_ok X \<Longrightarrow> codec_ok (event_base_borsh B X)"
    "codec_ok (cannot_execute_metadata_borsh B)"
  by (simp_all add: event_metadata_borsh_def event_base_borsh_def cannot_execute_metadata_borsh_def borsh_intros assms)

lemma events_borsh_ok [borsh_intros]:
  assumes "borsh_prims_ok B"
  shows "codec_ok (gas_credit_event_borsh B)" "codec_ok (gas_refunded_event_borsh B)" "codec_ok (call_event_borsh B)"
    "codec_ok (message_approved_event_borsh B)" "codec_ok (signers_rotated_event_borsh B)"
    "codec_ok (message_executed_event_borsh B)" "codec_ok (cannot_execute_message_event_v2_borsh B)"
  by (simp_all add: gas_credit_event_borsh_def gas_refunded_event_borsh_def call_event_borsh_def
      message_approved_event_borsh_def signers_rotated_event_borsh_def message_executed_event_borsh_def
      cannot_execute_message_event_v2_borsh_def borsh_intros assms)

lemma event_borsh_ok [borsh_intros]:
  assumes "borsh_prims_ok B"
  shows "codec_ok (event_borsh B)"
  unfolding event_borsh_def
proof (rule enum_borsh_ok [OF assms])
  fix ev
  show "\<exists>body. event_content B (fst (event_variant B ev)) = Some body \<and> reads_back (\<lambda>_. snd (event_variant B ev)) body ev"
    by (cases ev) (simp_all add: event_variant_def event_content_def variant_de_ok borsh_intros assms)
qed

lemma tasks_borsh_ok [borsh_intros]:
  assumes "borsh_prims_ok B"
  shows "codec_ok (construct_proof_task_borsh B)" "codec_ok (verify_task_borsh B)"
    "codec_ok (gateway_transaction_task_borsh B)" "codec_ok (execute_task_borsh B)" "codec_ok (refund_task_borsh B)"
  by (simp_all add: construct_proof_task_borsh_def verify_task_borsh_def gateway_transaction_task_borsh_def
      execute_task_borsh_def refund_task_borsh_def borsh_intros assms)

lemma task_borsh_ok [borsh_intros]:
  assumes "borsh_prims_ok B"
  shows "codec_ok (task_borsh B)"
  unfolding task_borsh_def
proof (rule enum_borsh_ok [OF assms])
  fix t
  show "\<exists>body. task_content B (fst (task_variant B t)) = Some body \<and> reads_back (\<lambda>_. snd (task_variant B t)) body t"
    by (cases t) (simp_all add: task_variant_def task_content_def variant_de_ok borsh_intros assms)
qed

lemma task_item_borsh_ok [borsh_intros]: "borsh_prims_ok B \<Longrightarrow> codec_ok (task_item_borsh B)"
  by (simp add: task_item_borsh_def borsh_intros)

interpretation event_codec: codec borsh_prims_ok "\<lambda>B. bc_ser (event_borsh B)" "\<lambda>B. bc_de (event_borsh B)"
  by unfold_locales (rule codec_okD [OF event_borsh_ok])

interpretation task_item_codec: codec borsh_prims_ok "\<lambda>B. bc_ser (task_item_borsh B)" "\<lambda>B. bc_de (task_item_borsh B)"
  by unfold_locales (rule codec_okD [OF task_item_borsh_ok])

subsection \<open>The forms in the queues and in the store\<close>

text \<open>
  \<open>borsh::to_vec\<close> writes to an empty vector.  The queues read with \<open>T::deserialize(&mut slice)\<close>, which
  leaves what follows the value in the slice, where nobody looks; the Redis store reads with
  \<open>borsh::from_slice\<close>, which refuses it.
\<close>

definition queue_borsh :: "'a borsh_codec \<Rightarrow> 'a borsh_type" where
  "queue_borsh A =
     \<lparr>to_vec = (\<lambda>x. bc_ser A x []),
      from_slice = (\<lambda>slice. res_bind (bc_de A slice) (\<lambda>(x, slice). Inr x))\<rparr>"

definition store_borsh :: "'a borsh_codec \<Rightarrow> 'a borsh_type" where
  "store_borsh A =
     \<lparr>to_vec = (\<lambda>x. bc_ser A x []),
      from_slice = (\<lambda>slice. res_bind (bc_de A slice) (\<lambda>(x, slice).
        if slice = [] then Inr x else Inl (InvalidData ''Not all bytes read'')))\<rparr>"

lemma written_reads:
  assumes "codec_ok A" "bc_ser A x [] = Inr bs"
  shows "bc_de A (bs @ rest) = Inr (x, rest)" "bc_de A bs = Inr (x, [])"
proof -
  have all: "bc_de A (bs @ r) = Inr (x, r)" for r
    using reads_backD [OF codec_okD [OF assms(1)] assms(2)] by auto
  show "bc_de A (bs @ rest) = Inr (x, rest)" "bc_de A bs = Inr (x, [])"
    using all [of rest] all [of "[]"] by simp_all
qed

lemma queue_borsh_ok [borsh_intros]: "codec_ok A \<Longrightarrow> borsh_type_ok (queue_borsh A)"
  by (simp add: borsh_type_ok_def queue_borsh_def written_reads(2))

lemma store_borsh_ok [borsh_intros]: "codec_ok A \<Longrightarrow> borsh_type_ok (store_borsh A)"
  by (simp add: borsh_type_ok_def store_borsh_def written_reads(2))

text \<open>Where the two readers differ: bytes after the value.\<close>

lemma trailing_bytes:
  assumes "codec_ok A" "bc_ser A x [] = Inr bs" "rest \<noteq> []"
  shows "from_slice (queue_borsh A) (bs @ rest) = Inr x"
    "from_slice (store_borsh A) (bs @ rest) = Inl (InvalidData ''Not all bytes read'')"
  using written_reads(1) [OF assms(1,2), of rest] assms(3) by (simp_all add: queue_borsh_def store_borsh_def)

subsection \<open>Primitives on which the forms can be evaluated\<close>

definition borsh_le_datetime :: "datetime borsh_env" where
  "borsh_le_datetime =
     \<lparr>ser_u8 = ser_u8 borsh_le, de_u8 = de_u8 borsh_le,
      ser_i64_u32 = ser_i64_u32 borsh_le, de_i64_u32 = de_i64_u32 borsh_le,
      ser_string = ser_string borsh_le, de_string = de_string borsh_le,
      timestamp = dt_secs, timestamp_subsec_nanos = dt_nanos, from_timestamp = (\<lambda>s n. Some (DateTime s n))\<rparr>"

definition le_word :: "nat \<Rightarrow> 'w::len word borsh_codec" where
  "le_word k = \<lparr>bc_ser = (\<lambda>x w. Inr (w @ le_bytes k (unat x))),
     bc_de = (\<lambda>r. res_bind (read_le k r) (\<lambda>(n, r). Inr (of_nat n, r)))\<rparr>"

text \<open>A \<open>uuid\<close> is its sixteen bytes, the most significant first.\<close>

definition be_uuid :: "uuid borsh_codec" where
  "be_uuid = \<lparr>bc_ser = (\<lambda>x w. Inr (w @ rev (le_bytes 16 (unat x)))),
     bc_de = (\<lambda>r. if length r < 16 then Inl (InvalidData ''Unexpected length of input'')
       else Inr (of_nat (le_value (rev (take 16 r))), drop 16 r))\<rparr>"

definition borsh_le_prims :: "datetime borsh_prims" where
  "borsh_le_prims = \<lparr>bp_env = borsh_le_datetime, bp_u32 = le_word 4, bp_u64 = le_word 8, bp_uuid = be_uuid\<rparr>"

lemma unat_mod_exact:
  fixes x :: "'w::len word"
  shows "LENGTH('w) \<le> 8 * k \<Longrightarrow> unat x mod 256 ^ k = unat x"
proof -
  assume "LENGTH('w) \<le> 8 * k"
  then have "2 ^ LENGTH('w) \<le> (2 :: nat) ^ (8 * k)" by (rule power_increasing) simp
  then have "unat x < 256 ^ k"
    using less_le_trans [OF unsigned_less [of x, where ?'a = nat]] by (simp add: power_mult)
  then show ?thesis by simp
qed

lemma le_word_ok: "LENGTH('w::len) \<le> 8 * k \<Longrightarrow> codec_ok (le_word k :: 'w word borsh_codec)"
  by (auto simp: codec_ok_def reads_back_def le_word_def unat_mod_exact)

lemma borsh_le_prims_ok: "borsh_prims_ok borsh_le_prims"
proof -
  have "borsh_ok borsh_le_datetime"
    using borsh_le_ok by (simp add: borsh_ok_def borsh_le_datetime_def)
  moreover have "unat x mod 256 ^ 16 = unat x" for x :: uuid by (rule unat_mod_exact) simp
  then have "codec_ok be_uuid"
    by (simp add: codec_ok_def reads_back_def be_uuid_def)
  ultimately show ?thesis
    by (simp add: borsh_prims_ok_def borsh_le_prims_def le_word_ok)
qed

text \<open>What the forms write, for evaluation.\<close>

lemma ser_forms:
  "bc_ser (pair_borsh A B) (a, b) w = res_bind (bc_ser A a w) (bc_ser B b)"
  "bc_ser (struct_borsh parts build F) x w = bc_ser F (parts x) w"
  "bc_ser unit_borsh u w = Inr w"
  "bc_ser (enum_borsh P variant content) y w = res_bind (bc_ser (u8_borsh P) (fst (variant y)) w) (snd (variant y))"
  "bc_ser (option_borsh P C) None w = bc_ser (u8_borsh P) 0 w"
  "bc_ser (option_borsh P C) (Some c) w = res_bind (bc_ser (u8_borsh P) 1 w) (bc_ser C c)"
  "bc_ser (bool_borsh P) t w = bc_ser (u8_borsh P) (if t then 1 else 0) w"
  "length cs < 4294967296 \<Longrightarrow>
     bc_ser (vec_borsh P C) cs w = res_bind (bc_ser (bp_u32 P) (of_nat (length cs)) w) (ser_many C cs)"
  by (simp_all add: pair_borsh_def struct_borsh_def unit_borsh_def enum_borsh_def option_borsh_def bool_borsh_def vec_borsh_def)
    (cases "bc_ser (u8_borsh P) 0 w"; cases "bc_ser (u8_borsh P) 1 w"; simp)+

lemma ser_le:
  "bc_ser (u8_borsh borsh_le_prims) b w = Inr (w @ [b])"
  "bc_ser (bp_u32 borsh_le_prims) l w = Inr (w @ le_bytes 4 (unat l))"
  "bc_ser (bp_u64 borsh_le_prims) n w = Inr (w @ le_bytes 8 (unat n))"
  "length s < 4294967296 \<Longrightarrow> bc_ser (string_borsh borsh_le_prims) s w =
     Inr (w @ le_bytes 4 (length s) @ map (\<lambda>c. of_nat (of_char c)) s)"
  "bc_ser (option_utc_borsh borsh_le_prims) None w = Inr (w @ [0])"
  "bc_ser (option_utc_borsh borsh_le_prims) (Some dt) w =
     Inr (w @ 1 # le_bytes 8 (unat (dt_secs dt)) @ le_bytes 4 (unat (dt_nanos dt)))"
  "length (dec_int (sint (bi_inner v))) < 4294967296 \<Longrightarrow>
     bc_ser (big_int_borsh borsh_le_prims) v w = bc_ser (string_borsh borsh_le_prims) (dec_int (sint (bi_inner v))) w"
  by (simp_all add: u8_borsh_def string_borsh_def option_utc_borsh_def big_int_borsh_def borsh_le_prims_def
      borsh_le_datetime_def borsh_le_def le_word_def le_string_def serialize_option_utc_def serialize_utc_def bigint_serialize_def)

subsection \<open>Properties\<close>

text \<open>C40: an event of any kind, written in its Borsh form, is read back as it was, with all its optional
  parts, whatever was written before it and whatever follows it.\<close>

theorem event_borsh_roundtrip:
  assumes "borsh_prims_ok B" "bc_ser (event_borsh B) ev out = Inr out'"
  shows "\<exists>bs. out' = out @ bs \<and> bc_de (event_borsh B) (bs @ rest) = Inr (ev, rest)"
  using assms by (rule event_codec.roundtrip)

definition rotated_signers :: event where
  "rotated_signers = SignersRotated
     \<lparr>sr_base = \<lparr>eb_event_id = TxEvent ''e'',
        eb_meta = Some \<lparr>em_tx_id = None, em_timestamp = Some (DateTime 5 7), em_from_address = Some ''a'',
          em_finalized = Some True, em_extra = \<lparr>srm_signer_hash = [9], srm_epoch = 3\<rparr>\<rparr>\<rparr>,
      sr_cost = \<lparr>tk_token_id = None, tk_amount = BigInt 4\<rparr>\<rparr>"

lemma rotated_signers_bytes:
  "bc_ser (event_borsh borsh_le_prims) rotated_signers [] = Inr
     ([6] @ [1, 0, 0, 0, 101] @ [1] @ [0] @ [1, 5, 0, 0, 0, 0, 0, 0, 0, 7, 0, 0, 0] @ [1, 1, 0, 0, 0, 97] @ [1, 1] @
      [1, 0, 0, 0, 9] @ [3, 0, 0, 0, 0, 0, 0, 0] @ [0] @ [1, 0, 0, 0, 52])"
  by (simp add: rotated_signers_def event_borsh_def event_variant_def signers_rotated_event_borsh_def event_base_borsh_def
      event_metadata_borsh_def signers_rotated_metadata_borsh_def token_borsh_def tx_event_borsh_def ser_forms ser_le
      dec_int_def dec_nat_small digit_char_def le_bytes_numeral)

theorem event_borsh_roundtrip_witness:
  "borsh_prims_ok borsh_le_prims \<and>
   (\<exists>bs. bc_ser (event_borsh borsh_le_prims) rotated_signers [] = Inr bs \<and> length bs = 48 \<and>
      bc_de (event_borsh borsh_le_prims) (bs @ [8]) = Inr (rotated_signers, [8]))"
  using event_borsh_roundtrip [OF borsh_le_prims_ok rotated_signers_bytes, of "[8]"]
  by (simp add: rotated_signers_bytes borsh_le_prims_ok)

text \<open>The task of a queue: what one run of the subscriber publishes is what the next one reads the
  cursor off, and what a consumer gets.\<close>

theorem task_item_borsh_roundtrip:
  assumes "borsh_prims_ok B" "bc_ser (task_item_borsh B) t out = Inr out'"
  shows "\<exists>bs. out' = out @ bs \<and> bc_de (task_item_borsh B) (bs @ rest) = Inr (t, rest)"
  using assms by (rule task_item_codec.roundtrip)

end
