(* ===== verification/Event_Transport.thy ===== *)
theory Event_Transport
  imports Gcp_Pipeline Gcp_Publisher Nats_Rounds Api_Borsh "HOL-Library.List_Lexorder" "HOL-Library.Char_ord"
begin

text \<open>
  An event on its way through Pub/Sub, from the program that publishes it to the Amplifier API: the
  Borsh form of the envelope (\<open>MessageContent\<close> of \<open>gcp/util.rs\<close>), what \<open>to_pubsub_message\<close>
  (\<open>gcp/publisher.rs\<close>) makes of an event and \<open>GcpMessage::decode\<close> (\<open>gcp/consumer.rs\<close>) of the bytes,
  and the pipeline of the ingester between the delivery and the acknowledgement.
\<close>

subsection \<open>The envelope\<close>

text \<open>A \<open>HashMap\<close> is written as the vector of its entries in the order of the keys; of the entries
  read, a later one replaces an earlier one with the same key.\<close>

definition headers_borsh :: "'dt borsh_prims \<Rightarrow> (string, string) fmap borsh_codec" where
  "headers_borsh B = struct_borsh sorted_list_of_fmap (\<lambda>entries. fmap_of_list (rev entries))
     (vec_borsh B (pair_borsh (string_borsh B) (string_borsh B)))"

definition message_content_borsh :: "'dt borsh_prims \<Rightarrow> 'a borsh_codec \<Rightarrow> 'a message_content borsh_codec" where
  "message_content_borsh B A = struct_borsh
     (\<lambda>m. (mc_headers m, mc_data m)) (\<lambda>(h, d). \<lparr>mc_headers = h, mc_data = d\<rparr>)
     (pair_borsh (headers_borsh B) A)"

lemma map_of_rev_distinct_keys: "distinct (map fst kvs) \<Longrightarrow> map_of (rev kvs) = map_of kvs"
proof (induction kvs)
  case (Cons kv kvs)
  then have "map_of kvs (fst kv) = None" by (simp add: map_of_eq_None_iff)
  with Cons show ?case by (auto simp: map_add_def fun_eq_iff split: option.split)
qed simp

lemma sorted_list_of_fmap_rev [simp]: "fmap_of_list (rev (sorted_list_of_fmap m)) = m"
proof (rule fmap_ext)
  fix k
  have "distinct (map fst (sorted_list_of_fmap m))"
    by (simp add: sorted_list_of_fmap_def o_def sorted_list_of_fset.rep_eq)
  then show "fmlookup (fmap_of_list (rev (sorted_list_of_fmap m))) k = fmlookup m k"
    by (simp add: fmlookup_of_list map_of_rev_distinct_keys)
qed

lemma envelope_borsh_ok [borsh_intros]:
  assumes "borsh_prims_ok B"
  shows "codec_ok (headers_borsh B)" "codec_ok A \<Longrightarrow> codec_ok (message_content_borsh B A)"
  by (simp_all add: headers_borsh_def message_content_borsh_def borsh_intros assms)

definition event_envelope :: "datetime borsh_prims \<Rightarrow> event message_content borsh_type" where
  "event_envelope B = queue_borsh (message_content_borsh B (event_borsh B))"

lemma event_envelope_ok: "borsh_prims_ok B \<Longrightarrow> borsh_type_ok (event_envelope B)"
  by (simp add: event_envelope_def borsh_intros)

text \<open>The other forms that queues and stores rely on.\<close>

lemma task_forms_ok:
  assumes "borsh_prims_ok B"
  shows "borsh_type_ok (queue_borsh (event_borsh B))" "borsh_type_ok (queue_borsh (task_item_borsh B))"
    "borsh_type_ok (queue_borsh (message_content_borsh B (task_item_borsh B)))"
    "borsh_type_ok (store_borsh (task_item_id_borsh B))"
  by (simp_all add: borsh_intros assms)

subsection \<open>From publisher to consumer\<close>

lemma published_message:
  assumes "to_pubsub_message G C msg w = Inr pm"
  shows "ps_attributes pm ''Msg-Id'' = Some (deduplication_id msg)"
    "\<exists>content. to_vec C content = Inr (ps_data pm) \<and> mc_data content = pm_data msg"
  using assms
  by (auto simp: to_pubsub_message_def msg_id_attribute_def Let_def res_bind_eq_Inr message_content_new_def)

text \<open>What the consumer decodes is what was published, under the id it was published with.\<close>

lemma published_decodes:
  assumes "borsh_type_ok C" "to_pubsub_message G C msg w = Inr (received_message G x)"
  shows "gcp_message_decode G C sub x conn deadline w' = Inr
    \<lparr>gx_id = deduplication_id msg, gx_decoded = pm_data msg, gx_subscription_name = sub, gx_msg = x,
     gx_redis_connection = conn, gx_received_instant = instant_now G w', gx_ack_deadline_secs = deadline\<rparr>"
proof -
  obtain content where "to_vec C content = Inr (ps_data (received_message G x))" "mc_data content = pm_data msg"
    using published_message(2) [OF assms(2)] by blast
  with borsh_type_okD [OF assms(1)] have "from_slice C (ps_data (received_message G x)) = Inr content" by blast
  with published_message(1) [OF assms(2)] \<open>mc_data content = pm_data msg\<close> show ?thesis
    by (simp add: gcp_message_decode_def)
qed

text \<open>On NATS: the message a publish acknowledged as new has put at the end of the stream is decoded by
  the consumer as what was published.\<close>

lemma nats_published_decodes:
  assumes "publish_logged N V P" "borsh_type_ok C"
    and "nats_publish N C P msg w = (Inr ack, w')" "\<not> pa_duplicate ack"
    and "message_payload N x = snd (last (st_log V (np_stream P) w'))"
  shows "fst (last (st_log V (np_stream P) w')) = deduplication_id msg \<and>
    nats_message_decode N C x = Inr \<lparr>nm_decoded = pm_data msg, nm_msg = x\<rparr>"
proof -
  obtain data pending w1 where
    data: "to_vec C (pm_data msg) = Inr data" and
    sent: "publish_with_headers N (np_context P) (np_subject P) [(nats_msg_id_header, deduplication_id msg)] data w = (Inr pending, w1)"
      "await_publish_ack N pending w1 = (Inr ack, w')"
    using assms(3) by (auto simp: nats_publish_def io_cases Let_def io_defs)
  from assms(1) [unfolded publish_logged_def, rule_format, OF sent(1)] sent(2) assms(4)
  have "st_log V (np_stream P) w' = st_log V (np_stream P) w @ [(deduplication_id msg, data)]" by auto
  with assms(5) borsh_type_okD [OF assms(2) data] show ?thesis
    by (simp add: nats_message_decode_def)
qed

subsection \<open>Every message of the pipeline was decoded from a delivery\<close>

definition decoded_delivery ::
  "('w, 'x) gcp_env \<Rightarrow> event message_content borsh_type \<Rightarrow> 'x receive_task \<Rightarrow> ('x, event) gcp_message \<Rightarrow> bool" where
  "decoded_delivery G C T m \<longleftrightarrow>
     (\<exists>w. gcp_message_decode G C (rt_subscription_name T) (gx_msg m) (rt_redis_connection T) (rt_ack_deadline T) w = Inr m)"

definition pipeline_messages :: "('w, 'x, 'h) pipeline \<Rightarrow> ('x, event) gcp_message set" where
  "pipeline_messages p = fst ` set (pl_callbacks p) \<union> {m. Inr m \<in> set (con_channel (ss_queue (pl_service p)))} \<union>
     fst ` set (pl_active p) \<union> set (pl_accepted p)"

lemma decode_delivery:
  "gcp_message_decode G C (rt_subscription_name T) x (rt_redis_connection T) (rt_ack_deadline T) w = Inr m \<Longrightarrow>
     decoded_delivery G C T m"
  by (auto simp: decoded_delivery_def gcp_message_decode_def Let_def res_bind_eq_Inr)

lemma set_without: "set (without i xs) \<subseteq> set xs"
  by (auto simp: without_def dest: in_set_takeD in_set_dropD)

lemma fst_set_update:
  assumes "n \<in> fst ` set xs"
  shows "fst ` set (xs[i := (n, b)]) \<subseteq> fst ` set xs"
proof -
  have "fst ` set (xs[i := (n, b)]) \<subseteq> fst ` insert (n, b) (set xs)"
    by (rule image_mono [OF set_update_subset_insert])
  with assms show ?thesis by auto
qed

lemma receive_step_messages:
  assumes "m \<in> pipeline_messages (receive_step G C T x p)"
  shows "m \<in> pipeline_messages p \<or> decoded_delivery G C T m"
  using assms forward_message_channel(1)
  by (fastforce simp: receive_step_def pipeline_messages_def Let_def decode_delivery dest!: subsetD split: sum.splits)

lemma check_step_messages:
  assumes "i < length (pl_callbacks p)" "pl_callbacks p ! i = (n, False)" "m \<in> pipeline_messages (check_step G i n p)"
  shows "m \<in> pipeline_messages p"
proof -
  have n: "n \<in> fst ` set (pl_callbacks p)" using assms(1,2) by (metis fst_conv image_eqI nth_mem)
  obtain b w1 where b: "redis_exists G (gx_redis_connection n) (redis_id_key n) (gs_world (ss_queue (pl_service p))) = (b, w1)"
    by force
  consider e where "b = Inl e" | "b = Inr True" | "b = Inr False" by (cases b) auto
  then show ?thesis
    using assms(3) n b fst_set_update [OF n, of i True] forward_message_channel(1) [of _ "(ss_queue (pl_service p))\<lparr>gs_world := w1\<rparr>"] set_without [of i "pl_callbacks p"]
    by cases (auto simp: check_step_def pipeline_messages_def is_processed_def io_map_err_def on_world_def Let_def; blast)+
qed


lemma ack_duplicate_step_messages:
  assumes "m \<in> pipeline_messages (ack_duplicate_step G i n p)"
  shows "m \<in> pipeline_messages p"
proof -
  obtain a w1 where "received_ack G (gx_msg n) (gs_world (ss_queue (pl_service p))) = (a, w1)" by force
  then show ?thesis
    using assms forward_message_channel(1) [of _ "(ss_queue (pl_service p))\<lparr>gs_world := w1\<rparr>"] set_without [of i "pl_callbacks p"]
    by (cases a) (auto simp: ack_duplicate_step_def pipeline_messages_def io_map_err_def on_world_def Let_def; blast)+
qed

lemma next_step_messages:
  "next_step I p = Some q \<Longrightarrow> m \<in> pipeline_messages q \<Longrightarrow> m \<in> pipeline_messages p"
  by (auto simp: next_step_def pipeline_messages_def Let_def split: if_splits list.splits sum.splits)

lemma request_step_messages:
  assumes "i < length (pl_active p)" "pl_active p ! i = (n, None)" "m \<in> pipeline_messages (request_step E I i n p)"
  shows "m \<in> pipeline_messages p"
proof -
  have n: "n \<in> fst ` set (pl_active p)" using assms(1,2) by (metis fst_conv image_eqI nth_mem)
  obtain r st where r: "post_event E I (gx_decoded n) (pl_service p) = (r :: gcp_error ingest_error + unit, st)" by force
  show ?thesis
    using assms(3) r n fst_set_update [OF n, of i "Some r"] post_event_metrics [OF r]
    by (auto simp: request_step_def pipeline_messages_def split: if_splits)
qed

lemma answer_step_messages:
  assumes "services_frame G V" "m \<in> pipeline_messages (answer_step G i n r p)"
  shows "m \<in> pipeline_messages p"
  using assms(2) answer_msg_within [OF assms(1), of r n "pl_service p"] set_without [of i "pl_active p"]
  by (auto simp: answer_step_def pipeline_messages_def)

lemma pipe_do_messages:
  assumes "services_frame G V" "pipe_do G C T E I e p = Some q" "m \<in> pipeline_messages q"
  shows "m \<in> pipeline_messages p \<or> decoded_delivery G C T m"
proof (cases e)
  case (Deliver x)
  with assms(2,3) show ?thesis by (auto dest: receive_step_messages split: if_splits)
next
  case (Lookup i)
  with assms(2,3) show ?thesis
    by (auto dest: check_step_messages split: if_splits prod.splits bool.splits)
next
  case (AckDuplicate i)
  with assms(2,3) show ?thesis
    by (auto dest: ack_duplicate_step_messages split: if_splits prod.splits bool.splits)
next
  case (ReceiverEnds r)
  with assms(2,3) show ?thesis by (auto simp: pipeline_messages_def split: if_splits)
next
  case DropConsumer
  with assms(2,3) show ?thesis by (auto simp: pipeline_messages_def gcp_consumer_drop_def)
next
  case NextItem
  with assms(2,3) show ?thesis by (auto dest: next_step_messages)
next
  case (Post i)
  with assms(2,3) show ?thesis
    by (auto dest: request_step_messages split: if_splits prod.splits option.splits)
next
  case (Answer i)
  with assms(2,3) show ?thesis
    by (auto dest: answer_step_messages [OF assms(1)] split: if_splits prod.splits option.splits)
qed

lemma pipe_steps_messages:
  assumes "services_frame G V" "pipe_steps G V C T E I p q" "m \<in> pipeline_messages q"
  shows "m \<in> pipeline_messages p \<or> decoded_delivery G C T m"
  using assms(2,3)
proof induction
  case (event p q e r)
  then show ?case using pipe_do_messages [OF assms(1)] by blast
qed (auto simp: pipeline_messages_def)

text \<open>Decoding a published message gives that message.\<close>

lemma published_delivery:
  assumes "borsh_type_ok C" "decoded_delivery G C T m"
    and "to_pubsub_message G C msg w = Inr (received_message G (gx_msg m))"
  shows "gx_id m = deduplication_id msg" "gx_decoded m = pm_data msg"
  using assms(2) published_decodes [OF assms(1,3)] by (cases m; auto simp: decoded_delivery_def)+

lemma decoded_has_id:
  "decoded_delivery G C T m \<Longrightarrow> ps_attributes (received_message G (gx_msg m)) ''Msg-Id'' = Some (gx_id m)"
  by (cases m) (auto simp: decoded_delivery_def gcp_message_decode_def Let_def res_bind_eq_Inr)

subsection \<open>Properties\<close>



text \<open>An event published in memory.\<close>

definition sample_publish :: "event publish_message" where
  "sample_publish = \<lparr>deduplication_id = ''7'', pm_data = sample_event\<rparr>"

lemma ser_many_writes:
  assumes "list_all (\<lambda>x. \<forall>w. \<exists>w'. bc_ser A x w = Inr w') xs"
  shows "\<exists>w'. ser_many A xs w = Inr w'"
  using assms
proof (induction xs arbitrary: w)
  case (Cons x xs)
  then obtain w1 where "bc_ser A x w = Inr w1" by auto
  with Cons show ?case by simp
qed simp

lemma sample_published: "\<exists>pm. to_pubsub_message memory_gcp (event_envelope borsh_le_prims) sample_publish w = Inr pm"
proof -
  let ?h = "fmupd ''correlation-id'' ''7'' (fmupd ''traceparent'' ''00'' fmempty) :: (string, string) fmap"
  let ?S = "string_borsh borsh_le_prims"
  have "list_all (\<lambda>kv. \<forall>w. \<exists>w'. bc_ser (pair_borsh ?S ?S) kv w = Inr w') (sorted_list_of_fmap ?h)"
    unfolding list_all_sorted_list fmpred_iff by (auto simp: ser_forms ser_le split: if_splits)
  then have many: "\<exists>w'. ser_many (pair_borsh ?S ?S) (sorted_list_of_fmap ?h) w = Inr w'" for w by (rule ser_many_writes)
  have "length (sorted_list_of_fmap ?h) = 2"
    by (simp add: sorted_list_of_fmap_def sorted_list_of_fset.rep_eq)
  with many have head: "\<exists>w'. bc_ser (headers_borsh borsh_le_prims) ?h w = Inr w'" for w
    by (simp add: headers_borsh_def ser_forms ser_le)
  have body: "\<exists>w'. bc_ser (event_borsh borsh_le_prims) sample_event w = Inr w'" for w
    by (simp add: sample_event_def event_borsh_def event_variant_def signers_rotated_event_borsh_def event_base_borsh_def
        tx_event_borsh_def token_borsh_def ser_forms ser_le dec_int_def dec_nat_small digit_char_def)
  obtain w1 where "bc_ser (headers_borsh borsh_le_prims) ?h [] = Inr w1" using head by blast
  moreover obtain w2 where "bc_ser (event_borsh borsh_le_prims) sample_event w1 = Inr w2" using body by blast
  ultimately show ?thesis
    by (simp add: to_pubsub_message_def sample_publish_def memory_gcp_def message_content_new_def inject_context_def
        header_set_def event_envelope_def queue_borsh_def message_content_borsh_def ser_forms)
qed



end
