(* ===== verification/Service_Startup.thy ===== *)
theory Service_Startup
  imports Worker_Loop
begin

text \<open>
  How a service comes up: the set-up of telemetry (\<open>bin-util/src/telemetry.rs\<close>) and logging
  (\<open>bin-util/src/lib.rs\<close>), and \<open>main\<close> of \<open>amplifier-ingester\<close> and \<open>amplifier-subscriber\<close> up to the
  point where the worker and the health-check server run.  A failed \<open>expect\<close> ends the process
  with its message; the fallible calls of a start-up are therefore \<open>io\<close>s with that message as
  their error.

  The OpenTelemetry and tracing libraries are fields of \<open>telemetry_env\<close>: \<open>'s\<close>, \<open>'m\<close> are the
  exporters, \<open>'r\<close> a resource, \<open>'f\<close> a log filter.
\<close>

subsection \<open>Telemetry\<close>

record ('s, 'm, 'r, 'f) telemetry_env =
  tl_build_span :: "exporter_config \<Rightarrow> ext_error + 's"
  tl_build_metric :: "exporter_config \<Rightarrow> ext_error + 'm"
  tl_resource :: "string \<Rightarrow> (string \<times> string) list \<Rightarrow> 'r"
  tl_detect_process :: 'r
  tl_detect_k8s :: 'r
  tl_new_uuid :: string
  tl_spawn_observer :: "ext_error + unit"
  tl_install_eyre :: "ext_error + unit"
  tl_env_filter :: "ext_error + 'f"
  tl_error_filter :: 'f
  tl_try_init :: "ext_error + unit"

record ('s, 'r) tracer =
  tr_name :: string
  tr_exporter :: 's
  tr_resources :: "'r list"

record ('m, 'r) meter_provider =
  mp_exporter :: 'm
  mp_resources :: "'r list"

text \<open>\<open>telemetry::init\<close>: the tracer, and the meter provider it makes the global one.\<close>

definition telemetry_init ::
  "('s, 'm, 'r, 'f) telemetry_env \<Rightarrow> string \<Rightarrow> string \<Rightarrow> telemetry_config \<Rightarrow>
     (string \<times> ext_error) + ('s, 'r) tracer \<times> ('m, 'r) meter_provider" where
  "telemetry_init L service_name service_version config =
     res_bind (get_exporters (tl_build_span L) (tl_build_metric L) config) (\<lambda>(span_exporter, metric_exporter).
       let service_resource = tl_resource L service_name
             [(''service.version'', service_version), (''service.instance.id'', tl_new_uuid L)];
           resources = [service_resource, tl_detect_process L, tl_detect_k8s L]
       in res_bind (map_err (Pair ''could not start process obverver thread'') (tl_spawn_observer L)) (\<lambda>_.
            Inr (\<lparr>tr_name = service_name, tr_exporter = span_exporter, tr_resources = resources\<rparr>,
                 \<lparr>mp_exporter = metric_exporter, mp_resources = resources\<rparr>)))"

subsection \<open>Logging\<close>

datatype log_format = FullFormat | JsonFormat | PrettyFormat

record ('s, 'r, 'f) log_subscriber =
  ls_filter :: 'f
  ls_format :: log_format
  ls_tracer :: "('s, 'r) tracer option"

text \<open>\<open>init_logging\<close>; \<open>debug\<close> is \<open>cfg!(debug_assertions)\<close>.\<close>

definition init_logging ::
  "('s, 'm, 'r, 'f) telemetry_env \<Rightarrow> bool \<Rightarrow> ('s, 'r) tracer option \<Rightarrow>
     ext_error + ('s, 'r, 'f) log_subscriber" where
  "init_logging L debug telemetry_tracer =
     res_bind (tl_install_eyre L) (\<lambda>_.
       let env_filter = (case tl_env_filter L of Inr f \<Rightarrow> f | Inl _ \<Rightarrow> tl_error_filter L);
           format = (case telemetry_tracer of
               Some _ \<Rightarrow> if debug then FullFormat else JsonFormat
             | None \<Rightarrow> if debug then PrettyFormat else JsonFormat)
       in res_bind (tl_try_init L) (\<lambda>_.
            Inr \<lparr>ls_filter = env_filter, ls_format = format, ls_tracer = telemetry_tracer\<rparr>))"

definition ensure_backtrace_set :: "(string \<rightharpoonup> string) \<Rightarrow> string \<rightharpoonup> string" where
  "ensure_backtrace_set env = env(''RUST_BACKTRACE'' \<mapsto> ''full'')"

subsection \<open>The entry points\<close>

definition cli_config_path :: "string option \<Rightarrow> string" where
  "cli_config_path arg = (case arg of Some path \<Rightarrow> path | None \<Rightarrow> ''relayer-config'')"

text \<open>\<open>expect\<close>: the process panics with the message.\<close>

definition expect :: "string \<Rightarrow> 'e + 'a \<Rightarrow> string + 'a" where
  "expect msg r = map_err (\<lambda>_. msg) r"

text \<open>\<open>tokio::time::interval\<close> panics on a period of zero.\<close>

definition interval_starts :: "duration \<Rightarrow> bool" where
  "interval_starts period \<longleftrightarrow> dur_secs period \<noteq> 0 \<or> dur_nanos period \<noteq> 0"

text \<open>
  \<open>run_ingester\<close> and \<open>run_subscriber\<close> up to \<open>try_join!\<close>: the service is created, the worker task
  is spawned, the health-check configuration is read and the server is spawned; a task that
  panics at its start, the worker over its tick rate or the server over its port (\<open>bind\<close>),
  makes \<open>try_join!\<close> fail.
\<close>

definition run_service ::
  "'f config_env \<Rightarrow> ('f \<Rightarrow> ext_error + health_config) \<Rightarrow> (16 word \<Rightarrow> ext_error + unit) \<Rightarrow> string \<Rightarrow>
     ('st, startup_error, 'svc) io \<Rightarrow> ('svc \<Rightarrow> ('q, 'e, unit) io) \<Rightarrow> duration \<Rightarrow> string \<Rightarrow>
     ('st, string, 'svc \<times> ('q, 'e) health_server) io" where
  "run_service F d_health bind created create check tickrate config_path =
     io_bind (io_map_err (\<lambda>_. created) create) (\<lambda>service.
     io_bind (io_lift (expect ''health check server should start''
         (run_health_check_server F d_health config_path (check service)))) (\<lambda>server.
     io_bind (io_lift (ensure (interval_starts tickrate \<and> \<not> isl (bind (hs_port server)))
         ''Failed to join main loop and health server tasks'')) (\<lambda>_. io_ok (service, server))))"

text \<open>\<open>main\<close>, the same in both services; then, for each service and back end, with its own
  construction and health check.\<close>

definition service_main ::
  "('s, 'm, 'r, 'g) telemetry_env \<Rightarrow> bool \<Rightarrow> string \<Rightarrow> 'f config_env \<Rightarrow> ('f \<Rightarrow> ext_error + 'cfg) \<Rightarrow>
     ('cfg \<Rightarrow> string + unit) \<Rightarrow> ('cfg \<Rightarrow> telemetry_config option) \<Rightarrow>
     (string \<Rightarrow> 'cfg \<Rightarrow> ('st, string, 'run) io) \<Rightarrow> string option \<Rightarrow> ('st, string, 'cfg \<times> 'run) io" where
  "service_main L debug name F d_config validate telemetry run arg =
     (let path = cli_config_path arg
      in io_bind (io_lift (expect ''config is correct'' (try_deserialize F d_config validate path))) (\<lambda>config.
         io_bind (io_lift (expect ''telemetry wired up''
             (case telemetry config of
                None \<Rightarrow> Inr None
              | Some telemetry_cfg \<Rightarrow>
                  res_bind (telemetry_init L name ''0.1.1'' telemetry_cfg) (\<lambda>(tracer, _). Inr (Some tracer))))) (\<lambda>tracer.
         io_bind (io_lift (expect ''logging wired up'' (init_logging L debug tracer))) (\<lambda>_.
         io_bind (run path config) (\<lambda>running. io_ok (config, running))))))"

definition ingester_main_gcp ::
  "('s, 'm, 'r, 'g) telemetry_env \<Rightarrow> bool \<Rightarrow> (16 word \<Rightarrow> ext_error + unit) \<Rightarrow> 'f config_env \<Rightarrow>
     ('f \<Rightarrow> ext_error + ('u, 'i) ingester_config) \<Rightarrow> ('f \<Rightarrow> ext_error + 'k ingester_gcp_section) \<Rightarrow>
     ('f \<Rightarrow> ext_error + health_config) \<Rightarrow> ('w, 'x) gcp_env \<Rightarrow> ('w, 'x, 'k, 't) kms_env \<Rightarrow>
     ('h, 'u, 'c, 'y, 'i, 't) http_env \<Rightarrow> u64 \<Rightarrow> string option \<Rightarrow>
     (('w, 'x, event) consumer_state, string,
      ('u, 'i) ingester_config \<times> ('x receive_task \<times> ('u, 'c) ingester \<times> simple_metrics) \<times>
      ((('w, 'x, event) consumer_state, 'h) service_state, gcp_error ingest_error) health_server) io" where
  "ingester_main_gcp L debug bind F d_config d_section d_health G K E now =
     service_main L debug ''amplifier-ingester'' F d_config validate_ingester_config igc_telemetry
       (\<lambda>path config. run_service F d_health bind ''ingester is created''
          (new_amplifier_ingester_gcp F d_config d_section G K E now path)
          (\<lambda>(task, ingester, metrics). ingester_check_health E ingester (gcp_event_consumer G))
          (igc_tickrate config) path)"

definition ingester_main_nats ::
  "('s, 'm, 'r, 'g) telemetry_env \<Rightarrow> bool \<Rightarrow> (16 word \<Rightarrow> ext_error + unit) \<Rightarrow> 'f config_env \<Rightarrow>
     ('f \<Rightarrow> ext_error + ('u, 'i) ingester_config) \<Rightarrow> ('f \<Rightarrow> ext_error + nats_section) \<Rightarrow>
     ('f \<Rightarrow> ext_error + health_config) \<Rightarrow> ('w, 'x) nats_env \<Rightarrow> ('w, 'x) jetstream_view \<Rightarrow> event borsh_type \<Rightarrow>
     ('h, 'u, 'c, 'y, 'i, 't) http_env \<Rightarrow> string option \<Rightarrow>
     ('w, string, ('u, 'i) ingester_config \<times> ('x nats_consumer \<times> ('u, 'c) ingester \<times> simple_metrics) \<times>
      (('w, 'h) service_state, nats_error ingest_error) health_server) io" where
  "ingester_main_nats L debug bind F d_config d_section d_health N V D E =
     service_main L debug ''amplifier-ingester'' F d_config validate_ingester_config igc_telemetry
       (\<lambda>path config. run_service F d_health bind ''ingester is created''
          (new_amplifier_ingester_nats F d_config d_section N E path)
          (\<lambda>(consumer, ingester, metrics). ingester_check_health E ingester (nats_event_consumer N V D consumer))
          (igc_tickrate config) path)"

definition subscriber_main_gcp ::
  "('s, 'm, 'r, 'g) telemetry_env \<Rightarrow> bool \<Rightarrow> (16 word \<Rightarrow> ext_error + unit) \<Rightarrow> 'f config_env \<Rightarrow>
     ('f \<Rightarrow> ext_error + ('u, 'i) subscriber_config) \<Rightarrow> ('f \<Rightarrow> ext_error + 'k subscriber_gcp_section) \<Rightarrow>
     ('f \<Rightarrow> ext_error + health_config) \<Rightarrow> ('w, 'x, task_item, task_item_id) gcp_peekable \<Rightarrow>
     ('w, 'x, 'k, 't) kms_env \<Rightarrow> ('h, 'u, 'c, 'y, 'i, 't) http_env \<Rightarrow> string option \<Rightarrow>
     ('w publisher_state, string,
      ('u, 'i) subscriber_config \<times> ('x peekable_publisher \<times> ('u, 'c) subscriber \<times> simple_metrics) \<times>
      (('w publisher_state, 'h) service_state, gcp_error subscribe_error) health_server) io" where
  "subscriber_main_gcp L debug bind F d_config d_section d_health Y K E =
     service_main L debug ''amplifier-subscriber'' F d_config validate_subscriber_config sbc_telemetry
       (\<lambda>path config. run_service F d_health bind ''subscriber is created''
          (new_amplifier_subscriber_gcp F d_config d_section (gy_env Y) K E path)
          (\<lambda>(publisher, subscriber, metrics). subscriber_check_health E
            (gcp_task_publisher (Y\<lparr>gy_publisher := publisher\<rparr>)) subscriber)
          (sbc_tickrate config) path)"

definition subscriber_main_nats ::
  "('s, 'm, 'r, 'g) telemetry_env \<Rightarrow> bool \<Rightarrow> (16 word \<Rightarrow> ext_error + unit) \<Rightarrow> 'f config_env \<Rightarrow>
     ('f \<Rightarrow> ext_error + ('u, 'i) subscriber_config) \<Rightarrow> ('f \<Rightarrow> ext_error + nats_section) \<Rightarrow>
     ('f \<Rightarrow> ext_error + health_config) \<Rightarrow> ('w, 'x, task_item, task_item_id) nats_peekable \<Rightarrow>
     ('h, 'u, 'c, 'y, 'i, 't) http_env \<Rightarrow> string option \<Rightarrow>
     ('w, string, ('u, 'i) subscriber_config \<times> ('x nats_publisher \<times> ('u, 'c) subscriber \<times> simple_metrics) \<times>
      (('w, 'h) service_state, nats_error subscribe_error) health_server) io" where
  "subscriber_main_nats L debug bind F d_config d_section d_health Y E =
     service_main L debug ''amplifier-subscriber'' F d_config validate_subscriber_config sbc_telemetry
       (\<lambda>path config. run_service F d_health bind ''subscriber is created''
          (new_amplifier_subscriber_nats F d_config d_section (ny_env Y) E path)
          (\<lambda>(publisher, subscriber, metrics). subscriber_check_health E
            (nats_task_publisher (Y\<lparr>ny_publisher := publisher\<rparr>)) subscriber)
          (sbc_tickrate config) path)"

subsection \<open>What a start-up has checked\<close>

lemma expect_eq_Inr [simp]: "expect msg r = Inr a \<longleftrightarrow> r = Inr a" "Inr a = expect msg r \<longleftrightarrow> r = Inr a"
  by (cases r; auto simp: expect_def)+

lemma Inr_eq_ensure [simp]: "Inr u = ensure b msg \<longleftrightarrow> b"
  by (simp add: ensure_def)

lemma run_service_ok:
  assumes "run_service F d_health bind created create check tickrate path st = (Inr (service, server), st')"
  shows "create st = (Inr service, st')"
    and "run_health_check_server F d_health path (check service) = Inr server"
    and "interval_starts tickrate" "\<not> isl (bind (hs_port server))"
  using assms by (auto simp: run_service_def io_cases)

lemma service_main_ok:
  assumes "service_main L debug name F d_config validate telemetry run arg st = (Inr (config, running), st')"
  shows "try_deserialize F d_config validate (cli_config_path arg) = Inr config"
    and "run (cli_config_path arg) config st = (Inr running, st')"
  using assms by (auto simp: service_main_def io_cases Let_def split: option.splits)

lemma health_server_port:
  assumes "run_health_check_server F d_health path service = Inr server"
  shows "hs_port server \<noteq> 0 \<and> hs_checker server = service"
  using assms
  by (auto simp: run_health_check_server_def res_bind_eq_Inr health_server_new_def validate_health_config_def
      dest!: try_deserialize_valid)

lemma validate_ingester_gcp_section_ok:
  "validate_ingester_gcp_section v c = Inr () \<Longrightarrow>
     v (igg_kms c) = Inr () \<and> igg_redis_connection c \<noteq> [] \<and> igg_events_subscription c \<noteq> [] \<and>
     sint (igg_ack_deadline_secs c) > 0"
  by (auto simp: validate_ingester_gcp_section_def res_bind_eq_Inr)

lemma gcp_amplifier_client_frame:
  fixes st :: "('w, 'x, 'm, 'z) consumer_state_scheme"
  assumes "gcp_amplifier_client K E a kms st = (r, st')"
  shows "con_metrics st' = con_metrics st \<and> con_channel st' = con_channel st \<and>
    con_receiver_alive st' = con_receiver_alive st"
  using assms
  by (auto simp: gcp_amplifier_client_def kms_tls_client_config_def io_bind_def io_map_err_def io_lift_def on_world_def
      split: prod.splits sum.splits)

lemma gcp_connect_consumer_ok:
  assumes "gcp_connect_consumer G subscription config now st = (Inr task, st')"
  shows "books_ok st' \<and> con_channel st' = [] \<and> rt_ack_deadline task = cc_ack_deadline_secs config \<and>
    rt_worker_count task = cc_worker_count config"
  using assms
  by (auto simp: gcp_connect_consumer_def gcp_consumer_new_def io_cases io_do_def books_ok_def consumer_metrics_new_def Let_def)

lemma new_ingester_gcp_ok:
  assumes "new_amplifier_ingester_gcp F d_config d_section G K E now path st = (Inr (task, ingester, metrics), st')"
  obtains config infra where
    "try_deserialize F d_config validate_ingester_config path = Inr config"
    "validate_ingester_gcp_section (kms_validate K) infra = Inr ()"
    "rt_ack_deadline task = igg_ack_deadline_secs infra" "ig_chain ingester = am_chain (igc_amplifier config)"
    "ig_concurrent_queue_items ingester = igc_concurrent_queue_items config" "books_ok st'" "con_channel st' = []"
proof -
  from assms obtain config infra st1 client where run:
    "try_deserialize F d_config validate_ingester_config path = Inr config"
    "try_deserialize F d_section (validate_ingester_gcp_section (kms_validate K)) path = Inr infra"
    "gcp_connect_consumer G (igg_events_subscription infra)
       \<lparr>cc_redis_connection = igg_redis_connection infra, cc_ack_deadline_secs = igg_ack_deadline_secs infra,
        cc_channel_capacity = igg_channel_capacity infra, cc_worker_count = igg_worker_count infra\<rparr> now st = (Inr task, st1)"
    "gcp_amplifier_client K E (igc_amplifier config) (igg_kms infra) st1 = (Inr client, st')"
    "(ingester, metrics) = ingester_new client (igc_concurrent_queue_items config) (am_chain (igc_amplifier config))"
    by (auto simp: new_amplifier_ingester_gcp_def io_cases)
  from gcp_connect_consumer_ok [OF run(3)] gcp_amplifier_client_frame [OF run(4)]
  have "books_ok st' \<and> con_channel st' = []" "rt_ack_deadline task = igg_ack_deadline_secs infra"
    by (auto simp: books_ok_def)
  with run that [OF run(1) try_deserialize_valid [OF run(2)]] show ?thesis
    by (auto simp: ingester_new_def)
qed

subsection \<open>A start-up in memory\<close>

definition memory_kms :: "(memory_services, nat, unit, unit) kms_env" where
  "memory_kms =
     \<lparr>kms_config_with_auth = io_ok 0, kms_client_new = (\<lambda>c. io_ok 0), kms_provider = (\<lambda>c k. io_ok 0),
      cert_from_pem_slice = (\<lambda>bs. Inr 0), tls_with_safe_versions = (\<lambda>p. Inr 0),
      tls_with_client_auth_cert = (\<lambda>b cs. Inr ()), kms_validate = (\<lambda>k. Inr ()), string_into_bytes = (\<lambda>s. [])\<rparr>"

definition memory_telemetry :: "(unit, unit, unit, unit) telemetry_env" where
  "memory_telemetry =
     \<lparr>tl_build_span = (\<lambda>c. Inr ()), tl_build_metric = (\<lambda>c. Inr ()), tl_resource = (\<lambda>n kv. ()), tl_detect_process = (),
      tl_detect_k8s = (), tl_new_uuid = ''id'', tl_spawn_observer = Inr (), tl_install_eyre = Inr (),
      tl_env_filter = Inr (), tl_error_filter = (), tl_try_init = Inr ()\<rparr>"

definition memory_config_env :: "unit config_env" where
  "memory_config_env = \<lparr>cfg_build = (\<lambda>sources. Inr ())\<rparr>"

definition memory_ingester_config :: "duration \<Rightarrow> (memory_url, unit) ingester_config" where
  "memory_ingester_config tickrate =
     \<lparr>igc_amplifier = \<lparr>am_identity = None, am_tls_public_certificate = Some ''pem'', am_url = ([''v1'', []], []),
        am_chain = ''solana'', am_get_chains_limit = 1\<rparr>,
      igc_tickrate = tickrate, igc_telemetry = None, igc_max_errors = 20, igc_concurrent_queue_items = 50\<rparr>"

definition memory_gcp_section :: "unit ingester_gcp_section" where
  "memory_gcp_section =
     \<lparr>igg_kms = (), igg_redis_connection = ''redis'', igg_events_subscription = ''events'', igg_ack_deadline_secs = 30,
      igg_channel_capacity = None, igg_worker_count = 1\<rparr>"

abbreviation memory_ingester_main where
  "memory_ingester_main tickrate \<equiv>
     ingester_main_gcp memory_telemetry False (\<lambda>port. Inr ()) memory_config_env
       (\<lambda>_. Inr (memory_ingester_config tickrate)) (\<lambda>_. Inr memory_gcp_section)
       (\<lambda>_. Inr \<lparr>health_check_port = 8080\<rparr>) memory_gcp memory_kms memory_http 0 None memory_event_state"

lemma memory_load:
  "try_deserialize memory_config_env (\<lambda>_. Inr c) v path = (case v c of Inr _ \<Rightarrow> Inr c | Inl msg \<Rightarrow> Inl (InvalidConfig msg))"
  by (cases "v c") (simp_all add: try_deserialize_def memory_config_env_def)

lemma memory_validate:
  "validate_ingester_config (memory_ingester_config t) = Inr ()"
  "validate_ingester_gcp_section v memory_gcp_section = res_bind (v ()) (\<lambda>_. Inr ())"
  "validate_health_config \<lparr>health_check_port = 8080\<rparr> = Inr ()"
  by (simp_all add: validate_ingester_config_def validate_chain_def memory_ingester_config_def trim_eq_Nil
      is_whitespace_def validate_ingester_gcp_section_def memory_gcp_section_def validate_health_config_def ensure_def)

lemma memory_config_fields:
  "am_tls_public_certificate (igc_amplifier (memory_ingester_config t)) = Some ''pem''"
  "am_identity (igc_amplifier (memory_ingester_config t)) = None"
  "igc_tickrate (memory_ingester_config t) = t" "igc_telemetry (memory_ingester_config t) = None"
  by (simp_all add: memory_ingester_config_def)

lemma memory_created:
  "\<exists>service st'. new_amplifier_ingester_gcp memory_config_env (\<lambda>_. Inr (memory_ingester_config t)) (\<lambda>_. Inr memory_gcp_section)
     memory_gcp memory_kms memory_http 0 path memory_event_state = (Inr service, st')"
  by (simp add: new_amplifier_ingester_gcp_def memory_load memory_validate memory_kms_def gcp_connect_consumer_def
      gcp_consumer_new_def connect_pubsub_client_def get_subscription_def gcp_amplifier_client_def
      kms_tls_client_config_def memory_gcp_def memory_http_def memory_config_fields amplifier_client_new_def
      authenticated_client_def io_bind_def io_map_err_def on_world_def io_defs Let_def ok_or_def split: prod.split)

lemma memory_started: "\<exists>config service server st'. memory_ingester_main (from_secs 1) = (Inr (config, service, server), st')"
proof -
  obtain task ingester metrics st' where
    "new_amplifier_ingester_gcp memory_config_env (\<lambda>_. Inr (memory_ingester_config (from_secs 1)))
      (\<lambda>_. Inr memory_gcp_section) memory_gcp memory_kms memory_http 0 ''relayer-config'' memory_event_state =
     (Inr (task, ingester, metrics), st')"
    using memory_created [of "from_secs 1" "''relayer-config''"] by auto
  then show ?thesis
    by (simp add: ingester_main_gcp_def service_main_def run_service_def cli_config_path_def memory_load memory_validate
        run_health_check_server_def init_logging_def memory_telemetry_def expect_def interval_starts_def from_secs_def ensure_def
        memory_config_fields health_server_new_def io_bind_def io_map_err_def io_defs Let_def)
qed

text \<open>A tick rate of zero is a valid configuration, but the service does not come up with it.\<close>

lemma zero_tickrate_panics:
  "validate_ingester_config (memory_ingester_config (from_secs 0)) = Inr ()"
  "memory_ingester_main (from_secs 0) \<noteq> (Inr started, st')"
proof -
  show "validate_ingester_config (memory_ingester_config (from_secs 0)) = Inr ()" by (rule memory_validate)
  show "memory_ingester_main (from_secs 0) \<noteq> (Inr started, st')"
  proof
    obtain config service server where parts: "started = (config, service, server)" by (cases started) auto
    assume "memory_ingester_main (from_secs 0) = (Inr started, st')"
    note main = service_main_ok [OF this [unfolded ingester_main_gcp_def parts]]
    from main(1) have "config = memory_ingester_config (from_secs 0)" by (simp add: memory_load memory_validate)
    with run_service_ok(3) [OF main(2)] show False
      by (simp add: memory_config_fields interval_starts_def from_secs_def)
  qed
qed

subsection \<open>Properties\<close>

text \<open>C31: the ingester comes up on Pub/Sub only in a sound state.  Whenever \<open>main\<close> reaches
  the point where the worker and the health server run, the chain it posts events for is the configured
  one and not blank, the acknowledgement deadline of its messages is positive, the health server has a
  real port, the worker can tick, and the consumer starts with balanced books and an empty
  channel, whatever state came before.\<close>

theorem ingester_started_valid:
  assumes "ingester_main_gcp L debug bind F d_config d_section d_health G K E now arg st =
    (Inr (config, (task, ingester, metrics), server), st')"
  shows "ig_chain ingester = am_chain (igc_amplifier config) \<and> trim (ig_chain ingester) \<noteq> [] \<and>
    ig_concurrent_queue_items ingester = igc_concurrent_queue_items config \<and> 0 < sint (rt_ack_deadline task) \<and>
    hs_port server \<noteq> 0 \<and> \<not> isl (bind (hs_port server)) \<and> interval_starts (igc_tickrate config) \<and>
    books_ok st' \<and> con_channel st' = []"
proof -
  note main = service_main_ok [OF assms [unfolded ingester_main_gcp_def]]
  note run = run_service_ok [OF main(2)]
  obtain config' infra where new:
    "try_deserialize F d_config validate_ingester_config (cli_config_path arg) = Inr config'"
    "validate_ingester_gcp_section (kms_validate K) infra = Inr ()"
    "rt_ack_deadline task = igg_ack_deadline_secs infra" "ig_chain ingester = am_chain (igc_amplifier config')"
    "ig_concurrent_queue_items ingester = igc_concurrent_queue_items config'" "books_ok st'" "con_channel st' = []"
    by (rule new_ingester_gcp_ok [OF run(1)])
  from new(1) main(1) have "config' = config" by simp
  moreover from try_deserialize_valid [OF main(1)] have "trim (am_chain (igc_amplifier config)) \<noteq> []"
    by (auto simp: validate_ingester_config_def validate_chain_def)
  ultimately show ?thesis
    using new validate_ingester_gcp_section_ok [OF new(2)] health_server_port [OF run(2)] run(3,4) by auto
qed

theorem ingester_started_valid_witness:
  "\<exists>config task ingester metrics server st'.
     memory_ingester_main (from_secs 1) = (Inr (config, (task, ingester, metrics), server), st') \<and>
     trim (ig_chain ingester) \<noteq> [] \<and> 0 < sint (rt_ack_deadline task) \<and> books_ok st'"
proof -
  obtain config task ingester metrics server st' where
    started: "memory_ingester_main (from_secs 1) = (Inr (config, (task, ingester, metrics), server), st')"
    using memory_started by (metis prod.exhaust)
  from ingester_started_valid [OF started] started show ?thesis by blast
qed

end
