(* ===== verification/Supervisor_Run.thy ===== *)
theory Supervisor_Run
  imports Supervisor Queue_Interfaces
begin

text \<open>
  \<open>supervisor::run\<close> from its call to its return: around the supervision of \<open>Supervisor\<close>, debug
  builds keep a named pipe that tells a test when all workers have been started, and the scope of
  the threads turns a thread that panicked and was not joined into a panic of \<open>run\<close>.

  The file system is a parameter; \<open>expect\<close> makes an error of it a panic with a message.
\<close>

subsection \<open>The ready pipe\<close>

datatype mode_bit = S_IRUSR | S_IWUSR | S_IRGRP | S_IROTH

text \<open>\<open>pv_path\<close> is the value of the environment variable \<open>READY_PIPE_PATH\<close>.\<close>

record ('w, 'x) pipe_env =
  pv_debug_assertions :: bool
  pv_path :: "string option"
  fs_exists :: "string \<Rightarrow> ('w, ext_error, bool) io"
  fs_remove_file :: "string \<Rightarrow> ('w, ext_error, unit) io"
  fs_mkfifo :: "string \<Rightarrow> mode_bit list \<Rightarrow> ('w, ext_error, unit) io"
  fs_open_write :: "string \<Rightarrow> ('w, ext_error, 'x) io"
  fs_write_all :: "'x \<Rightarrow> string \<Rightarrow> ('w, ext_error, unit) io"

definition ready_pipe_path :: "('w, 'x) pipe_env \<Rightarrow> string option" where
  "ready_pipe_path P = (if pv_debug_assertions P then pv_path P else None)"

definition io_expect :: "string \<Rightarrow> ('st, 'e, 'a) io \<Rightarrow> ('st, string, 'a) io" where
  "io_expect msg f = io_map_err (\<lambda>_. msg) f"

definition delete_stale_pipe :: "('w, 'x) pipe_env \<Rightarrow> ('w, string, unit) io" where
  "delete_stale_pipe P =
     (case ready_pipe_path P of
        None \<Rightarrow> io_ok ()
      | Some pipe_path \<Rightarrow>
          io_bind (io_expect ''pipe existance checked'' (fs_exists P pipe_path)) (\<lambda>found.
            if found then io_expect ''pipe file deleted'' (fs_remove_file P pipe_path) else io_ok ()))"

definition signal_ready :: "('w, 'x) pipe_env \<Rightarrow> ('w, string, unit) io" where
  "signal_ready P =
     (case ready_pipe_path P of
        None \<Rightarrow> io_ok ()
      | Some pipe_path \<Rightarrow>
          io_bind (io_expect ''named fife created'' (fs_mkfifo P pipe_path [S_IRUSR, S_IWUSR, S_IRGRP, S_IROTH])) (\<lambda>_.
          io_bind (io_expect ''open ready pipe'' (fs_open_write P pipe_path)) (\<lambda>file.
            io_expect ''write READY to ready pipe'' (fs_write_all P file ''READY''))))"

definition delete_ready_pipe :: "('w, 'x) pipe_env \<Rightarrow> ('w, string, unit) io" where
  "delete_ready_pipe P =
     (case ready_pipe_path P of
        None \<Rightarrow> io_ok ()
      | Some pipe_path \<Rightarrow> io_expect ''pipe file deleted'' (fs_remove_file P pipe_path))"

subsection \<open>A run\<close>

text \<open>The events of the supervision, with what the readiness signal does to the file system.\<close>

fun run_do ::
  "('w, 'x) pipe_env \<Rightarrow> worker_name list \<Rightarrow> Supervisor.event \<Rightarrow> supervision \<times> 'w \<Rightarrow> (supervision \<times> 'w) option" where
  "run_do P names (Sup Ready) (s, w) =
     (case signal_ready P w of
        (Inr _, w') \<Rightarrow> map_option (\<lambda>t. (t, w')) (event_do names (Sup Ready) s)
      | (Inl _, w') \<Rightarrow> map_option (\<lambda>t. (t, w')) (event_do names (Sup ReadyFailed) s))"
| "run_do P names (Sup ReadyFailed) (s, w) = None"
| "run_do P names e (s, w) = map_option (\<lambda>t. (t, w)) (event_do names e s)"

inductive run_steps ::
  "('w, 'x) pipe_env \<Rightarrow> worker_name list \<Rightarrow> nat \<Rightarrow> supervision \<times> 'w \<Rightarrow> supervision \<times> 'w \<Rightarrow> bool" for P names where
  none: "run_steps P names 0 c c"
| more: "run_steps P names k c d \<Longrightarrow> run_do P names e d = Some d' \<Longrightarrow> run_steps P names (Suc k) c d'"

text \<open>
  How \<open>run\<close> returns once the supervision is over.  A panic of the supervisor's thread ends the
  closure before the pipe is deleted, and its error is dropped; a panic of a worker's thread that
  nobody joined is passed on by the scope.
\<close>

definition run_return :: "('w, 'x) pipe_env \<Rightarrow> supervision \<Rightarrow> ('w, string, unit) io" where
  "run_return P s =
     io_bind (if sv_phase s = Finished then delete_ready_pipe P else io_ok ()) (\<lambda>_.
       if list_ex (\<lambda>(n, st). st = Crashed) (sv_threads s) then io_err ''a scoped thread panicked'' else io_ok ())"

text \<open>The supervision does not see the pipe.\<close>

lemma run_do_event:
  assumes "run_do P names e (s, w) = Some (t, w')"
  shows "\<exists>e'. event_do names e' s = Some t"
proof -
  obtain r w1 where "signal_ready P w = (r, w1)" by force
  with assms show ?thesis
    by (cases "(P, names, e, (s, w))" rule: run_do.cases) (auto simp del: event_do.simps split: sum.splits)
qed

lemma run_steps_supervision: "run_steps P names k c d \<Longrightarrow> sup_steps names k (fst c) (fst d)"
proof (induction rule: run_steps.induct)
  case (more k c d e d')
  from more.hyps(2) obtain e' where "event_do names e' (fst d) = Some (fst d')"
    using run_do_event [of P names e "fst d" "snd d" "fst d'" "snd d'"] by auto
  with more.IH show ?case by (rule sup_steps.more)
qed (rule sup_steps.none)

subsection \<open>What the signal means\<close>

text \<open>While workers are still to be built, each of the others has a thread, or a report of its failed
  build waits in the channel.\<close>

definition built_ok :: "worker_name list \<Rightarrow> supervision \<Rightarrow> bool" where
  "built_ok names s \<longleftrightarrow>
     (case sv_phase s of
        Startup ns \<Rightarrow> \<forall>n \<in> set names. n \<in> set ns \<or> n \<in> fst ` set (sv_threads s) \<or> n \<in> set (sv_channel s)
      | _ \<Rightarrow> True)"

lemma built_ok_sup: "sup_do names e s = Some t \<Longrightarrow> built_ok names s \<Longrightarrow> built_ok names t"
  by (cases e; cases "sv_phase s")
    (auto simp: built_ok_def sup_step_defs split: if_splits list.splits option.splits)

lemma built_ok_step:
  assumes "event_do names e s = Some t" "built_ok names s"
  shows "built_ok names t"
proof (cases e)
  case (Sup e')
  with assms built_ok_sup show ?thesis by simp
next
  case (Thread i e')
  with assms(1) have i: "i < length (sv_threads s)"
    and run: "worker_do e' i (fst (sv_threads s ! i)) (snd (sv_threads s ! i)) s = Some t" by (auto split: if_splits)
  obtain st' where th: "sv_threads t = (sv_threads s)[i := (fst (sv_threads s ! i), st')]"
    using worker_do_frame(5) [OF run] by blast
  have "map fst (sv_threads t) = map fst (sv_threads s)" 
    using i by (metis th map_update list_update_id nth_map fst_conv)
  then have "fst ` set (sv_threads t) = fst ` set (sv_threads s)" by (metis list.set_map)
  moreover have "set (sv_channel s) \<subseteq> set (sv_channel t)" using worker_do_frame(4) [OF run] by auto
  ultimately show ?thesis
    using assms(2) worker_do_frame(1) [OF run] by (auto simp: built_ok_def split: sup_phase.splits)
next
  case Cancel
  with assms show ?thesis by (auto simp: built_ok_def split: if_splits sup_phase.splits)
qed

lemma built_ok_reachable: "sup_steps names k (supervision_start names) s \<Longrightarrow> built_ok names s"
  by (induction "supervision_start names" s rule: sup_steps.induct)
    (simp add: built_ok_def supervision_start_def, erule built_ok_step)

lemma ready_after_all_built:
  assumes "run_steps P names k (supervision_start names, w) (s, w1)" "run_do P names (Sup Ready) (s, w1) = Some (t, w2)"
    and "n \<in> set names"
  shows "n \<in> fst ` set (sv_threads s) \<or> n \<in> set (sv_channel s)"
proof -
  have "sv_phase s = Startup []"
    using assms(2) by (auto split: prod.splits sum.splits if_splits)
  with built_ok_reachable [of names k s] run_steps_supervision [OF assms(1)] assms(3) show ?thesis
    by (auto simp: built_ok_def)
qed

subsection \<open>After a panic of the supervisor's thread\<close>

lemma aborted_step:
  assumes "event_do names e s = Some t" "sv_phase s = Aborted"
  shows "sv_phase t = Aborted \<and> spawned n t = spawned n s \<and> sv_channel t = sv_channel s"
proof (cases e)
  case (Sup e')
  with assms show ?thesis by (cases e') (auto split: if_splits)
next
  case (Thread i e')
  with assms(1) have i: "i < length (sv_threads s)"
    and run: "worker_do e' i (fst (sv_threads s ! i)) (snd (sv_threads s ! i)) s = Some t" by (auto split: if_splits)
  have "sv_channel t = sv_channel s"
    using assms(2) by (rule_tac worker_do.elims [OF run]) (auto simp: receiver_gone_def split: if_splits)
  then show ?thesis
    using worker_do_frame(1) [OF run] tokens_worker [OF i run] assms(2) by auto
next
  case Cancel
  with assms show ?thesis by (auto simp: spawned_def split: if_splits)
qed

lemma aborted_steps:
  "sup_steps names k s t \<Longrightarrow> sv_phase s = Aborted \<Longrightarrow>
     sv_phase t = Aborted \<and> spawned n t = spawned n s \<and> sv_channel t = sv_channel s"
  by (induction rule: sup_steps.induct) (auto dest: aborted_step [of names _ _ _ n])

definition abort_events :: "Supervisor.event list" where
  "abort_events = [Sup BuildOk, Sup BuildPanicked, Thread 0 RuntimeOk, Cancel, Thread 0 Stop, Thread 0 Check,
     Thread 0 Report, Thread 0 Leave]"

definition aborted_state :: supervision where
  "aborted_state =
     \<lparr>sv_cancelled = False, sv_channel = [], sv_phase = Aborted, sv_threads = [(''ingester'', Starting)],
      sv_active = [''ingester'' \<mapsto> 0]\<rparr>"

definition abort_end :: supervision where
  "abort_end = aborted_state\<lparr>sv_cancelled := True, sv_threads := [(''ingester'', Exited)]\<rparr>"

lemmas abort_defs = abort_events_def aborted_state_def abort_end_def sup_example_defs receiver_gone_def

lemma abort_runs:
  "events_do sup_example (take 1 abort_events) (supervision_start sup_example) =
     Some (aborted_state\<lparr>sv_phase := Startup [''subscriber'']\<rparr>)"
  "event_do sup_example (Sup BuildPanicked) (aborted_state\<lparr>sv_phase := Startup [''subscriber'']\<rparr>) = Some aborted_state"
  "events_do sup_example (drop 2 abort_events) aborted_state = Some abort_end"
  by (simp_all add: abort_defs fun_eq_iff)

definition memory_pipe :: "(string option, unit) pipe_env" where
  "memory_pipe =
     \<lparr>pv_debug_assertions = True, pv_path = Some ''pipe'', fs_exists = (\<lambda>p w. (Inr (w \<noteq> None), w)),
      fs_remove_file = (\<lambda>p w. if w = None then (Inl (ExtError ''not found''), w) else (Inr (), None)),
      fs_mkfifo = (\<lambda>p mode w. (Inr (), Some [])), fs_open_write = (\<lambda>p w. (Inr (), w)),
      fs_write_all = (\<lambda>f text w. (Inr (), Some text))\<rparr>"

subsection \<open>Properties\<close>

text \<open>C4: A builder that panics ends the supervision for good, and silently.  The supervisor's
  thread is gone, no worker is started any more and no report is read, though the workers that run go
  on; the pipe of debug builds stays, and \<open>run\<close> returns \<open>Ok\<close>, unless a worker's thread panicked.\<close>

theorem builder_panic_ends_supervision:
  assumes "sup_steps names k (supervision_start names) s" "event_do names (Sup BuildPanicked) s = Some t"
    and "sup_steps names j t u"
  shows "sv_phase u = Aborted \<and> spawned n u = spawned n s \<and> sv_channel u = sv_channel s \<and>
    run_return P u w = (if list_ex (\<lambda>(n, st). st = Crashed) (sv_threads u)
      then Inl ''a scoped thread panicked'' else Inr (), w)"
proof -
  have t: "t = s\<lparr>sv_phase := Aborted\<rparr>"
    using assms(2) by (auto split: sup_phase.splits list.splits)
  then have "spawned n t = spawned n s" by (simp add: spawned_def)
  with t aborted_steps [OF assms(3), of n] show ?thesis
    by (simp add: run_return_def io_bind_def io_defs)
qed

theorem builder_panic_ends_supervision_witness:
  "sup_steps sup_example 6 aborted_state abort_end \<and> supervision_over abort_end \<and> spawned ''subscriber'' abort_end = 0 \<and>
   run_return memory_pipe abort_end (Some ''READY'') = (Inr (), Some ''READY'')"
proof -
  have start: "sup_steps sup_example 1 (supervision_start sup_example) (aborted_state\<lparr>sv_phase := Startup [''subscriber'']\<rparr>)"
    using sup_steps_events [OF sup_steps.none abort_runs(1)] by (simp add: abort_events_def)
  have after: "sup_steps sup_example 6 aborted_state abort_end"
    using sup_steps_events [OF sup_steps.none abort_runs(3)] by (simp add: abort_events_def eval_nat_numeral)
  have "supervision_over abort_end" "spawned ''subscriber'' (aborted_state\<lparr>sv_phase := Startup [''subscriber'']\<rparr>) = 0"
    "\<not> list_ex (\<lambda>(n, st). st = Crashed) (sv_threads abort_end)"
    by (simp_all add: supervision_over_def spawned_def abort_end_def aborted_state_def)
  with after builder_panic_ends_supervision [OF start abort_runs(2) after, of "''subscriber''" memory_pipe "Some ''READY''"]
  show ?thesis by simp
qed

end
