(* ===== verification/Xtask.thy ===== *)
theory Xtask
  imports Prelude
begin

text \<open>
  The developer's commands of \<open>xtask/src/main.rs\<close>: each subcommand as the list of the programs it
  runs and of the variables it sets, in the order of the code, and \<open>main\<close>, which ends with the first
  program that fails.

  The shell is a parameter: running a command line, with the words that \<open>{args...}\<close> appends to it, and
  setting a variable for the programs that follow; the splitting into words is that of \<open>cmd!\<close>.  \<open>Args::parse\<close> is \<open>clap\<close>'s; \<open>main\<close> is taken from the command it returns (it
  ends the process when the arguments are none of these commands).  \<open>target_os\<close> and \<open>option_env!("CI")\<close>
  are fixed when the program is compiled.
\<close>

datatype xtask_command =
    Deny "string list"
  | Test bool "string list"
  | Check | Fmt | Doc | UnusedDeps

datatype target_os = MacOs | Linux | OtherOs

datatype xtask_step = Run string "string list" | SetVar string string

record ('w, 'e) shell_env =
  install_hooks :: "('w, 'e, unit) io"
  shell_new :: "('w, 'e, unit) io"
  run_program :: "string \<Rightarrow> string list \<Rightarrow> ('w, 'e, unit) io"
  set_var :: "string \<Rightarrow> string \<Rightarrow> 'w \<Rightarrow> 'w"

definition run_line :: "string \<Rightarrow> xtask_step" where
  "run_line line = Run line []"

definition run_line_with :: "string \<Rightarrow> string list \<Rightarrow> xtask_step" where
  "run_line_with line args = Run line args"

subsection \<open>The commands\<close>

definition deny_steps :: "string list \<Rightarrow> xtask_step list" where
  "deny_steps args =
     [run_line ''cargo install --version 0.17.0 cargo-deny'', run_line_with ''cargo deny check'' args]"

definition doc_test_steps :: "xtask_step list" where
  "doc_test_steps =
     [run_line ''cargo install cargo-nextest'',
      run_line ''cargo test --doc -p retry'',
      run_line ''cargo test --doc -p amplifier-api'',
      run_line ''cargo test --doc -p infrastructure'',
      run_line ''cargo test --doc -p bin-util'',
      run_line ''cargo test --doc -p common-serde-utils'',
      run_line ''cargo test --doc -p amplifier-subscriber --no-default-features --features=nats'',
      run_line ''cargo test --doc -p amplifier-ingester --no-default-features --features=nats'',
      run_line ''cargo test --doc -p amplifier-subscriber --features=gcp'',
      run_line ''cargo test --doc -p amplifier-ingester --features=gcp'']"

definition coverage_setup_steps :: "xtask_step list" where
  "coverage_setup_steps =
     [run_line ''cargo install grcov'',
      SetVar ''CARGO_INCREMENTAL'' ''0'',
      SetVar ''RUSTFLAGS'' ''-Cinstrument-coverage'',
      SetVar ''LLVM_PROFILE_FILE'' ''target/coverage/%p-%m.profraw'']"

definition nextest_steps :: "string list \<Rightarrow> xtask_step list" where
  "nextest_steps args =
     [run_line_with ''cargo nextest run -p retry --tests --all-targets --no-fail-fast'' args,
      run_line_with ''cargo nextest run -p bin-util --tests --all-targets --no-fail-fast'' args,
      run_line_with ''cargo nextest run -p amplifier-api --tests --all-targets --no-fail-fast'' args]"

text \<open>Opening a file, on the systems that have a program for it, and not in continuous integration.\<close>

definition open_steps :: "target_os \<Rightarrow> bool \<Rightarrow> string list \<Rightarrow> xtask_step list" where
  "open_steps os ci files =
     (if ci then []
      else case os of
             MacOs \<Rightarrow> map (\<lambda>file. run_line (''open '' @ file)) files
           | Linux \<Rightarrow> map (\<lambda>file. run_line (''xdg-open '' @ file)) files
           | OtherOs \<Rightarrow> [])"

definition coverage_report_steps :: "target_os \<Rightarrow> bool \<Rightarrow> xtask_step list" where
  \<open>coverage_report_steps os ci =
     [run_line ''mkdir -p target/coverage'',
      run_line ''grcov . --binary-path ./target/debug/deps/ -s . -t html,cobertura --branch --ignore-not-existing --ignore '../*' --ignore "/*" -o target/coverage/''] @
     open_steps os ci [''target/coverage/html/index.html'']\<close>

definition test_steps :: "target_os \<Rightarrow> bool \<Rightarrow> bool \<Rightarrow> string list \<Rightarrow> xtask_step list" where
  "test_steps os ci coverage args =
     doc_test_steps @ (if coverage then coverage_setup_steps else []) @ nextest_steps args @
     (if coverage then coverage_report_steps os ci else [])"

definition check_steps :: "xtask_step list" where
  "check_steps =
     [run_line ''cargo clippy -p retry --locked -- -D warnings'',
      run_line ''cargo clippy -p common-serde-utils --locked -- -D warnings'',
      run_line ''cargo clippy -p bin-util --locked -- -D warnings'',
      run_line ''cargo clippy -p amplifier-api --locked -- -D warnings'',
      run_line ''cargo clippy -p infrastructure --features=gcp --locked -- -D warnings'',
      run_line ''cargo clippy -p infrastructure --no-default-features --features=nats --locked -- -D warnings'',
      run_line ''cargo clippy -p amplifier-ingester --features=gcp --locked -- -D warnings'',
      run_line ''cargo clippy -p amplifier-ingester --no-default-features --features=nats --locked -- -D warnings'',
      run_line ''cargo clippy -p amplifier-subscriber --features=gcp --locked -- -D warnings'',
      run_line ''cargo clippy -p amplifier-subscriber --no-default-features --features=nats --locked -- -D warnings'',
      run_line ''cargo fmt --all --check'']"

definition fmt_steps :: "xtask_step list" where
  "fmt_steps =
     [run_line ''cargo fmt --all'',
      run_line ''cargo fix --allow-dirty --allow-staged --workspace --all-features --tests'',
      run_line ''cargo clippy --fix --allow-dirty --allow-staged --workspace --all-features --tests'']"

definition doc_steps :: "target_os \<Rightarrow> bool \<Rightarrow> xtask_step list" where
  "doc_steps os ci =
     [run_line ''cargo doc --workspace --no-deps --no-default-features --features=nats'',
      run_line ''cargo doc --workspace --no-deps --features=gcp''] @
     open_steps os ci
       [''target/doc/amplifier_api/index.html'', ''target/doc/amplifier_ingester/index.html'',
        ''target/doc/amplifier_subscriber/index.html'', ''target/doc/bin_util/index.html'',
        ''target/doc/retry/index.html'', ''target/doc/infrastructure/index.html'']"

definition unused_deps_steps :: "xtask_step list" where
  "unused_deps_steps = [run_line ''cargo install --version 0.7.0 cargo-machete'', run_line ''cargo-machete'']"

fun xtask_steps :: "target_os \<Rightarrow> bool \<Rightarrow> xtask_command \<Rightarrow> xtask_step list" where
  "xtask_steps os ci (Deny args) = deny_steps args"
| "xtask_steps os ci (Test coverage args) = test_steps os ci coverage args"
| "xtask_steps os ci Check = check_steps"
| "xtask_steps os ci Fmt = fmt_steps"
| "xtask_steps os ci Doc = doc_steps os ci"
| "xtask_steps os ci UnusedDeps = unused_deps_steps"

subsection \<open>main\<close>

fun run_steps :: "('w, 'e) shell_env \<Rightarrow> xtask_step list \<Rightarrow> ('w, 'e, unit) io" where
  "run_steps S [] = io_ok ()"
| "run_steps S (Run line args # steps) = io_bind (run_program S line args) (\<lambda>_. run_steps S steps)"
| "run_steps S (SetVar key val # steps) = io_bind (io_do (set_var S key val)) (\<lambda>_. run_steps S steps)"

definition xtask_main :: "('w, 'e) shell_env \<Rightarrow> target_os \<Rightarrow> bool \<Rightarrow> xtask_command \<Rightarrow> ('w, 'e, unit) io" where
  "xtask_main S os ci command =
     io_bind (install_hooks S) (\<lambda>_. io_bind (shell_new S) (\<lambda>_. run_steps S (xtask_steps os ci command)))"

subsection \<open>Facts\<close>

text \<open>A failure is that of the first program that fails; nothing is run after it.\<close>

theorem run_steps_first_failure:
  "run_steps S steps w = (Inl e, w') \<Longrightarrow>
     \<exists>before line args after w1. steps = before @ Run line args # after \<and>
       run_steps S before w = (Inr (), w1) \<and> run_program S line args w1 = (Inl e, w')"
proof (induction S steps arbitrary: w rule: run_steps.induct)
  case (2 S line args steps)
  show ?case
  proof (cases "run_program S line args w")
    case (Pair r w1)
    show ?thesis
    proof (cases r)
      case (Inl err)
      with 2(2) Pair show ?thesis by (rule_tac x = "[]" in exI, rule_tac x = line in exI, rule_tac x = args in exI, rule_tac x = steps in exI, rule_tac x = w in exI)
          (simp add: io_bind_def io_defs)
    next
      case (Inr u)
      with 2(2) Pair have "run_steps S steps w1 = (Inl e, w')" by (simp add: io_bind_def)
      from 2(1) [OF this] obtain before a "as" after w2 where
        "steps = before @ Run a as # after" "run_steps S before w1 = (Inr (), w2)" "run_program S a as w2 = (Inl e, w')" by blast
      with Pair Inr show ?thesis
        by (rule_tac x = "Run line args # before" in exI, rule_tac x = a in exI, rule_tac x = "as" in exI, rule_tac x = after in exI, rule_tac x = w2 in exI)
          (simp add: io_bind_def)
    qed
  qed
next
  case (3 S key val steps)
  then have "run_steps S steps (set_var S key val w) = (Inl e, w')" by (simp add: io_bind_def io_defs)
  from 3(1) [OF this] obtain before a "as" after w2 where
    "steps = before @ Run a as # after" "run_steps S before (set_var S key val w) = (Inr (), w2)"
    "run_program S a as w2 = (Inl e, w')" by blast
  then show ?case
    by (rule_tac x = "SetVar key val # before" in exI, rule_tac x = a in exI, rule_tac x = "as" in exI, rule_tac x = after in exI, rule_tac x = w2 in exI)
      (simp add: io_bind_def io_defs)
qed (simp add: io_defs)

text \<open>Without coverage a test run sets no variable and opens no file; the arguments after \<open>--\<close> reach
  exactly the three runs of \<open>nextest\<close>.\<close>

theorem plain_test_steps:
  "xtask_steps os ci (Test False args) = doc_test_steps @ nextest_steps args"
  by (simp add: test_steps_def)

end
